(* ===== verification/Prelude.thy ===== *)
theory Prelude
  imports Main "HOL-Library.AList" "HOL-Library.List_Lexorder" "HOL-Library.Char_ord"
begin

text \<open>
  Shared vocabulary of the development: results with errors, Go maps as association lists,
  the collections of lemmas the component theories feed to the simplifier, and the locale of
  transition systems with an invariant.
\<close>

named_theorems go_str \<open>facts on the string library\<close>
named_theorems wf_simps \<open>unfoldings of well-formedness predicates\<close>
named_theorems wf_step \<open>operations preserve well-formedness\<close>

section \<open>Results\<close>

text \<open>A Go function returning a value and an error is a sum: \<open>Err\<close> on the left.\<close>

type_synonym ('e, 'a) res = "'e + 'a"

abbreviation Err :: "'e \<Rightarrow> ('e, 'a) res" where "Err \<equiv> Inl"
abbreviation Ok :: "'a \<Rightarrow> ('e, 'a) res" where "Ok \<equiv> Inr"

definition is_ok :: "('e, 'a) res \<Rightarrow> bool" where
  "is_ok r = (case r of Inl _ \<Rightarrow> False | Inr _ \<Rightarrow> True)"

lemma is_ok_simps [simp]: "is_ok (Ok x)" "\<not> is_ok (Err e)"
  by (simp_all add: is_ok_def)

lemma is_ok_iff: "is_ok r \<longleftrightarrow> (\<exists>x. r = Ok x)"
  by (cases r) simp_all

definition res_bind :: "('e, 'a) res \<Rightarrow> ('a \<Rightarrow> ('e, 'b) res) \<Rightarrow> ('e, 'b) res" where
  "res_bind r f = (case r of Inl e \<Rightarrow> Inl e | Inr x \<Rightarrow> f x)"

lemma res_bind_simps [simp]: "res_bind (Err e) f = Err e" "res_bind (Ok x) f = f x"
  by (simp_all add: res_bind_def)

lemma res_bind_eq_Ok: "res_bind r f = Ok y \<longleftrightarrow> (\<exists>x. r = Ok x \<and> f x = Ok y)"
  by (cases r) simp_all

section \<open>Go maps\<close>

text \<open>
  A \<open>map[K]V\<close> is an association list without duplicate keys. The list order stands for one
  iteration order of the map; Go leaves that order open, so nothing may depend on it except
  where a theorem says so.
\<close>

type_synonym ('k, 'v) gomap = "('k \<times> 'v) list"

abbreviation gput :: "'k \<Rightarrow> 'v \<Rightarrow> ('k, 'v) gomap \<Rightarrow> ('k, 'v) gomap" where
  "gput \<equiv> AList.update"
abbreviation gdel :: "'k \<Rightarrow> ('k, 'v) gomap \<Rightarrow> ('k, 'v) gomap" where
  "gdel \<equiv> AList.delete"

definition wf_gomap :: "('k, 'v) gomap \<Rightarrow> bool" where
  "wf_gomap m = distinct (map fst m)"

lemma gput_get [simp]: "map_of (gput k v m) = (map_of m)(k \<mapsto> v)"
  by (rule update_conv')

lemma gdel_get [simp]: "map_of (gdel k m) = (map_of m)(k := None)"
  by (rule delete_conv')

lemma wf_gomap_empty [simp, wf_step]: "wf_gomap []"
  by (simp add: wf_gomap_def)

lemma wf_gomap_put [simp, wf_step]: "wf_gomap m \<Longrightarrow> wf_gomap (gput k v m)"
  by (simp add: wf_gomap_def distinct_update)

lemma wf_gomap_del [simp, wf_step]: "wf_gomap m \<Longrightarrow> wf_gomap (gdel k m)"
  by (simp add: wf_gomap_def distinct_delete)

lemma wf_gomap_filter [simp, wf_step]: "wf_gomap m \<Longrightarrow> wf_gomap (filter P m)"
  by (simp add: wf_gomap_def distinct_map_filter)

lemma gomap_mem: "wf_gomap m \<Longrightarrow> (k, v) \<in> set m \<longleftrightarrow> map_of m k = Some v"
  by (simp add: wf_gomap_def)

lemma map_of_filter_fst: "map_of (filter (\<lambda>p. P (fst p)) m) k = (if P k then map_of m k else None)"
  by (induction m) auto

lemma wf_gomap_induct_eq:
  assumes "wf_gomap m" "wf_gomap m'" "map_of m = map_of m'"
  shows "set m = set m'"
proof -
  have "p \<in> set m \<longleftrightarrow> p \<in> set m'" for p
    using gomap_mem [OF assms(1), of "fst p" "snd p"] gomap_mem [OF assms(2), of "fst p" "snd p"] assms(3)
    by simp
  then show ?thesis by blast
qed

section \<open>Lists\<close>

lemma filter_takeWhile_all: "\<forall>x\<in>set xs. P x \<Longrightarrow> filter P xs = xs"
  by (induction xs) auto

lemma sorted_wrt_filter_hd:
  "sorted_wrt R xs \<Longrightarrow> filter P xs = y # ys \<Longrightarrow> z \<in> set ys \<Longrightarrow> R y z"
  by (metis list.set_intros(1) sorted_wrt.simps(2) sorted_wrt_filter)

lemma find_eq_hd_filter: "find P xs = (case filter P xs of [] \<Rightarrow> None | y # _ \<Rightarrow> Some y)"
  by (induction xs) auto

section \<open>Transition systems\<close>

text \<open>
  The interface every step relation of the development is proved against: if the start states
  satisfy the invariant and every step keeps it, then so does every state a run reaches.
\<close>

locale invariant_system =
  fixes start :: "'s \<Rightarrow> bool"
    and step :: "'s \<Rightarrow> 's \<Rightarrow> bool"
    and inv :: "'s \<Rightarrow> bool"
  assumes inv_start: "start s \<Longrightarrow> inv s"
    and inv_step: "inv s \<Longrightarrow> step s t \<Longrightarrow> inv t"
begin

lemma inv_run: "step\<^sup>*\<^sup>* s t \<Longrightarrow> inv s \<Longrightarrow> inv t"
  by (induction rule: rtranclp_induct) (auto intro: inv_step)

lemma inv_reachable: "start s \<Longrightarrow> step\<^sup>*\<^sup>* s t \<Longrightarrow> inv t"
  using inv_run inv_start by blast

end

section \<open>Functional refinement\<close>

text \<open>A stateful component run over a list of inputs, with the outputs in order.\<close>

fun run_io :: "('s \<Rightarrow> 'i \<Rightarrow> 's \<times> 'o) \<Rightarrow> 's \<Rightarrow> 'i list \<Rightarrow> 's \<times> 'o list" where
  "run_io f s [] = (s, [])"
| "run_io f s (i # is) = (let (s1, x) = f s i; (s2, xs) = run_io f s1 is in (s2, x # xs))"

fun run_guard :: "('s \<Rightarrow> 'i \<Rightarrow> 's \<times> 'o) \<Rightarrow> ('s \<Rightarrow> 'i \<Rightarrow> bool) \<Rightarrow> 's \<Rightarrow> 'i list \<Rightarrow> bool" where
  "run_guard f g s [] = True"
| "run_guard f g s (i # is) = (g s i \<and> run_guard f g (fst (f s i)) is)"

text \<open>
  The interface of a component with an abstract specification: related states give the same
  output on an admissible input and stay related. Then whole runs agree.
\<close>

locale io_refinement =
  fixes conc :: "'s \<Rightarrow> 'i \<Rightarrow> 's \<times> 'o"
    and spec :: "'a \<Rightarrow> 'i \<Rightarrow> 'a \<times> 'o"
    and guard :: "'a \<Rightarrow> 'i \<Rightarrow> bool"
    and rel :: "'s \<Rightarrow> 'a \<Rightarrow> bool"
  assumes sim_out: "rel s a \<Longrightarrow> guard a i \<Longrightarrow> snd (conc s i) = snd (spec a i)"
    and sim_rel: "rel s a \<Longrightarrow> guard a i \<Longrightarrow> rel (fst (conc s i)) (fst (spec a i))"
begin

lemma run_refines:
  "rel s a \<Longrightarrow> run_guard spec guard a is \<Longrightarrow>
     snd (run_io conc s is) = snd (run_io spec a is) \<and> rel (fst (run_io conc s is)) (fst (run_io spec a is))"
proof (induction "is" arbitrary: s a)
  case Nil
  then show ?case by simp
next
  case (Cons i "is")
  then have "snd (conc s i) = snd (spec a i)" "rel (fst (conc s i)) (fst (spec a i))"
    by (auto intro: sim_out sim_rel)
  with Cons.IH [of "fst (conc s i)" "fst (spec a i)"] Cons.prems show ?case
    by (simp add: Let_def case_prod_unfold)
qed

end

end
