(* ===== verification/GoStrings.thy ===== *)
theory GoStrings
  imports Prelude
begin

text \<open>
  The functions of Go's \<open>strings\<close> and \<open>strconv\<close> packages that the program uses, on
  strings as byte lists (a Go string is a byte sequence and an Isabelle \<open>char\<close> is a byte).
  Case conversion and white space are the ASCII ones: for bytes above 127 the Go functions
  decode runes, which is not modelled here.
\<close>

section \<open>Prefixes and suffixes\<close>

definition has_prefix :: "string \<Rightarrow> string \<Rightarrow> bool" where
  "has_prefix s p = (take (length p) s = p)"

definition has_suffix :: "string \<Rightarrow> string \<Rightarrow> bool" where
  "has_suffix s p = has_prefix (rev s) (rev p)"

definition cut_prefix :: "string \<Rightarrow> string \<Rightarrow> string option" where
  "cut_prefix s p = (if has_prefix s p then Some (drop (length p) s) else None)"

definition trim_prefix :: "string \<Rightarrow> string \<Rightarrow> string" where
  "trim_prefix s p = (if has_prefix s p then drop (length p) s else s)"

definition trim_suffix :: "string \<Rightarrow> string \<Rightarrow> string" where
  "trim_suffix s p = (if has_suffix s p then take (length s - length p) s else s)"

lemma has_prefix_iff: "has_prefix s p \<longleftrightarrow> (\<exists>t. s = p @ t)"
  unfolding has_prefix_def by (metis append_eq_conv_conj append_take_drop_id)

lemma has_suffix_iff: "has_suffix s p \<longleftrightarrow> (\<exists>t. s = t @ p)"
proof -
  have "has_suffix s p \<longleftrightarrow> (\<exists>t. rev s = rev p @ t)"
    by (simp add: has_suffix_def has_prefix_iff)
  also have "\<dots> \<longleftrightarrow> (\<exists>t. s = t @ p)"
    by (metis rev_append rev_rev_ident)
  finally show ?thesis .
qed

lemma has_prefix_append [simp, go_str]: "has_prefix (p @ t) p"
  by (simp add: has_prefix_def)

lemma has_suffix_append [simp, go_str]: "has_suffix (t @ p) p"
  by (simp add: has_suffix_iff)

lemma has_prefix_refl [simp]: "has_prefix s s"
  by (simp add: has_prefix_def)

lemma has_prefix_Nil [simp]: "has_prefix s []"
  by (simp add: has_prefix_def)

lemma has_prefix_Cons [simp]: "has_prefix (c # s) (d # p) \<longleftrightarrow> c = d \<and> has_prefix s p"
  by (auto simp: has_prefix_def)

lemma has_prefix_Nil2 [simp]: "has_prefix [] (d # p) \<longleftrightarrow> False"
  by (simp add: has_prefix_def)

lemma has_prefix_length: "has_prefix s p \<Longrightarrow> length p \<le> length s"
  by (auto simp: has_prefix_iff)

lemma cut_prefix_append [simp, go_str]: "cut_prefix (p @ t) p = Some t"
  by (simp add: cut_prefix_def)

lemma cut_prefix_Some: "cut_prefix s p = Some t \<longleftrightarrow> s = p @ t"
  by (auto simp: cut_prefix_def has_prefix_iff)

lemma trim_prefix_append [simp, go_str]: "trim_prefix (p @ t) p = t"
  by (simp add: trim_prefix_def)

lemma trim_suffix_append [simp, go_str]: "trim_suffix (t @ p) p = t"
  by (simp add: trim_suffix_def)

section \<open>Searching\<close>

text \<open>\<open>strings.Cut\<close>: \<open>None\<close> when the separator does not occur.\<close>

fun cut_at :: "string \<Rightarrow> string \<Rightarrow> (string \<times> string) option" where
  "cut_at [] sep = (if sep = [] then Some ([], []) else None)"
| "cut_at (c # s) sep =
     (if has_prefix (c # s) sep then Some ([], drop (length sep) (c # s))
      else (case cut_at s sep of None \<Rightarrow> None | Some (a, b) \<Rightarrow> Some (c # a, b)))"

definition str_contains :: "string \<Rightarrow> string \<Rightarrow> bool" where
  "str_contains s sub = (cut_at s sub \<noteq> None)"

text \<open>\<open>strings.Index\<close>, with \<open>None\<close> for -1.\<close>

definition str_index :: "string \<Rightarrow> string \<Rightarrow> nat option" where
  "str_index s sub = map_option (\<lambda>(a, b). length a) (cut_at s sub)"

lemma cut_at_append: "cut_at s sep = Some (a, b) \<Longrightarrow> s = a @ sep @ b"
proof (induction s arbitrary: a)
  case Nil
  then show ?case by (auto split: if_splits)
next
  case (Cons c s)
  show ?case
  proof (cases "has_prefix (c # s) sep")
    case True
    with Cons.prems have "a = []" "b = drop (length sep) (c # s)" by auto
    moreover obtain t where "c # s = sep @ t" using True by (auto simp: has_prefix_iff)
    ultimately show ?thesis by simp
  next
    case False
    with Cons.prems Cons.IH show ?thesis by (auto split: option.splits)
  qed
qed

lemma cut_at_char: "c \<notin> set a \<Longrightarrow> cut_at (a @ c # b) [c] = Some (a, b)"
  by (induction a) auto

lemma cut_at_char_None: "cut_at s [c] = None \<longleftrightarrow> c \<notin> set s"
  by (induction s) (auto split: option.splits)

lemma cut_at_char_Some: "cut_at s [c] = Some (a, b) \<longleftrightarrow> s = a @ c # b \<and> c \<notin> set a"
proof
  have no: "c \<notin> set a" if "cut_at s [c] = Some (a, b)"
    using that by (induction s arbitrary: a) (auto split: if_splits option.splits)
  assume "cut_at s [c] = Some (a, b)"
  then show "s = a @ c # b \<and> c \<notin> set a" using cut_at_append no by fastforce
qed (simp add: cut_at_char)

lemma str_contains_char: "str_contains s [c] \<longleftrightarrow> c \<in> set s"
  by (auto simp: str_contains_def cut_at_char_None)

text \<open>\<open>strings.LastIndexByte\<close> as the split at the last occurrence.\<close>

definition cut_last :: "string \<Rightarrow> char \<Rightarrow> (string \<times> string) option" where
  "cut_last s c = map_option (\<lambda>(a, b). (rev b, rev a)) (cut_at (rev s) [c])"

lemma cut_last_Some: "cut_last s c = Some (a, b) \<longleftrightarrow> s = a @ c # b \<and> c \<notin> set b"
proof -
  have "cut_last s c = Some (a, b) \<longleftrightarrow> cut_at (rev s) [c] = Some (rev b, rev a)"
    by (auto simp: cut_last_def)
  also have "\<dots> \<longleftrightarrow> s = a @ c # b \<and> c \<notin> set b"
    by (simp add: cut_at_char_Some rev_swap)
  finally show ?thesis .
qed

lemma cut_last_None: "cut_last s c = None \<longleftrightarrow> c \<notin> set s"
  by (simp add: cut_last_def cut_at_char_None)

section \<open>Splitting and joining\<close>

fun str_split :: "char \<Rightarrow> string \<Rightarrow> string list" where
  "str_split c [] = [[]]"
| "str_split c (x # s) =
     (if x = c then [] # str_split c s
      else (case str_split c s of [] \<Rightarrow> [[x]] | w # ws \<Rightarrow> (x # w) # ws))"

fun str_join :: "string \<Rightarrow> string list \<Rightarrow> string" where
  "str_join sep [] = []"
| "str_join sep [w] = w"
| "str_join sep (w # v # ws) = w @ sep @ str_join sep (v # ws)"

lemma str_split_ne [simp]: "str_split c s \<noteq> []"
  by (induction s) (auto split: list.splits)

lemma str_split_no_sep: "w \<in> set (str_split c s) \<Longrightarrow> c \<notin> set w"
  by (induction s arbitrary: w) (auto split: list.splits if_splits)

lemma str_split_word: "c \<notin> set w \<Longrightarrow> str_split c w = [w]"
  by (induction w) auto

lemma str_split_append_sep: "str_split c (a @ c # b) = str_split c a @ str_split c b"
  by (induction a) (auto split: list.splits)

lemma str_join_Cons: "ws \<noteq> [] \<Longrightarrow> str_join sep (w # ws) = w @ sep @ str_join sep ws"
  by (cases ws) auto

lemma str_split_join:
  assumes "ws \<noteq> []" "\<And>w. w \<in> set ws \<Longrightarrow> c \<notin> set w"
  shows "str_split c (str_join [c] ws) = ws"
  using assms
proof (induction ws)
  case Nil
  then show ?case by simp
next
  case (Cons w ws)
  then show ?case
    by (cases "ws = []") (auto simp: str_split_word str_join_Cons str_split_append_sep)
qed

lemma str_join_split [simp, go_str]: "str_join [c] (str_split c s) = s"
proof (induction s)
  case Nil
  then show ?case by simp
next
  case (Cons x s)
  show ?case
  proof (cases "str_split c s")
    case Nil
    then show ?thesis by (metis str_split_ne)
  next
    case (Cons w ws)
    with Cons.IH show ?thesis by (cases ws) auto
  qed
qed

lemma str_split_inj: "str_split c s = str_split c t \<Longrightarrow> s = t"
  by (metis str_join_split)

lemma str_join_append:
  "xs \<noteq> [] \<Longrightarrow> ys \<noteq> [] \<Longrightarrow> str_join sep (xs @ ys) = str_join sep xs @ sep @ str_join sep ys"
proof (induction xs)
  case Nil
  then show ?case by simp
next
  case (Cons x xs)
  then show ?case by (cases "xs = []") (auto simp: str_join_Cons)
qed

lemma set_str_split_sub: "w \<in> set (str_split c s) \<Longrightarrow> set w \<subseteq> set s"
proof (induction s arbitrary: w)
  case Nil
  then show ?case by simp
next
  case (Cons x s)
  obtain v vs where vs: "str_split c s = v # vs" by (metis str_split_ne list.exhaust)
  with Cons.IH have "set v \<subseteq> set s" "\<And>u. u \<in> set vs \<Longrightarrow> set u \<subseteq> set s" by auto
  with Cons.prems vs show ?case by (auto split: if_splits)
qed

text \<open>\<open>strings.ReplaceAll\<close>; the program never passes an empty old string.\<close>

function replace_all :: "string \<Rightarrow> string \<Rightarrow> string \<Rightarrow> string" where
  "replace_all s old new =
     (if s = [] \<or> old = [] then s
      else if has_prefix s old then new @ replace_all (drop (length old) s) old new
      else hd s # replace_all (tl s) old new)"
  by pat_completeness auto
termination
  by (relation "measure (\<lambda>(s, old, new). length s)") auto

declare replace_all.simps [simp del]

lemma replace_all_Nil [simp]: "replace_all [] old new = []"
  by (subst replace_all.simps) simp

lemma replace_all_char: "replace_all s [c] [d] = map (\<lambda>x. if x = c then d else x) s"
  by (induction s) (simp_all add: replace_all.simps)

section \<open>Character classes\<close>

abbreviation code_of :: "char \<Rightarrow> nat" where "code_of \<equiv> of_char"

definition is_digit :: "char \<Rightarrow> bool" where
  "is_digit c = (48 \<le> code_of c \<and> code_of c \<le> 57)"
definition is_lower :: "char \<Rightarrow> bool" where
  "is_lower c = (97 \<le> code_of c \<and> code_of c \<le> 122)"
definition is_upper :: "char \<Rightarrow> bool" where
  "is_upper c = (65 \<le> code_of c \<and> code_of c \<le> 90)"

text \<open>The class \<open>[a-z0-9]\<close> of the program's regular expressions.\<close>

definition is_alnum :: "char \<Rightarrow> bool" where
  "is_alnum c = (is_lower c \<or> is_digit c)"

text \<open>ASCII white space of \<open>unicode.IsSpace\<close>: tab, newline, vertical tab, form feed, return, blank.\<close>

definition is_space :: "char \<Rightarrow> bool" where
  "is_space c = ((9 \<le> code_of c \<and> code_of c \<le> 13) \<or> code_of c = 32)"

definition lower_char :: "char \<Rightarrow> char" where
  "lower_char c = (if is_upper c then char_of (code_of c + 32) else c)"

definition to_lower :: "string \<Rightarrow> string" where
  "to_lower s = map lower_char s"

lemmas char_class_defs = is_digit_def is_lower_def is_upper_def is_alnum_def is_space_def

lemma lower_char_not_upper: "\<not> is_upper (lower_char c)"
  by (simp add: lower_char_def is_upper_def)

lemma lower_char_id: "\<not> is_upper c \<Longrightarrow> lower_char c = c"
  by (simp add: lower_char_def)

lemma to_lower_idem [simp, go_str]: "to_lower (to_lower s) = to_lower s"
  by (simp add: to_lower_def lower_char_id lower_char_not_upper)

lemma to_lower_id: "\<forall>c\<in>set s. \<not> is_upper c \<Longrightarrow> to_lower s = s"
  by (induction s) (auto simp: to_lower_def lower_char_id)

lemma alnum_not_upper: "is_alnum c \<Longrightarrow> \<not> is_upper c"
  by (auto simp: char_class_defs)

section \<open>Trimming\<close>

definition trim_left :: "(char \<Rightarrow> bool) \<Rightarrow> string \<Rightarrow> string" where
  "trim_left P s = dropWhile P s"
definition trim_right :: "(char \<Rightarrow> bool) \<Rightarrow> string \<Rightarrow> string" where
  "trim_right P s = rev (dropWhile P (rev s))"
definition trim_both :: "(char \<Rightarrow> bool) \<Rightarrow> string \<Rightarrow> string" where
  "trim_both P s = trim_right P (trim_left P s)"

text \<open>\<open>strings.TrimSpace\<close>.\<close>

definition trim_space :: "string \<Rightarrow> string" where
  "trim_space s = trim_both is_space s"

lemma trim_right_Nil_iff: "trim_right P s = [] \<longleftrightarrow> (\<forall>c\<in>set s. P c)"
  by (simp add: trim_right_def dropWhile_eq_Nil_conv)

lemma set_trim_right: "set (trim_right P s) \<subseteq> set s"
  unfolding trim_right_def by (auto dest: set_dropWhileD)

lemma set_trim_both: "set (trim_both P s) \<subseteq> set s"
  unfolding trim_both_def trim_left_def by (auto dest!: set_trim_right [THEN subsetD] dest: set_dropWhileD)

lemma trim_right_id: "s = [] \<or> \<not> P (last s) \<Longrightarrow> trim_right P s = s"
  unfolding trim_right_def by (cases s rule: rev_cases) auto

lemma trim_right_last: "trim_right P s \<noteq> [] \<Longrightarrow> \<not> P (last (trim_right P s))"
  unfolding trim_right_def
  by (metis (no_types, lifting) hd_dropWhile last_rev rev_is_Nil_conv)

lemma trim_both_id:
  "s = [] \<or> (\<not> P (hd s) \<and> \<not> P (last s)) \<Longrightarrow> trim_both P s = s"
  unfolding trim_both_def trim_left_def by (cases s) (auto simp: trim_right_id)

lemma trim_right_prefix: "\<exists>t. s = trim_right P s @ t \<and> (\<forall>c\<in>set t. P c)"
proof -
  have "rev s = takeWhile P (rev s) @ dropWhile P (rev s)" by simp
  then have "s = rev (dropWhile P (rev s)) @ rev (takeWhile P (rev s))"
    by (metis rev_append rev_rev_ident)
  moreover have "\<forall>c\<in>set (rev (takeWhile P (rev s))). P c" by (auto dest: set_takeWhileD)
  ultimately show ?thesis unfolding trim_right_def by blast
qed

lemma trim_both_edges:
  assumes "trim_both P s \<noteq> []"
  shows "\<not> P (hd (trim_both P s))" and "\<not> P (last (trim_both P s))"
proof -
  let ?t = "dropWhile P s"
  have ne: "trim_right P ?t \<noteq> []" using assms by (simp add: trim_both_def trim_left_def)
  obtain u where u: "?t = trim_right P ?t @ u" using trim_right_prefix by blast
  with ne have "hd (trim_right P ?t) = hd ?t" by (metis hd_append2)
  moreover have "?t \<noteq> []" using ne unfolding trim_right_def by (metis dropWhile.simps(1) rev.simps(1))
  ultimately show "\<not> P (hd (trim_both P s))"
    by (simp add: trim_both_def trim_left_def hd_dropWhile)
  show "\<not> P (last (trim_both P s))"
    using ne by (simp add: trim_both_def trim_left_def trim_right_last)
qed

text \<open>\<open>strings.Fields\<close>: maximal runs of non-space characters.\<close>

fun fields_acc :: "string \<Rightarrow> string \<Rightarrow> string list" where
  "fields_acc [] cur = (if cur = [] then [] else [rev cur])"
| "fields_acc (c # s) cur =
     (if is_space c then (if cur = [] then fields_acc s [] else rev cur # fields_acc s [])
      else fields_acc s (c # cur))"

definition str_fields :: "string \<Rightarrow> string list" where
  "str_fields s = fields_acc s []"

lemma fields_acc_word: "\<forall>c\<in>set w. \<not> is_space c \<Longrightarrow> fields_acc (w @ s) cur = fields_acc s (rev w @ cur)"
  by (induction w arbitrary: cur) auto

section \<open>Decimal numbers\<close>

definition digit_char :: "nat \<Rightarrow> char" where
  "digit_char d = char_of (48 + d)"
definition digit_val :: "char \<Rightarrow> nat" where
  "digit_val c = code_of c - 48"

fun itoa_nat :: "nat \<Rightarrow> string" where
  "itoa_nat n = (if n < 10 then [digit_char n] else itoa_nat (n div 10) @ [digit_char (n mod 10)])"

declare itoa_nat.simps [simp del]

text \<open>\<open>strconv.Itoa\<close> / \<open>strconv.FormatInt(_, 10)\<close>.\<close>

definition itoa :: "int \<Rightarrow> string" where
  "itoa i = (if i < 0 then CHR ''-'' # itoa_nat (nat (- i)) else itoa_nat (nat i))"

definition digits_val :: "string \<Rightarrow> nat" where
  "digits_val s = foldl (\<lambda>acc c. 10 * acc + digit_val c) 0 s"

definition max_int64 :: int where "max_int64 = 9223372036854775807"
definition min_int64 :: int where "min_int64 = - 9223372036854775808"

text \<open>
  \<open>strconv.ParseInt(s, 10, 64)\<close>, which is also \<open>strconv.Atoi\<close> on a 64-bit platform: an
  optional sign and at least one digit, and an error outside the range of \<open>int64\<close>.
\<close>

definition parse_digits :: "string \<Rightarrow> nat option" where
  "parse_digits s = (if s \<noteq> [] \<and> list_all is_digit s then Some (digits_val s) else None)"

definition in_int64 :: "int \<Rightarrow> bool" where
  "in_int64 i = (min_int64 \<le> i \<and> i \<le> max_int64)"

definition parse_int :: "string \<Rightarrow> int option" where
  "parse_int s =
     (let (neg, ds) = (case s of
          [] \<Rightarrow> (False, [])
        | c # r \<Rightarrow> if c = CHR ''-'' then (True, r) else if c = CHR ''+'' then (False, r) else (False, s))
      in case parse_digits ds of
           None \<Rightarrow> None
         | Some n \<Rightarrow> (let v = (if neg then - int n else int n)
                     in if in_int64 v then Some v else None))"

lemma code_digit_char [simp]: "d < 10 \<Longrightarrow> code_of (digit_char d) = 48 + d"
  by (simp add: digit_char_def)

lemma is_digit_digit_char [simp]: "d < 10 \<Longrightarrow> is_digit (digit_char d)"
  by (simp add: is_digit_def)

lemma digit_val_digit_char [simp]: "d < 10 \<Longrightarrow> digit_val (digit_char d) = d"
  by (simp add: digit_val_def)

lemma itoa_nat_digits: "list_all is_digit (itoa_nat n)"
proof (induction n rule: itoa_nat.induct)
  case (1 n)
  then show ?case by (subst itoa_nat.simps) auto
qed

lemma itoa_nat_ne [simp]: "itoa_nat n \<noteq> []"
  by (subst itoa_nat.simps) simp

lemma digits_val_snoc: "digits_val (s @ [c]) = 10 * digits_val s + digit_val c"
  by (simp add: digits_val_def)

lemma digits_val_itoa [simp]: "digits_val (itoa_nat n) = n"
proof (induction n rule: itoa_nat.induct)
  case (1 n)
  show ?case
  proof (cases "n < 10")
    case True
    then show ?thesis by (subst itoa_nat.simps) (simp add: digits_val_def)
  next
    case False
    with 1 show ?thesis by (subst itoa_nat.simps) (simp add: digits_val_snoc)
  qed
qed

lemma parse_digits_itoa [simp]: "parse_digits (itoa_nat n) = Some n"
  by (simp add: parse_digits_def itoa_nat_digits)

lemma itoa_nat_hd_digit: "is_digit (hd (itoa_nat n))"
  using itoa_nat_digits [of n] by (cases "itoa_nat n") (auto)

lemma parse_int_itoa: "in_int64 i \<Longrightarrow> parse_int (itoa i) = Some i"
proof (cases "i < 0")
  case True
  assume "in_int64 i"
  with True show ?thesis by (simp add: parse_int_def itoa_def)
next
  case False
  assume r: "in_int64 i"
  obtain c t where ct: "itoa_nat (nat i) = c # t"
    by (metis itoa_nat_ne list.exhaust)
  have "is_digit c" using itoa_nat_hd_digit [of "nat i"] ct by simp
  then have "c \<noteq> CHR ''-''" "c \<noteq> CHR ''+''" by (auto simp: is_digit_def)
  with False r ct show ?thesis
    using parse_digits_itoa [of "nat i"] by (simp add: parse_int_def itoa_def)
qed

lemma itoa_nat_inj: "itoa_nat m = itoa_nat n \<Longrightarrow> m = n"
  by (metis digits_val_itoa)

lemma itoa_nat_no: "\<not> is_digit c \<Longrightarrow> c \<notin> set (itoa_nat n)"
  using itoa_nat_digits [of n] by (auto simp: list_all_iff)

lemma itoa_no: "\<not> is_digit c \<Longrightarrow> c \<noteq> CHR ''-'' \<Longrightarrow> c \<notin> set (itoa n)"
  by (simp add: itoa_def itoa_nat_no)

end
