(* ===== verification/RouteTable.thy ===== *)
theory RouteTable
  imports Relay
begin

text \<open>
  The contract of the routing table as its callers use it (the relay server, and other servers
  that host tunnels), stated over an abstract map from host and path prefix to the entry that
  owns the route; the client facts are proved from the contract alone. Then the proof that
  the registry of \<open>relay.go\<close> provides it.
\<close>

section \<open>The interface\<close>

text \<open>A prefix serves a path when it is the host root or matches on a path boundary.\<close>

definition serves :: "string \<Rightarrow> string \<Rightarrow> bool" where
  "serves p path = (p = [] \<or> path_matches path p)"

locale route_table =
  fixes routes :: "'r \<Rightarrow> string \<times> string \<Rightarrow> 'e option"
    and valid :: "'r \<Rightarrow> bool"
    and same :: "'e \<Rightarrow> 'e \<Rightarrow> bool"
    and host_of :: "'t \<Rightarrow> string"
    and chk :: "'r \<Rightarrow> string \<Rightarrow> string \<Rightarrow> ('err, unit) res"
    and add :: "'r \<Rightarrow> 't \<Rightarrow> string \<Rightarrow> 'r \<times> ('err, 'e) res"
    and remove :: "'r \<Rightarrow> string \<Rightarrow> string \<Rightarrow> 'e \<Rightarrow> 'r"
    and lookup :: "'r \<Rightarrow> string \<Rightarrow> string \<Rightarrow> 'e option"
  assumes chk_free: "valid r \<Longrightarrow> is_ok (chk r h p) \<longleftrightarrow> routes r (h, p) = None"
    and add_free: "valid r \<Longrightarrow> routes r (host_of t, p) = None \<Longrightarrow>
          \<exists>e r'. add r t p = (r', Ok e) \<and> routes r' = (routes r)((host_of t, p) \<mapsto> e)"
    and add_taken: "valid r \<Longrightarrow> routes r (host_of t, p) \<noteq> None \<Longrightarrow>
          \<exists>err r'. add r t p = (r', Err err) \<and> routes r' = routes r"
    and add_valid: "valid r \<Longrightarrow> valid (fst (add r t p))"
    and add_fresh: "valid r \<Longrightarrow> add r t p = (r', Ok e) \<Longrightarrow> routes r (h, q) = Some e' \<Longrightarrow> \<not> same e' e"
    and remove_present: "valid r \<Longrightarrow> routes r (h, p) = Some e \<Longrightarrow>
          routes (remove r h p e) = (routes r)((h, p) := None)"
    and remove_stale: "valid r \<Longrightarrow> (\<And>q e'. routes r (h, q) = Some e' \<Longrightarrow> \<not> same e' e) \<Longrightarrow>
          routes (remove r h p e) = routes r"
    and remove_valid: "valid r \<Longrightarrow> valid (remove r h p e)"
    and lookup_longest: "valid r \<Longrightarrow> lookup r h path = Some e \<longleftrightarrow>
          (\<exists>p. serves p path \<and> routes r (h, p) = Some e \<and>
               (\<forall>q. serves q path \<longrightarrow> routes r (h, q) \<noteq> None \<longrightarrow> length q \<le> length p))"
begin

lemma chk_then_add:
  assumes "valid r" "is_ok (chk r (host_of t) p)"
  shows "\<exists>e. snd (add r t p) = Ok e"
proof -
  have "routes r (host_of t, p) = None" using assms by (simp add: chk_free)
  then show ?thesis using add_free [OF assms(1), of t p] by auto
qed

lemma add_iff_chk: "valid r \<Longrightarrow> is_ok (snd (add r t p)) \<longleftrightarrow> is_ok (chk r (host_of t) p)"
  using add_free [of r t p] add_taken [of r t p] chk_free [of r "host_of t" p]
  by (cases "routes r (host_of t, p)") auto

lemma add_Ok_routes:
  assumes "valid r" "add r t p = (r', Ok e)"
  shows "routes r (host_of t, p) = None" "routes r' = (routes r)((host_of t, p) \<mapsto> e)"
  using add_free [OF assms(1), of t p] add_taken [OF assms(1), of t p] assms(2)
  by (cases "routes r (host_of t, p)"; auto)+

lemma add_remove_restores:
  assumes "valid r" "add r t p = (r', Ok e)"
  shows "routes (remove r' (host_of t) p e) = routes r"
proof -
  note a = add_Ok_routes [OF assms]
  have "valid r'" using add_valid [OF assms(1), of t p] assms(2) by simp
  then have "routes (remove r' (host_of t) p e) = (routes r')((host_of t, p) := None)"
    by (rule remove_present) (simp add: a)
  with a show ?thesis by (simp add: fun_upd_idem)
qed

lemma lookup_cong:
  assumes "valid r" "valid r'" "\<And>p. routes r (h, p) = routes r' (h, p)"
  shows "lookup r h path = lookup r' h path"
proof -
  have "lookup r h path = Some e \<longleftrightarrow> lookup r' h path = Some e" for e
    by (simp add: lookup_longest [OF assms(1)] lookup_longest [OF assms(2)] assms(3))
  then show ?thesis by (metis not_None_eq)
qed

lemma add_other_host:
  assumes "valid r" "add r t p = (r', res)" "h \<noteq> host_of t"
  shows "lookup r' h path = lookup r h path"
proof (rule lookup_cong [symmetric])
  show "valid r'" using add_valid [OF assms(1), of t p] assms(2) by simp
  show "routes r (h, q) = routes r' (h, q)" for q
    using add_free [OF assms(1), of t p] add_taken [OF assms(1), of t p] assms(2,3)
    by (cases "routes r (host_of t, p)") auto
qed (fact assms(1))

lemma add_lookup_exact:
  assumes "valid r" "add r t p = (r', Ok e)" "p \<noteq> []"
  shows "lookup r' (host_of t) p = Some e"
proof -
  have v: "valid r'" using add_valid [OF assms(1), of t p] assms(2) by simp
  have "length q \<le> length p" if "serves q p" for q
    using that by (auto simp: serves_def path_matches_def dest: has_prefix_length)
  moreover have "serves p p" by (simp add: serves_def path_matches_def)
  ultimately show ?thesis
    using add_Ok_routes(2) [OF assms(1,2)] by (auto simp: lookup_longest [OF v] intro!: exI [of _ p])
qed

lemma taken_keeps_owner:
  assumes "valid r" "routes r (host_of t, p) \<noteq> None"
  shows "lookup (fst (add r t p)) h path = lookup r h path" and "\<not> is_ok (snd (add r t p))"
proof -
  obtain err r' where a: "add r t p = (r', Err err)" "routes r' = routes r"
    using add_taken [OF assms] by blast
  have "valid r'" using add_valid [OF assms(1), of t p] a by simp
  then show "lookup (fst (add r t p)) h path = lookup r h path"
    using a by (auto intro: lookup_cong assms(1))
  show "\<not> is_ok (snd (add r t p))" using a by simp
qed

text \<open>
  A late second \<open>remove\<close> of an entry that is already gone leaves a tunnel alone that has since
  taken the same route.
\<close>

lemma stale_remove_harmless:
  assumes "valid r" "add r t p = (r', Ok e')" "routes r (host_of t, p) = None"
    and gone: "\<And>q d. routes r (host_of t, q) = Some d \<Longrightarrow> \<not> same d e" and "\<not> same e' e"
  shows "routes (remove r' (host_of t) p e) = routes r'"
proof (rule remove_stale)
  show "valid r'" using add_valid [OF assms(1), of t p] assms(2) by simp
  show "\<not> same d e" if "routes r' (host_of t, q) = Some d" for q d
    using that add_Ok_routes(2) [OF assms(1,2)] gone assms(5) by (auto split: if_splits)
qed

end

section \<open>Matching prefixes\<close>

definition longer :: "prefix_entry \<Rightarrow> prefix_entry \<Rightarrow> bool" where
  "longer a b = (length (pe_prefix b) \<le> length (pe_prefix a))"

lemma path_matches_take: "path_matches path p \<Longrightarrow> take (length p) path = p"
  by (auto simp: path_matches_def has_prefix_iff)

lemma path_matches_unique:
  "path_matches path p \<Longrightarrow> path_matches path q \<Longrightarrow> length p = length q \<Longrightarrow> p = q"
  by (metis path_matches_take)

lemma match_prefixed_Some:
  assumes "sorted_wrt longer ps" "distinct (map pe_prefix ps)"
  shows "match_prefixed ps path = Some e \<longleftrightarrow>
     (\<exists>p\<in>set ps. pe_entry p = e \<and> path_matches path (pe_prefix p) \<and>
        (\<forall>q\<in>set ps. path_matches path (pe_prefix q) \<longrightarrow> length (pe_prefix q) \<le> length (pe_prefix p)))"
  using assms
proof (induction ps)
  case Nil
  then show ?case by (simp add: match_prefixed_def)
next
  case (Cons a ps)
  show ?case
  proof (cases "path_matches path (pe_prefix a)")
    case True
    have lt: "\<forall>q\<in>set ps. length (pe_prefix q) \<le> length (pe_prefix a)"
      using Cons.prems(1) by (simp add: longer_def)
    have uniq: "p = a" if p: "p \<in> set (a # ps)" "path_matches path (pe_prefix p)"
      "length (pe_prefix a) \<le> length (pe_prefix p)" for p
    proof (rule ccontr)
      assume "p \<noteq> a"
      with p(1) have "p \<in> set ps" by simp
      with lt p(3) have "length (pe_prefix p) = length (pe_prefix a)" by (simp add: le_antisym)
      then have "pe_prefix p = pe_prefix a" using path_matches_unique p(2) True by blast
      with \<open>p \<in> set ps\<close> Cons.prems(2) show False by (metis distinct.simps(2) image_eqI list.set_map list.simps(9))
    qed
    have m: "match_prefixed (a # ps) path = Some (pe_entry a)" using True by (simp add: match_prefixed_def)
    show ?thesis (is "_ \<longleftrightarrow> ?R")
    proof
      assume "match_prefixed (a # ps) path = Some e"
      then show ?R using m True lt by (intro bexI [of _ a]) auto
    next
      assume ?R
      then obtain p where p: "p \<in> set (a # ps)" "pe_entry p = e" "path_matches path (pe_prefix p)"
        and "\<forall>q\<in>set (a # ps). path_matches path (pe_prefix q) \<longrightarrow> length (pe_prefix q) \<le> length (pe_prefix p)"
        by blast
      then have "length (pe_prefix a) \<le> length (pe_prefix p)" using True by simp
      with uniq p m show "match_prefixed (a # ps) path = Some e" by blast
    qed
  next
    case False
    then have "match_prefixed (a # ps) path = match_prefixed ps path" by (simp add: match_prefixed_def)
    with Cons False show ?thesis by auto
  qed
qed

lemma match_prefixed_None:
  "match_prefixed ps path = None \<longleftrightarrow> (\<forall>p\<in>set ps. \<not> path_matches path (pe_prefix p))"
  by (auto simp: match_prefixed_def find_None_iff)

lemma sorted_sort_prefixed: "sorted_wrt longer (sort_prefixed ps)"
proof -
  have "sorted (map (\<lambda>p. - int (length (pe_prefix p))) (sort_prefixed ps))"
    by (simp add: sort_prefixed_def)
  then show ?thesis by (simp add: sorted_map longer_def [abs_def])
qed

lemma set_sort_prefixed [simp]: "set (sort_prefixed ps) = set ps"
  by (simp add: sort_prefixed_def)

lemma distinct_map_sort_prefixed:
  "distinct (map f (sort_prefixed ps)) \<longleftrightarrow> distinct (map f ps)"
proof -
  have "length (sort_prefixed ps) = length ps" by (simp add: sort_prefixed_def)
  then have "card (f ` set (sort_prefixed ps)) = length (map f (sort_prefixed ps)) \<longleftrightarrow>
        card (f ` set ps) = length (map f ps)" by simp
  then show ?thesis
    by (metis card_distinct distinct_card list.set_map)
qed

section \<open>Well-formed registries\<close>

definition table_entries :: "host_table \<Rightarrow> entry list" where
  "table_entries t = (case root t of None \<Rightarrow> [] | Some e \<Rightarrow> [e]) @ map pe_entry (prefixed t)"

definition wf_table :: "nat \<Rightarrow> string \<Rightarrow> host_table \<Rightarrow> bool" where
  "wf_table n h t \<longleftrightarrow>
     table_entries t \<noteq> [] \<and> (\<forall>e\<in>set (table_entries t). e_host e = h \<and> e_ptr e < n) \<and>
     distinct (map e_ptr (table_entries t)) \<and>
     distinct (map pe_prefix (prefixed t)) \<and> (\<forall>p\<in>set (prefixed t). pe_prefix p \<noteq> []) \<and>
     sorted_wrt longer (prefixed t)"

definition wf_registry :: "registry \<Rightarrow> bool" where
  "wf_registry r \<longleftrightarrow> wf_gomap (table r) \<and> (\<forall>(h, t)\<in>set (table r). wf_table (next_ptr r) h t) \<and>
     (\<forall>p\<in>set (closed_ready r). p < next_ptr r)"

lemma wf_registry_get: "wf_registry r \<Longrightarrow> map_of (table r) h = Some t \<Longrightarrow> wf_table (next_ptr r) h t"
  by (auto simp: wf_registry_def dest: map_of_SomeD)

lemma wf_registryI:
  assumes "wf_gomap (table r)" "\<And>h t. map_of (table r) h = Some t \<Longrightarrow> wf_table (next_ptr r) h t"
    "\<And>p. p \<in> set (closed_ready r) \<Longrightarrow> p < next_ptr r"
  shows "wf_registry r"
  using assms by (auto simp: wf_registry_def gomap_mem)

lemma wf_table_mono: "wf_table n h t \<Longrightarrow> n \<le> m \<Longrightarrow> wf_table m h t"
  by (fastforce simp: wf_table_def)

text \<open>The abstraction: which entry owns which host and prefix.\<close>

definition table_route :: "host_table \<Rightarrow> string \<Rightarrow> entry option" where
  "table_route t p = (if p = [] then root t
     else map_option pe_entry (find (\<lambda>q. pe_prefix q = p) (prefixed t)))"

definition routes :: "registry \<Rightarrow> string \<times> string \<Rightarrow> entry option" where
  "routes r hp = (case map_of (table r) (fst hp) of None \<Rightarrow> None | Some t \<Rightarrow> table_route t (snd hp))"

lemma find_prefix_Some:
  "distinct (map pe_prefix ps) \<Longrightarrow>
     map_option pe_entry (find (\<lambda>q. pe_prefix q = p) ps) = Some e \<longleftrightarrow>
     (\<exists>q\<in>set ps. pe_prefix q = p \<and> pe_entry q = e)"
  by (induction ps) (auto simp: image_iff)

lemma table_route_Some:
  "wf_table n h t \<Longrightarrow> table_route t p = Some e \<longleftrightarrow>
     (if p = [] then root t = Some e else \<exists>q\<in>set (prefixed t). pe_prefix q = p \<and> pe_entry q = e)"
  using find_prefix_Some [of "prefixed t" p e] by (auto simp: table_route_def wf_table_def)

lemma table_route_entry: "wf_table n h t \<Longrightarrow> table_route t p = Some e \<Longrightarrow> e \<in> set (table_entries t)"
  by (auto simp: table_route_Some table_entries_def split: if_splits option.splits)

end
