(* ===== verification/RelayCorrect.thy ===== *)
theory RelayCorrect
  imports RouteTable
begin

text \<open>
  The registry of \<open>relay.go\<close> keeps its well-formedness under every operation and refines the
  map from host and prefix to entry: the laws of \<open>route_table\<close>, discharged for the code's
  own operations.
\<close>

section \<open>Storing and dropping a host table\<close>

definition put_table :: "registry \<Rightarrow> string \<Rightarrow> host_table \<Rightarrow> registry" where
  "put_table r h t = r\<lparr>table := gput h t (table r)\<rparr>"

lemma put_table_sel [simp]:
  "next_ptr (put_table r h t) = next_ptr r" "closed_ready (put_table r h t) = closed_ready r"
  "map_of (table (put_table r h t)) = (map_of (table r))(h \<mapsto> t)"
  by (simp_all add: put_table_def)

lemma wf_put_table [wf_step]: "wf_registry r \<Longrightarrow> wf_table (next_ptr r) h t \<Longrightarrow> wf_registry (put_table r h t)"
  by (rule wf_registryI) (auto simp: put_table_def wf_registry_def gomap_mem split: if_splits)

lemma wf_bump:
  assumes "wf_registry r" "next_ptr r \<le> n" "\<And>p. p \<in> set cr \<Longrightarrow> p < n"
  shows "wf_registry (r\<lparr>closed_ready := cr, next_ptr := n\<rparr>)"
proof (rule wf_registryI)
  show "wf_gomap (table (r\<lparr>closed_ready := cr, next_ptr := n\<rparr>))"
    using assms(1) by (simp add: wf_registry_def)
  fix h t
  assume "map_of (table (r\<lparr>closed_ready := cr, next_ptr := n\<rparr>)) h = Some t"
  then show "wf_table (next_ptr (r\<lparr>closed_ready := cr, next_ptr := n\<rparr>)) h t"
    using wf_registry_get [OF assms(1)] assms(2) by (auto intro: wf_table_mono)
qed (use assms(3) in simp)

lemma wf_del_table [wf_step]: "wf_registry r \<Longrightarrow> wf_registry (r\<lparr>table := gdel h (table r)\<rparr>)"
  by (rule wf_registryI) (auto simp: wf_registry_def gomap_mem split: if_splits)

lemma routes_put_table:
  "routes (put_table r h t) (h', p) = (if h' = h then table_route t p else routes r (h', p))"
  by (simp add: routes_def)

lemma routes_cong_table: "map_of (table r) = map_of (table r') \<Longrightarrow> routes r = routes r'"
  by (simp add: routes_def fun_eq_iff)

section \<open>Register\<close>

definition host_or_empty :: "registry \<Rightarrow> string \<Rightarrow> host_table" where
  "host_or_empty r h = (case map_of (table r) h of Some t \<Rightarrow> t | None \<Rightarrow> empty_table)"

definition bumped :: "registry \<Rightarrow> entry_template \<Rightarrow> registry" where
  "bumped r tmpl = r\<lparr>closed_ready := (if t_pending tmpl then closed_ready r else next_ptr r # closed_ready r),
                     next_ptr := Suc (next_ptr r)\<rparr>"

definition with_prefix :: "host_table \<Rightarrow> string \<Rightarrow> entry \<Rightarrow> host_table" where
  "with_prefix t p e = t\<lparr>prefixed := sort_prefixed (prefixed t @ [\<lparr>pe_prefix = p, pe_entry = e\<rparr>])\<rparr>"

lemma bumped_sel [simp]:
  "next_ptr (bumped r tmpl) = Suc (next_ptr r)" "table (bumped r tmpl) = table r"
  by (simp_all add: bumped_def)

lemma wf_bumped: "wf_registry r \<Longrightarrow> wf_registry (bumped r tmpl)"
  unfolding bumped_def by (rule wf_bump) (auto simp: wf_registry_def less_SucI split: if_splits)

lemma new_entry_sel [simp]:
  "e_ptr (new_entry n tmpl s m w) = n" "e_host (new_entry n tmpl s m w) = t_host tmpl"
  by (simp_all add: new_entry_def)

lemma registry_updates_commute:
  "(r::registry)\<lparr>table := a, closed_ready := b, next_ptr := c\<rparr> = r\<lparr>closed_ready := b, next_ptr := c, table := a\<rparr>"
  by (cases r) simp

lemma register_unfold:
  "register r tmpl p sess remote now =
     (let h = t_host tmpl; t = host_or_empty r h; e = new_entry (next_ptr r) tmpl sess remote now;
          b = bumped r tmpl
      in if p = [] then
           (if root t \<noteq> None then (put_table b h t, Err ServiceInUse)
            else (put_table b h (t\<lparr>root := Some e\<rparr>), Ok e))
         else if list_ex (\<lambda>q. pe_prefix q = p) (prefixed t) then (put_table b h t, Err PathInUse)
         else (put_table b h (with_prefix t p e), Ok e))"
  unfolding register_def host_or_empty_def [symmetric]
  by (simp add: Let_def bumped_def put_table_def with_prefix_def registry_updates_commute
      split del: if_split cong: if_cong)

lemma wf_host_or_empty:
  assumes "wf_registry r"
  shows "table_entries (host_or_empty r h) \<noteq> [] \<Longrightarrow> wf_table (next_ptr r) h (host_or_empty r h)"
    and "table_entries (host_or_empty r h) = [] \<Longrightarrow> host_or_empty r h = empty_table"
proof -
  show "wf_table (next_ptr r) h (host_or_empty r h)" if "table_entries (host_or_empty r h) \<noteq> []"
    using that wf_registry_get [OF assms, of h]
    by (cases "map_of (table r) h") (auto simp: host_or_empty_def empty_table_def table_entries_def)
  show "host_or_empty r h = empty_table" if "table_entries (host_or_empty r h) = []"
    using that wf_registry_get [OF assms, of h]
    by (cases "map_of (table r) h") (auto simp: host_or_empty_def wf_table_def)
qed

lemma table_entries_empty [simp]: "table_entries empty_table = []"
  by (simp add: table_entries_def empty_table_def)

lemma set_table_entries_with_prefix:
  "set (table_entries (with_prefix t p e)) = insert e (set (table_entries t))"
  by (auto simp: table_entries_def with_prefix_def split: option.splits)

definition table_or_empty :: "nat \<Rightarrow> string \<Rightarrow> host_table \<Rightarrow> bool" where
  "table_or_empty n h t \<longleftrightarrow> t = empty_table \<or> wf_table n h t"

lemma host_or_empty_ok: "wf_registry r \<Longrightarrow> table_or_empty (next_ptr r) h (host_or_empty r h)"
  using wf_host_or_empty [of r h] by (auto simp: table_or_empty_def)

lemma wf_table_add_root:
  assumes "table_or_empty n h t" "root t = None" "e_host e = h" "e_ptr e = n"
  shows "wf_table (Suc n) h (t\<lparr>root := Some e\<rparr>)"
  using assms by (auto simp: table_or_empty_def wf_table_def table_entries_def empty_table_def less_Suc_eq image_iff)

lemma wf_table_add_prefix:
  assumes "table_or_empty n h t" "p \<noteq> []" "p \<notin> pe_prefix ` set (prefixed t)" "e_host e = h" "e_ptr e = n"
  shows "wf_table (Suc n) h (with_prefix t p e)"
proof -
  let ?ps = "prefixed t @ [\<lparr>pe_prefix = p, pe_entry = e\<rparr>]"
  have old: "\<forall>d\<in>set (table_entries t). e_host d = h \<and> e_ptr d < n" "distinct (map e_ptr (table_entries t))"
    "distinct (map pe_prefix (prefixed t))" "\<forall>q\<in>set (prefixed t). pe_prefix q \<noteq> []"
    using assms(1) by (auto simp: table_or_empty_def wf_table_def empty_table_def table_entries_def)
  have ptrs: "map e_ptr (table_entries (with_prefix t p e)) =
      (case root t of None \<Rightarrow> [] | Some d \<Rightarrow> [e_ptr d]) @ map (e_ptr \<circ> pe_entry) (sort_prefixed ?ps)"
    by (simp add: table_entries_def with_prefix_def split: option.splits)
  have "distinct (map (e_ptr \<circ> pe_entry) (sort_prefixed ?ps))"
    unfolding distinct_map_sort_prefixed
    using old(1,2) assms(5) by (auto simp: table_entries_def image_iff o_def split: option.splits)
  then have d: "distinct (map e_ptr (table_entries (with_prefix t p e)))"
    unfolding ptrs using old(1,2) assms(5)
    by (auto simp: table_entries_def image_iff split: option.splits)
  have "distinct (map pe_prefix (sort_prefixed ?ps))"
    unfolding distinct_map_sort_prefixed using old(3) assms(3) by auto
  moreover have "table_entries (with_prefix t p e) \<noteq> []"
    using set_table_entries_with_prefix [of t p e] by auto
  ultimately show ?thesis
    using d old(1,4) assms(2,4,5) sorted_sort_prefixed [of ?ps]
    by (auto simp: wf_table_def set_table_entries_with_prefix less_SucI) (auto simp: with_prefix_def)
qed

lemma register_wf [wf_step]: "wf_registry r \<Longrightarrow> wf_registry (fst (register r tmpl p sess remote now))"
proof -
  assume w: "wf_registry r"
  let ?h = "t_host tmpl" let ?t = "host_or_empty r ?h"
  have te: "table_or_empty (next_ptr r) ?h ?t" using w by (rule host_or_empty_ok)
  have same: "wf_table (Suc (next_ptr r)) ?h ?t" if "root ?t \<noteq> None \<or> q \<in> set (prefixed ?t)" for q
  proof -
    have "table_entries ?t \<noteq> []" using that by (auto simp: table_entries_def)
    then show ?thesis by (rule wf_table_mono [OF wf_host_or_empty(1) [OF w]]) simp
  qed
  show ?thesis
    unfolding register_unfold Let_def
    using wf_bumped [OF w, of tmpl] te same
    by (auto intro!: wf_put_table wf_table_add_root wf_table_add_prefix simp: list_ex_iff)
qed

text \<open>What a registration does to the routes.\<close>

lemma table_route_add_root: "table_route (t\<lparr>root := Some e\<rparr>) = (table_route t)([] \<mapsto> e)"
  by (auto simp: table_route_def fun_eq_iff)

lemma table_or_empty_distinct: "table_or_empty n h t \<Longrightarrow> distinct (map pe_prefix (prefixed t))"
  by (auto simp: table_or_empty_def wf_table_def empty_table_def)

lemma table_route_prefix_Some:
  "distinct (map pe_prefix (prefixed t)) \<Longrightarrow> p \<noteq> [] \<Longrightarrow>
     table_route t p = Some e \<longleftrightarrow> (\<exists>q\<in>set (prefixed t). pe_prefix q = p \<and> pe_entry q = e)"
  using find_prefix_Some [of "prefixed t" p e] by (simp add: table_route_def)

lemma option_eqI: "(\<And>x. a = Some x \<longleftrightarrow> b = Some x) \<Longrightarrow> a = b"
  by (cases a; cases b) auto

lemma table_route_add_prefix:
  assumes "distinct (map pe_prefix (prefixed t))" "p \<noteq> []" "p \<notin> pe_prefix ` set (prefixed t)"
  shows "table_route (with_prefix t p e) = (table_route t)(p \<mapsto> e)"
proof
  fix q
  let ?t = "with_prefix t p e"
  have d: "distinct (map pe_prefix (prefixed ?t))"
    using assms by (auto simp: with_prefix_def distinct_map_sort_prefixed)
  show "table_route ?t q = ((table_route t)(p \<mapsto> e)) q"
  proof (cases "q = []")
    case True
    then show ?thesis using assms(2) by (simp add: table_route_def with_prefix_def)
  next
    case False
    have "table_route ?t q = Some x \<longleftrightarrow> ((table_route t)(p \<mapsto> e)) q = Some x" for x
      using assms False table_route_prefix_Some [OF d False, of x] table_route_prefix_Some [OF assms(1) False, of x]
      by (auto simp: with_prefix_def)
    then show ?thesis by (rule option_eqI)
  qed
qed

lemma routes_host_or_empty: "routes r (h, p) = table_route (host_or_empty r h) p"
  by (simp add: routes_def host_or_empty_def table_route_def empty_table_def split: option.splits)

lemma prefix_taken:
  assumes "p \<noteq> []"
  shows "table_route t p = None \<longleftrightarrow> p \<notin> pe_prefix ` set (prefixed t)"
  using assms by (auto simp: table_route_def find_None_iff)

lemma routes_bumped [simp]: "routes (bumped r tmpl) = routes r"
  by (simp add: routes_def fun_eq_iff)

lemma put_same_routes: "routes (put_table (bumped r tmpl) h (host_or_empty r h)) = routes r"
proof
  fix hp :: "string \<times> string"
  show "routes (put_table (bumped r tmpl) h (host_or_empty r h)) hp = routes r hp"
    by (cases hp) (auto simp: routes_put_table routes_host_or_empty [symmetric])
qed

lemma put_upd_routes:
  assumes "table_route t' = (table_route (host_or_empty r h))(p \<mapsto> e)"
  shows "routes (put_table (bumped r tmpl) h t') = (routes r)((h, p) \<mapsto> e)"
proof
  fix hp :: "string \<times> string"
  show "routes (put_table (bumped r tmpl) h t') hp = ((routes r)((h, p) \<mapsto> e)) hp"
    using assms
    by (cases hp) (auto simp: routes_put_table routes_host_or_empty [symmetric])
qed

section \<open>Unregister\<close>

definition without :: "host_table \<Rightarrow> string \<Rightarrow> entry \<Rightarrow> host_table" where
  "without t p e = (if p = [] then
       (case root t of Some d \<Rightarrow> if same_entry d e then t\<lparr>root := None\<rparr> else t | None \<Rightarrow> t)
     else t\<lparr>prefixed := filter (\<lambda>q. \<not> same_entry (pe_entry q) e) (prefixed t)\<rparr>)"

lemma unregister_unfold:
  "unregister r h p e =
     (case map_of (table r) h of None \<Rightarrow> r
      | Some t \<Rightarrow> if table_entries (without t p e) = [] then r\<lparr>table := gdel h (table r)\<rparr>
                  else put_table r h (without t p e))"
  unfolding unregister_def without_def [symmetric] put_table_def
  by (simp add: Let_def table_entries_def split: option.split)

lemma set_entries_without: "set (table_entries (without t p e)) \<subseteq> set (table_entries t)"
  by (auto simp: table_entries_def without_def split: option.splits if_splits)

lemma distinct_entries_without:
  "distinct (map e_ptr (table_entries t)) \<Longrightarrow> distinct (map e_ptr (table_entries (without t p e)))"
  by (auto simp: table_entries_def without_def distinct_map_filter inj_on_def image_iff distinct_map
      split: option.splits if_splits)

lemma prefixed_without: "\<exists>P. prefixed (without t p e) = filter P (prefixed t)"
proof (cases "p = []")
  case True
  then have "prefixed (without t p e) = filter (\<lambda>_. True) (prefixed t)"
    by (simp add: without_def split: option.splits)
  then show ?thesis by blast
next
  case False
  then show ?thesis by (auto simp: without_def)
qed

lemma wf_table_without:
  assumes "wf_table n h t" "table_entries (without t p e) \<noteq> []"
  shows "wf_table n h (without t p e)"
proof -
  obtain P where "prefixed (without t p e) = filter P (prefixed t)" using prefixed_without by blast
  then show ?thesis
    using assms set_entries_without [of t p e] distinct_entries_without [of t p e]
    by (auto simp: wf_table_def distinct_map_filter sorted_wrt_filter)
qed

lemma unregister_wf [wf_step]: "wf_registry r \<Longrightarrow> wf_registry (unregister r h p e)"
  unfolding unregister_unfold
  by (auto split: option.split intro: wf_put_table wf_del_table wf_table_without dest: wf_registry_get)

lemma table_route_no_entries: "table_entries t = [] \<Longrightarrow> table_route t q = None"
  by (auto simp: table_entries_def table_route_def split: option.splits)

lemma routes_unregister:
  "routes (unregister r h p e) (h', q) =
     (if h' = h then (case map_of (table r) h of None \<Rightarrow> None | Some t \<Rightarrow> table_route (without t p e) q)
      else routes r (h', q))"
proof (cases "map_of (table r) h")
  case None
  then show ?thesis by (auto simp: unregister_unfold routes_def)
next
  case (Some t)
  then show ?thesis
    by (auto simp: unregister_unfold routes_put_table table_route_no_entries) (auto simp: routes_def table_route_no_entries)
qed

lemma table_route_without_stale:
  assumes "wf_table n h t" "\<And>q d. table_route t q = Some d \<Longrightarrow> \<not> same_entry d e"
  shows "without t p e = t"
proof -
  have "\<not> same_entry d e" if "root t = Some d" for d
    using assms(2) [of "[]" d] that by (simp add: table_route_def)
  moreover have "filter (\<lambda>q. \<not> same_entry (pe_entry q) e) (prefixed t) = prefixed t"
  proof (rule filter_takeWhile_all, rule ballI)
    fix x
    assume x: "x \<in> set (prefixed t)"
    then have "pe_prefix x \<noteq> []" using assms(1) by (simp add: wf_table_def)
    with x have "table_route t (pe_prefix x) = Some (pe_entry x)"
      using table_route_Some [OF assms(1)] by auto
    then show "\<not> same_entry (pe_entry x) e" by (rule assms(2))
  qed
  ultimately show ?thesis by (auto simp: without_def split: option.splits)
qed

lemma entries_same_ptr:
  "wf_table n h t \<Longrightarrow> a \<in> set (table_entries t) \<Longrightarrow> b \<in> set (table_entries t) \<Longrightarrow> same_entry a b \<Longrightarrow> a = b"
  by (auto simp: wf_table_def same_entry_def distinct_map dest: inj_onD)

lemma prefixed_same_entry:
  assumes w: "wf_table n h t" and "a \<in> set (prefixed t)" "b \<in> set (prefixed t)" "pe_entry a = pe_entry b"
  shows "a = b"
proof -
  have "distinct (map (e_ptr \<circ> pe_entry) (prefixed t))"
    using w by (auto simp: wf_table_def table_entries_def split: option.splits)
  then have "inj_on (e_ptr \<circ> pe_entry) (set (prefixed t))" by (simp add: distinct_map)
  then show ?thesis using assms(2-4) by (auto simp: inj_on_def)
qed

lemma table_route_without_present:
  assumes w: "wf_table n h t" and r: "table_route t p = Some e"
  shows "table_route (without t p e) = (table_route t)(p := None)"
proof
  fix q
  have e: "e \<in> set (table_entries t)" using table_route_entry [OF w r] .
  show "table_route (without t p e) q = ((table_route t)(p := None)) q"
  proof (cases "p = []")
    case True
    with r show ?thesis by (auto simp: without_def table_route_def same_entry_def)
  next
    case False
    obtain a where a: "a \<in> set (prefixed t)" "pe_prefix a = p" "pe_entry a = e"
      using r False by (auto simp: table_route_Some [OF w])
    have keep: "same_entry (pe_entry b) e \<longleftrightarrow> b = a" if b: "b \<in> set (prefixed t)" for b
      using entries_same_ptr [OF w _ e, of "pe_entry b"] prefixed_same_entry [OF w b a(1)] a b
      by (auto simp: table_entries_def same_entry_def)
    have pf: "prefixed (without t p e) = filter (\<lambda>b. b \<noteq> a) (prefixed t)" and rt: "root (without t p e) = root t"
      using False keep by (auto simp: without_def intro: filter_cong)
    have d: "distinct (map pe_prefix (prefixed t))" using w by (simp add: wf_table_def)
    then have d': "distinct (map pe_prefix (prefixed (without t p e)))" by (simp add: pf distinct_map_filter)
    show ?thesis
    proof (cases "q = []")
      case True
      then show ?thesis using False rt by (simp add: table_route_def)
    next
      case qne: False
      have inj: "b = a" if "b \<in> set (prefixed t)" "pe_prefix b = p" for b
        using d that a(1,2) by (auto simp: distinct_map dest: inj_onD)
      have "table_route (without t p e) q = Some x \<longleftrightarrow>
          (\<exists>b\<in>set (prefixed t). b \<noteq> a \<and> pe_prefix b = q \<and> pe_entry b = x)" for x
        unfolding table_route_prefix_Some [OF d' qne] pf by auto
      moreover have "((table_route t)(p := None)) q = Some x \<longleftrightarrow>
          (\<exists>b\<in>set (prefixed t). q \<noteq> p \<and> pe_prefix b = q \<and> pe_entry b = x)" for x
        using table_route_prefix_Some [OF d qne, of x] by auto
      moreover have "b \<noteq> a \<and> pe_prefix b = q \<longleftrightarrow> q \<noteq> p \<and> pe_prefix b = q" if "b \<in> set (prefixed t)" for b
        using inj [OF that] a(2) by auto
      ultimately have "table_route (without t p e) q = Some x \<longleftrightarrow> ((table_route t)(p := None)) q = Some x" for x
        by (metis (no_types, lifting))
      then show ?thesis by (rule option_eqI)
    qed
  qed
qed

section \<open>Resolve\<close>

lemma resolve_longest:
  assumes "wf_registry r"
  shows "resolve r h path = Some e \<longleftrightarrow>
     (\<exists>p. serves p path \<and> routes r (h, p) = Some e \<and>
          (\<forall>q. serves q path \<longrightarrow> routes r (h, q) \<noteq> None \<longrightarrow> length q \<le> length p))"
proof (cases "map_of (table r) h")
  case None
  then show ?thesis by (simp add: resolve_def routes_def)
next
  case (Some t)
  have w: "wf_table (next_ptr r) h t" using wf_registry_get [OF assms Some] .
  then have s: "sorted_wrt longer (prefixed t)" "distinct (map pe_prefix (prefixed t))"
    and ne: "\<And>q. q \<in> set (prefixed t) \<Longrightarrow> pe_prefix q \<noteq> []" by (auto simp: wf_table_def)
  have rt: "routes r (h, p) = table_route t p" for p by (simp add: routes_def Some)
  have pr: "table_route t p \<noteq> None \<longleftrightarrow> (\<exists>q\<in>set (prefixed t). pe_prefix q = p)" if "p \<noteq> []" for p
    using prefix_taken [OF that, of t] by (auto simp: image_iff)
  show ?thesis
  proof (cases "match_prefixed (prefixed t) path")
    case None
    then have no: "\<not> path_matches path (pe_prefix q)" if "q \<in> set (prefixed t)" for q
      using that by (simp add: match_prefixed_None)
    have only: "p = []" if "serves p path" "table_route t p \<noteq> None" for p
      using that no pr by (auto simp: serves_def)
    have "resolve r h path = root t" by (simp add: resolve_def Some None)
    moreover have "table_route t [] = root t" by (simp add: table_route_def)
    ultimately show ?thesis using only by (force simp: rt serves_def)
  next
    case m: (Some d)
    then have "resolve r h path = Some d" by (simp add: resolve_def Some)
    moreover obtain a where a: "a \<in> set (prefixed t)" "pe_entry a = d" "path_matches path (pe_prefix a)"
      and mx: "\<And>q. q \<in> set (prefixed t) \<Longrightarrow> path_matches path (pe_prefix q) \<Longrightarrow> length (pe_prefix q) \<le> length (pe_prefix a)"
      using m by (auto simp: match_prefixed_Some [OF s])
    have ra: "table_route t (pe_prefix a) = Some d" using a ne table_route_Some [OF w] by auto
    have best: "length q \<le> length (pe_prefix a)" if "serves q path" "table_route t q \<noteq> None" for q
      using that mx pr by (cases "q = []") (auto simp: serves_def)
    have "p = pe_prefix a" if "serves p path" "length (pe_prefix a) \<le> length p" "table_route t p \<noteq> None" for p
    proof -
      have "p \<noteq> []" using that ne [OF a(1)] by auto
      then have "path_matches path p" using that by (simp add: serves_def)
      moreover have "length p = length (pe_prefix a)" using that best by (simp add: le_antisym)
      ultimately show ?thesis using path_matches_unique a(3) by blast
    qed
    ultimately show ?thesis using a(3) ra best by (force simp: rt serves_def)
  qed
qed

section \<open>The registry provides the interface\<close>

lemma check_free: "wf_registry r \<Longrightarrow> is_ok (check r h p) \<longleftrightarrow> routes r (h, p) = None"
  by (auto simp: check_def routes_def table_route_def list_ex_iff find_None_iff split: option.splits)

lemma register_result:
  assumes "wf_registry r"
  shows "routes r (t_host tmpl, p) = None \<Longrightarrow>
      \<exists>r'. register r tmpl p s m w = (r', Ok (new_entry (next_ptr r) tmpl s m w)) \<and>
           routes r' = (routes r)((t_host tmpl, p) \<mapsto> new_entry (next_ptr r) tmpl s m w)"
    and "routes r (t_host tmpl, p) \<noteq> None \<Longrightarrow>
      \<exists>err r'. register r tmpl p s m w = (r', Err err) \<and> routes r' = routes r"
proof -
  let ?t = "host_or_empty r (t_host tmpl)" let ?e = "new_entry (next_ptr r) tmpl s m w"
  have d: "distinct (map pe_prefix (prefixed ?t))"
    using host_or_empty_ok [OF assms] by (rule table_or_empty_distinct)
  have taken: "list_ex (\<lambda>q. pe_prefix q = p) (prefixed ?t) \<longleftrightarrow> routes r (t_host tmpl, p) \<noteq> None" if "p \<noteq> []"
    using prefix_taken [OF that, of ?t] by (auto simp: routes_host_or_empty list_ex_iff image_iff)
  have taken0: "root ?t \<noteq> None \<longleftrightarrow> routes r (t_host tmpl, []) \<noteq> None"
    by (simp add: routes_host_or_empty table_route_def)
  show "\<exists>r'. register r tmpl p s m w = (r', Ok ?e) \<and> routes r' = (routes r)((t_host tmpl, p) \<mapsto> ?e)"
    if free: "routes r (t_host tmpl, p) = None"
  proof (cases "p = []")
    case True
    with free taken0 show ?thesis
      by (auto simp: register_unfold Let_def intro!: put_upd_routes table_route_add_root)
  next
    case False
    then have "p \<notin> pe_prefix ` set (prefixed ?t)"
      using free prefix_taken [OF False, of ?t] by (simp add: routes_host_or_empty)
    with False free taken [OF False] show ?thesis
      by (auto simp: register_unfold Let_def intro!: put_upd_routes table_route_add_prefix d)
  qed
  show "\<exists>err r'. register r tmpl p s m w = (r', Err err) \<and> routes r' = routes r"
    if tk: "routes r (t_host tmpl, p) \<noteq> None"
    using tk taken taken0 put_same_routes [of r tmpl "t_host tmpl"]
    by (cases "p = []") (auto simp: register_unfold Let_def)
qed

lemma routes_ptr:
  assumes "wf_registry r" "routes r (h, q) = Some e"
  shows "e_ptr e < next_ptr r" "e_host e = h"
proof -
  obtain t where t: "map_of (table r) h = Some t" "table_route t q = Some e"
    using assms(2) by (auto simp: routes_def split: option.splits)
  have w: "wf_table (next_ptr r) h t" using wf_registry_get [OF assms(1) t(1)] .
  then show "e_ptr e < next_ptr r" "e_host e = h"
    using table_route_entry [OF w t(2)] by (auto simp: wf_table_def)
qed

interpretation relay: route_table routes wf_registry same_entry "t_host \<circ> fst" check
  "\<lambda>r a p. register r (fst a) p (fst (snd a)) (fst (snd (snd a))) (snd (snd (snd a)))" unregister resolve
proof (unfold_locales, goal_cases)
  case (1 r h p)
  then show ?case by (rule check_free)
next
  case (2 r t p)
  then show ?case
    using register_result(1) [of r "fst t" p "fst (snd t)" "fst (snd (snd t))" "snd (snd (snd t))"]
    by (auto simp: o_def)
next
  case (3 r t p)
  then show ?case
    using register_result(2) [of r "fst t" p "fst (snd t)" "fst (snd (snd t))" "snd (snd (snd t))"]
    by (auto simp: o_def)
next
  case (4 r t p)
  then show ?case by (rule register_wf)
next
  case (5 r t p r' e h q e')
  have "e = new_entry (next_ptr r) (fst t) (fst (snd t)) (fst (snd (snd t))) (snd (snd (snd t)))"
    using 5(2) by (auto simp: register_unfold Let_def split: if_splits)
  then show ?case using routes_ptr(1) [OF 5(1,3)] by (simp add: same_entry_def)
next
  case (6 r h p e)
  then obtain t where t: "map_of (table r) h = Some t" "table_route t p = Some e"
    by (auto simp: routes_def split: option.splits)
  have "table_route (without t p e) = (table_route t)(p := None)"
    by (rule table_route_without_present [OF wf_registry_get [OF 6(1) t(1)] t(2)])
  then show ?case using t by (auto simp: fun_eq_iff routes_unregister) (auto simp: routes_def)
next
  case (7 r h e p)
  show ?case
  proof (cases "map_of (table r) h")
    case None
    then show ?thesis by (simp add: unregister_def)
  next
    case (Some t)
    have "without t p e = t"
      using table_route_without_stale [OF wf_registry_get [OF 7(1) Some]] 7(2) Some
      by (simp add: routes_def)
    then show ?thesis using Some by (auto simp: fun_eq_iff routes_unregister) (auto simp: routes_def)
  qed
next
  case (8 r h p e)
  then show ?case by (rule unregister_wf)
next
  case (9 r h path e)
  then show ?case by (rule resolve_longest)
qed

end
