(* ===== verification/RelayProps.thy ===== *)
theory RelayProps
  imports RelayCorrect
begin

text \<open>
  The runs of the registry and the properties of \<open>backend/relay/relay.go\<close>, each a few steps
  over the interpreted interface \<open>relay\<close> and the lemmas of \<open>RelayCorrect\<close>.
\<close>

section \<open>Runs\<close>

text \<open>One call of an exported method; \<open>Ready\<close> is called on an entry the registry returned.\<close>

inductive registry_step :: "registry \<Rightarrow> registry \<Rightarrow> bool" where
  step_register: "registry_step r (fst (register r tmpl p sess remote now))"
| step_unregister: "registry_step r (unregister r h p e)"
| step_ready: "e_ptr e < next_ptr r \<Longrightarrow> registry_step r (mark_ready r e)"

lemma wf_new_registry [wf_step]: "wf_registry new_registry"
  by (simp add: wf_registry_def new_registry_def)

lemma mark_ready_wf [wf_step]: "wf_registry r \<Longrightarrow> e_ptr e < next_ptr r \<Longrightarrow> wf_registry (mark_ready r e)"
  by (auto simp: mark_ready_def wf_registry_def)

lemma registry_step_wf: "wf_registry r \<Longrightarrow> registry_step r r' \<Longrightarrow> wf_registry r'"
  by (auto elim!: registry_step.cases simp: register_wf unregister_wf mark_ready_wf)

interpretation relay_runs: invariant_system "\<lambda>r. r = new_registry" registry_step wf_registry
  by unfold_locales (auto simp: wf_new_registry dest: registry_step_wf)

abbreviation reachable_registry :: "registry \<Rightarrow> bool" where
  "reachable_registry r \<equiv> registry_step\<^sup>*\<^sup>* new_registry r"

lemma reachable_wf: "reachable_registry r \<Longrightarrow> wf_registry r"
  using relay_runs.inv_reachable by simp

lemma reachable_register: "reachable_registry r \<Longrightarrow> reachable_registry (fst (register r tmpl p s m w))"
  by (meson rtranclp.rtrancl_into_rtrancl step_register)

section \<open>Concrete registries for the witnesses\<close>

definition shop :: "bool \<Rightarrow> entry_template" where
  "shop pending = \<lparr>t_service = ''shop'', t_host = ''shop'', t_user = ''u1'', t_gate_group = [],
     t_protect_hash = [], t_pending = pending\<rparr>"

definition shop_root :: registry where
  "shop_root = fst (register new_registry (shop False) [] 7 ''10.0.0.1'' 100)"

definition shop_api :: registry where
  "shop_api = fst (register shop_root (shop True) ''/api'' 8 ''10.0.0.2'' 200)"

lemma reachable_shop [simp]: "reachable_registry shop_root" "reachable_registry shop_api"
  by (simp_all add: shop_root_def shop_api_def reachable_register)

section \<open>Properties\<close>

text \<open>
  C7: in every state the registry reaches by calls of its methods, the host tables have no
  empty host, hold each prefix once with its longest first, carry only entries of their own
  host, and no two routes of a host share an entry.
\<close>

theorem registry_reachable_wf: "reachable_registry r \<Longrightarrow> wf_registry r"
  using relay_runs.inv_reachable by simp

theorem registry_reachable_wf_witness: "wf_registry shop_api"
  by (rule registry_reachable_wf) simp

text \<open>
  C1: \<open>Resolve\<close> returns the entry of the longest registered prefix that matches the request
  path on a path boundary, and the root tunnel when no prefix does; it returns nothing exactly
  when the host has neither.
\<close>

theorem resolve_longest_prefix:
  assumes "reachable_registry r"
  shows "resolve r host path = Some e \<longleftrightarrow>
     (\<exists>p. serves p path \<and> routes r (host, p) = Some e \<and>
          (\<forall>q. serves q path \<longrightarrow> routes r (host, q) \<noteq> None \<longrightarrow> length q \<le> length p))"
  by (rule relay.lookup_longest [OF reachable_wf [OF assms]])

theorem resolve_longest_prefix_witness:
  "map_option e_session (resolve shop_api ''shop'' ''/api/v1'') = Some 8 \<and>
   map_option e_session (resolve shop_api ''shop'' ''/apix'') = Some 7 \<and>
   (\<exists>e p. resolve shop_api ''shop'' ''/api/v1'' = Some e \<and> serves p ''/api/v1'' \<and>
      routes shop_api (''shop'', p) = Some e)"
proof -
  have a: "map_option e_session (resolve shop_api ''shop'' ''/api/v1'') = Some 8" by code_simp
  have b: "map_option e_session (resolve shop_api ''shop'' ''/apix'') = Some 7" by code_simp
  obtain e where e: "resolve shop_api ''shop'' ''/api/v1'' = Some e" using a by auto
  then have "\<exists>p. serves p ''/api/v1'' \<and> routes shop_api (''shop'', p) = Some e"
    using resolve_longest_prefix [of shop_api "''shop''" "''/api/v1''" e] by auto
  with a b e show ?thesis by blast
qed

text \<open>
  The order in which \<open>sort.Slice\<close> leaves prefixes of equal length does not matter: any two
  arrangements of the same prefixes by decreasing length resolve every path alike.
\<close>

theorem match_prefixed_order_irrelevant:
  assumes "sorted_wrt longer ps" "sorted_wrt longer qs" "set ps = set qs"
    "distinct (map pe_prefix ps)" "distinct (map pe_prefix qs)"
  shows "match_prefixed ps path = match_prefixed qs path"
proof -
  have "match_prefixed ps path = Some e \<longleftrightarrow> match_prefixed qs path = Some e" for e
    by (simp add: match_prefixed_Some [OF assms(1,4)] match_prefixed_Some [OF assms(2,5)] assms(3))
  then show ?thesis by (rule option_eqI)
qed

definition api_entry :: entry where
  "api_entry = new_entry 0 (shop False) 1 [] 0"

theorem match_prefixed_order_irrelevant_witness:
  "match_prefixed [\<lparr>pe_prefix = ''/b'', pe_entry = api_entry\<rparr>, \<lparr>pe_prefix = ''/a'', pe_entry = api_entry\<rparr>] ''/a/x''
   = match_prefixed [\<lparr>pe_prefix = ''/a'', pe_entry = api_entry\<rparr>, \<lparr>pe_prefix = ''/b'', pe_entry = api_entry\<rparr>] ''/a/x''"
  by (rule match_prefixed_order_irrelevant) (auto simp: longer_def)

text \<open>
  C5: \<open>Register\<close> succeeds exactly when \<open>Check\<close> accepts the same host and prefix; it then
  adds that one route, and when it fails every route is as it was, so the first owner of a
  route keeps it.
\<close>

theorem register_agrees_with_check:
  assumes "reachable_registry r"
  shows "is_ok (snd (register r tmpl p sess remote now)) = is_ok (check r (t_host tmpl) p) \<and>
    routes (fst (register r tmpl p sess remote now)) =
      (case snd (register r tmpl p sess remote now) of
         Inl _ \<Rightarrow> routes r | Inr e \<Rightarrow> (routes r)((t_host tmpl, p) \<mapsto> e))"
  using register_result [OF reachable_wf [OF assms], of tmpl p sess remote now]
    check_free [OF reachable_wf [OF assms], of "t_host tmpl" p]
  by (cases "routes r (t_host tmpl, p)"; auto)

theorem register_agrees_with_check_witness:
  "\<not> is_ok (snd (register shop_api (shop True) ''/api'' 9 [] 0)) \<and> is_ok (snd (register shop_api (shop True) ''/web'' 9 [] 0))"
proof -
  have "is_ok (check shop_api ''shop'' ''/api'') = False" "is_ok (check shop_api ''shop'' ''/web'') = True"
    by code_simp+
  then show ?thesis
    using register_agrees_with_check [of shop_api "shop True"] by (simp add: shop_def)
qed

lemma next_ptr_unregister [simp]: "next_ptr (unregister r h p e) = next_ptr r"
  by (simp add: unregister_unfold put_table_def split: option.split)

lemma register_Ok_entry:
  assumes "wf_registry r" "register r tmpl p s m w = (r', Ok e)"
  shows "e = new_entry (next_ptr r) tmpl s m w" and "next_ptr r' = Suc (next_ptr r)"
    and "routes r (t_host tmpl, p) = None"
  using assms(2) register_result [OF assms(1), of tmpl p s m w]
  by (cases "routes r (t_host tmpl, p)"; auto simp: register_def Let_def split: if_splits)+

text \<open>
  C6: a tunnel that registers a route and later unregisters leaves every route as it was
  before; and when its connection closes a second time, late, after another tunnel has taken
  the same route, the stale \<open>Unregister\<close> takes nothing down.
\<close>

theorem unregister_restores:
  assumes "reachable_registry r" "register r tmpl p sess remote now = (r1, Ok e)"
    and "register (unregister r1 (t_host tmpl) p e) tmpl p sess' remote' now' = (r2, Ok e')"
  shows "routes (unregister r1 (t_host tmpl) p e) = routes r \<and>
    routes (unregister r2 (t_host tmpl) p e) = routes r2"
proof -
  let ?u = "unregister r1 (t_host tmpl) p e"
  have w: "wf_registry r" using reachable_wf [OF assms(1)] .
  have wu: "wf_registry ?u" using register_wf [OF w, of tmpl p sess remote now] assms(2) by (simp add: unregister_wf)
  have restored: "routes ?u = routes r"
    using relay.add_remove_restores [OF w, of "(tmpl, sess, remote, now)"] assms(2) by simp
  note e = register_Ok_entry [OF w assms(2)] and e' = register_Ok_entry [OF wu assms(3)]
  have "\<not> same_entry d e" if "routes ?u (t_host tmpl, q) = Some d" for q d
    using routes_ptr(1) [OF w, of "t_host tmpl" q d] that restored by (auto simp: e(1) same_entry_def new_entry_def)
  moreover have "\<not> same_entry e' e" by (simp add: e(1,2) e'(1) same_entry_def new_entry_def)
  ultimately have "routes (unregister r2 (t_host tmpl) p e) = routes r2"
    using relay.stale_remove_harmless [OF wu, of "(tmpl, sess', remote', now')"] assms(3) e'(3) by simp
  with restored show ?thesis by simp
qed

theorem unregister_restores_witness:
  "\<exists>r1 e r2 e'. register shop_root (shop True) ''/api'' 8 [] 0 = (r1, Ok e) \<and>
     register (unregister r1 ''shop'' ''/api'' e) (shop True) ''/api'' 9 [] 1 = (r2, Ok e') \<and>
     routes (unregister r1 ''shop'' ''/api'' e) = routes shop_root \<and>
     routes (unregister r2 ''shop'' ''/api'' e) = routes r2"
proof -
  let ?s = "register shop_root (shop True) ''/api'' 8 [] 0"
  let ?e = "new_entry 1 (shop True) 8 [] 0"
  let ?t = "register (unregister (fst ?s) ''shop'' ''/api'' ?e) (shop True) ''/api'' 9 [] 1"
  have h: "t_host (shop True) = ''shop''" by (simp add: shop_def)
  have a: "snd ?s = Ok ?e" "snd ?t = Ok (new_entry 2 (shop True) 9 [] 1)" by code_simp+
  from a(1) have s: "?s = (fst ?s, Ok ?e)" by (metis prod.collapse)
  from a(2) have t: "?t = (fst ?t, Ok (new_entry 2 (shop True) 9 [] 1))" by (metis prod.collapse)
  show ?thesis
    using unregister_restores [OF reachable_shop(1) s, of 9 "[]" 1, unfolded h, OF t] s t by blast
qed

lemma table_active_mem:
  assumes "wf_table n h t"
  shows "a \<in> set (table_active u t) \<longleftrightarrow>
    (\<exists>p e. table_route t p = Some e \<and> e_user e = u \<and> a = active_of e (if p = [] then ''/'' else p))"
proof -
  have ne: "\<And>q. q \<in> set (prefixed t) \<Longrightarrow> pe_prefix q \<noteq> []" using assms by (simp add: wf_table_def)
  have "a \<in> set (table_active u t) \<longleftrightarrow>
      (\<exists>e. root t = Some e \<and> e_user e = u \<and> a = active_of e ''/'') \<or>
      (\<exists>q\<in>set (prefixed t). e_user (pe_entry q) = u \<and> a = active_of (pe_entry q) (pe_prefix q))"
    by (cases "root t") (auto simp: table_active_def image_iff)
  also have "\<dots> \<longleftrightarrow> (\<exists>p e. table_route t p = Some e \<and> e_user e = u \<and> a = active_of e (if p = [] then ''/'' else p))"
    using ne by (auto simp: table_route_Some [OF assms]) (force+)?
  finally show ?thesis .
qed

text \<open>
  C5: \<open>ListActive\<close> lists exactly the routes whose entries belong to the asking user, the root
  under the path \<open>/\<close>, and lists them in the order of host and path.
\<close>

theorem list_active_exact:
  assumes "reachable_registry r"
  shows "sorted (map (\<lambda>a. a_host a @ a_path a) (list_active r user)) \<and>
    (a \<in> set (list_active r user)) =
      (\<exists>h p e. routes r (h, p) = Some e \<and> e_user e = user \<and> a = active_of e (if p = [] then ''/'' else p))"
proof -
  have w: "wf_registry r" using reachable_wf [OF assms] .
  have r1: "routes r (h, p) = Some e \<longleftrightarrow> (\<exists>t. map_of (table r) h = Some t \<and> table_route t p = Some e)" for h p e
    by (simp add: routes_def split: option.splits)
  have "a \<in> set (list_active r user) \<longleftrightarrow> (\<exists>h t. map_of (table r) h = Some t \<and> a \<in> set (table_active user t))"
    using w by (auto simp: list_active_def wf_registry_def gomap_mem [symmetric])
  also have "\<dots> \<longleftrightarrow> (\<exists>h t p e. map_of (table r) h = Some t \<and> table_route t p = Some e \<and> e_user e = user \<and>
      a = active_of e (if p = [] then ''/'' else p))"
    using table_active_mem [OF wf_registry_get [OF w]] by blast
  also have "\<dots> \<longleftrightarrow> (\<exists>h p e. routes r (h, p) = Some e \<and> e_user e = user \<and> a = active_of e (if p = [] then ''/'' else p))"
    using r1 by metis
  finally show ?thesis by (simp add: list_active_def)
qed

theorem list_active_exact_witness:
  "map a_path (list_active shop_api ''u1'') = [''/'', ''/api''] \<and> list_active shop_api ''u2'' = [] \<and>
   (\<exists>e. routes shop_api (''shop'', ''/api'') = Some e \<and> active_of e ''/api'' \<in> set (list_active shop_api ''u1''))"
proof -
  have a: "map a_path (list_active shop_api ''u1'') = [''/'', ''/api'']" "list_active shop_api ''u2'' = []"
    by code_simp+
  have "map_option e_user (routes shop_api (''shop'', ''/api'')) = Some ''u1''" by code_simp
  then obtain e where e: "routes shop_api (''shop'', ''/api'') = Some e" "e_user e = ''u1''" by auto
  then have "\<exists>h p d. routes shop_api (h, p) = Some d \<and> e_user d = ''u1'' \<and>
      active_of e ''/api'' = active_of d (if p = [] then ''/'' else p)"
    by (intro exI [of _ "''shop''"] exI [of _ "''/api''"] exI [of _ e]) simp
  then have "active_of e ''/api'' \<in> set (list_active shop_api ''u1'')"
    using list_active_exact [OF reachable_shop(2), of "''u1''" "active_of e ''/api''"] by blast
  with a e show ?thesis by blast
qed

end
