(* ===== verification/Base64.thy ===== *)
theory Base64
  imports GoStrings
begin

text \<open>
  The text encodings of the relay's tokens: \<open>hexEncode\<close> and \<open>hex.EncodeToString\<close> (lower-case
  hexadecimal) and \<open>base64.RawURLEncoding\<close>, the URL alphabet without padding. The decoder is
  the one of \<open>encoding/base64\<close>: it skips carriage returns and newlines, refuses every other
  character outside the alphabet and a last group of one character, and does not check the
  unused low bits of the last group.
\<close>

section \<open>Hexadecimal\<close>

definition hex_digit :: "nat \<Rightarrow> char" where
  "hex_digit n = ''0123456789abcdef'' ! n"

definition hex_encode :: "string \<Rightarrow> string" where
  "hex_encode b = concat (map (\<lambda>v. [hex_digit (code_of v div 16), hex_digit (code_of v mod 16)]) b)"

definition is_hex_digit :: "char \<Rightarrow> bool" where
  "is_hex_digit c = (is_digit c \<or> (97 \<le> code_of c \<and> code_of c \<le> 102))"

lemma hex_digit_ok: "n < 16 \<Longrightarrow> is_hex_digit (hex_digit n)"
proof -
  have "list_all (\<lambda>n. is_hex_digit (hex_digit n)) [0..<16]" by code_simp
  then show "n < 16 \<Longrightarrow> ?thesis" by (simp add: list_all_iff)
qed

lemma hex_digit_inj: "m < 16 \<Longrightarrow> n < 16 \<Longrightarrow> hex_digit m = hex_digit n \<longleftrightarrow> m = n"
proof -
  have "distinct ''0123456789abcdef''" by simp
  then show "m < 16 \<Longrightarrow> n < 16 \<Longrightarrow> ?thesis"
    by (auto simp: hex_digit_def nth_eq_iff_index_eq)
qed

lemma code_lt [simp]: "code_of c < 256"
  by (metis of_char_mod_256 mod_less_divisor zero_less_numeral)

lemma code_nibbles [simp]: "code_of c div 16 < 16" "code_of c mod 16 < 16"
  using code_lt [of c] by linarith+

lemma hex_encode_simps [simp]:
  "hex_encode [] = []"
  "hex_encode (c # s) = hex_digit (code_of c div 16) # hex_digit (code_of c mod 16) # hex_encode s"
  by (simp_all add: hex_encode_def)

lemma length_hex_encode [simp]: "length (hex_encode s) = 2 * length s"
  by (induction s) auto

lemma hex_encode_chars: "list_all is_hex_digit (hex_encode s)"
  by (induction s) (auto simp: hex_digit_ok)

lemma hex_encode_inj: "hex_encode s = hex_encode t \<longleftrightarrow> s = t"
proof (induction s arbitrary: t)
  case Nil
  then show ?case by (cases t) auto
next
  case (Cons c s)
  show ?case
  proof (cases t)
    case Nil
    then show ?thesis by simp
  next
    case (Cons d u)
    have "code_of c = 16 * (code_of c div 16) + code_of c mod 16" by simp
    moreover have "code_of d = 16 * (code_of d div 16) + code_of d mod 16" by simp
    ultimately have "code_of c div 16 = code_of d div 16 \<and> code_of c mod 16 = code_of d mod 16 \<longleftrightarrow> c = d"
      by (metis char_of_char)
    then show ?thesis using Cons Cons.IH by (auto simp: hex_digit_inj)
  qed
qed

lemma hex_encode_no: "\<not> is_hex_digit c \<Longrightarrow> c \<notin> set (hex_encode s)"
  using hex_encode_chars [of s] by (auto simp: list_all_iff)

section \<open>Base64\<close>

definition b64_alphabet :: string where
  "b64_alphabet = ''ABCDEFGHIJKLMNOPQRSTUVWXYZabcdefghijklmnopqrstuvwxyz0123456789-_''"

definition b64_char :: "nat \<Rightarrow> char" where
  "b64_char n = b64_alphabet ! n"

definition b64_val :: "char \<Rightarrow> nat option" where
  "b64_val c = map_of (zip b64_alphabet [0..<64]) c"

fun b64_encode :: "string \<Rightarrow> string" where
  "b64_encode [] = []"
| "b64_encode [a] = [b64_char (code_of a div 4), b64_char ((code_of a mod 4) * 16)]"
| "b64_encode [a, b] =
     [b64_char (code_of a div 4), b64_char ((code_of a mod 4) * 16 + code_of b div 16),
      b64_char ((code_of b mod 16) * 4)]"
| "b64_encode (a # b # c # s) =
     [b64_char (code_of a div 4), b64_char ((code_of a mod 4) * 16 + code_of b div 16),
      b64_char ((code_of b mod 16) * 4 + code_of c div 64), b64_char (code_of c mod 64)] @ b64_encode s"

fun b64_groups :: "nat list \<Rightarrow> string option" where
  "b64_groups [] = Some []"
| "b64_groups [w] = None"
| "b64_groups [w, x] = Some [char_of (w * 4 + x div 16)]"
| "b64_groups [w, x, y] = Some [char_of (w * 4 + x div 16), char_of ((x mod 16) * 16 + y div 4)]"
| "b64_groups (w # x # y # z # vs) =
     map_option (\<lambda>s. char_of (w * 4 + x div 16) # char_of ((x mod 16) * 16 + y div 4)
                       # char_of ((y mod 4) * 64 + z) # s) (b64_groups vs)"

fun b64_values :: "string \<Rightarrow> nat list option" where
  "b64_values [] = Some []"
| "b64_values (c # s) =
     (if code_of c = 10 \<or> code_of c = 13 then b64_values s
      else case b64_val c of
          None \<Rightarrow> None
        | Some v \<Rightarrow> map_option (\<lambda>vs. v # vs) (b64_values s))"

definition b64_decode :: "string \<Rightarrow> string option" where
  "b64_decode s = (case b64_values s of None \<Rightarrow> None | Some vs \<Rightarrow> b64_groups vs)"

lemma length_b64_alphabet [simp]: "length b64_alphabet = 64"
  by (simp add: b64_alphabet_def)

lemma distinct_b64_alphabet: "distinct b64_alphabet"
  by (simp add: b64_alphabet_def)

lemma b64_val_char [simp]: "n < 64 \<Longrightarrow> b64_val (b64_char n) = Some n"
  using distinct_b64_alphabet by (auto simp: b64_val_def b64_char_def map_of_zip_nth)

lemma b64_char_mem: "n < 64 \<Longrightarrow> b64_char n \<in> set b64_alphabet"
  by (simp add: b64_char_def)

lemma b64_alphabet_no: "c \<in> set b64_alphabet \<Longrightarrow> code_of c \<noteq> 10 \<and> code_of c \<noteq> 13 \<and> c \<noteq> CHR ''.''"
proof -
  have "list_all (\<lambda>c. code_of c \<noteq> 10 \<and> code_of c \<noteq> 13 \<and> c \<noteq> CHR ''.'') b64_alphabet"
    by (simp add: b64_alphabet_def)
  then show "c \<in> set b64_alphabet \<Longrightarrow> ?thesis" by (simp add: list_all_iff)
qed

lemma b64_values_char [simp]:
  "n < 64 \<Longrightarrow> b64_values (b64_char n # s) = map_option (\<lambda>vs. n # vs) (b64_values s)"
  using b64_alphabet_no [OF b64_char_mem [of n]] by simp

lemma b64_bounds [simp]:
  "code_of a div 4 < 64" "(code_of a mod 4) * 16 + code_of b div 16 < 64"
  "(code_of b mod 16) * 4 + code_of c div 64 < 64" "code_of c mod 64 < 64"
  "(code_of a mod 4) * 16 < 64" "(code_of b mod 16) * 4 < 64"
  using code_lt [of a] code_lt [of b] code_lt [of c] by linarith+

lemma b64_first: "q < 16 \<Longrightarrow> n div 4 * 4 + ((n mod 4) * 16 + q) div 16 = (n::nat)"
  by simp

lemma b64_second: "n < 256 \<Longrightarrow> q < 4 \<Longrightarrow>
    ((k mod 4) * 16 + n div 16) mod 16 * 16 + ((n mod 16) * 4 + q) div 4 = (n::nat)"
proof -
  assume "n < 256" "q < 4"
  then have "((k mod 4) * 16 + n div 16) mod 16 = n div 16" "((n mod 16) * 4 + q) div 4 = n mod 16" by auto
  then show ?thesis by simp
qed

lemma b64_third: "n < 256 \<Longrightarrow> ((k mod 16) * 4 + n div 64) mod 4 * 64 + n mod 64 = (n::nat)"
proof -
  assume "n < 256"
  then have "((k mod 16) * 4 + n div 64) mod 4 = n div 64" by auto
  then show ?thesis by simp
qed

lemma code_div_lt [simp]: "code_of c div 16 < 16" "code_of c div 64 < 4"
  using code_lt [of c] by linarith+

lemma b64_last_short: "n div 4 * 4 + (n mod 4) * 16 div 16 = (n::nat)"
  "n < 256 \<Longrightarrow> ((k mod 4) * 16 + n div 16) mod 16 * 16 + (n mod 16) * 4 div 4 = (n::nat)"
  using b64_first [of 0 n] b64_second [of n 0 k] by simp_all

lemmas b64_reassemble = b64_first b64_second b64_third b64_last_short

lemma b64_values_groups: "\<exists>vs. b64_values (b64_encode s) = Some vs \<and> b64_groups vs = Some s"
proof (induction s rule: b64_encode.induct)
  case (4 a b c s)
  then obtain vs where "b64_values (b64_encode s) = Some vs" "b64_groups vs = Some s" by blast
  then show ?case by (simp add: b64_reassemble del: b64_values.simps)
qed (simp_all add: b64_reassemble del: b64_values.simps(2))

theorem b64_roundtrip: "b64_decode (b64_encode s) = Some s"
  using b64_values_groups [of s] by (auto simp: b64_decode_def)

lemma b64_encode_chars: "set (b64_encode s) \<subseteq> set b64_alphabet"
  by (induction s rule: b64_encode.induct) (auto simp: b64_char_mem)

lemma b64_encode_no_dot: "CHR ''.'' \<notin> set (b64_encode s)"
  using b64_encode_chars [of s] b64_alphabet_no by blast

end
