(* ===== verification/Sessions.thy ===== *)
theory Sessions
  imports Sha256
begin

text \<open>
  \<open>backend/internal/auth/sessions.go\<close>: the stateless signed cookies. A token is the payload
  and its HMAC, both base64url, joined by a dot; a payload is a body and an expiry in Unix
  seconds, joined by a bar. The same key signs browser sessions (the body is the user id),
  host unlock grants (\<open>gate:\<close> and the host) and group grants (\<open>gate-group:\<close> and a binding).
  Times are Unix seconds.
\<close>

section \<open>Operations\<close>

record sessions =
  ss_secret :: string

definition new_sessions :: "string \<Rightarrow> sessions" where
  "new_sessions secret = \<lparr>ss_secret = secret\<rparr>"

definition session_cookie :: string where "session_cookie = ''roxey_session''"
definition gate_cookie :: string where "gate_cookie = ''roxey_gate''"
definition gate_group_cookie_prefix :: string where
  "gate_group_cookie_prefix = gate_cookie @ ''_''"

text \<open>\<open>7 * 24 * time.Hour\<close> in seconds.\<close>

definition session_ttl :: int where "session_ttl = 604800"

datatype session_error = InvalidSession

definition sign :: "sessions \<Rightarrow> string \<Rightarrow> string" where
  "sign s payload = hmac_sha256 (ss_secret s) payload"

text \<open>The last lines of every \<open>Issue\<close> method, and the first ones of every \<open>Verify\<close> method.\<close>

definition seal :: "sessions \<Rightarrow> string \<Rightarrow> string" where
  "seal s payload = b64_encode payload @ ''.'' @ b64_encode (sign s payload)"

definition unseal :: "sessions \<Rightarrow> string \<Rightarrow> string option" where
  "unseal s value =
     (case cut_at value ''.'' of
        None \<Rightarrow> None
      | Some (val, sig) \<Rightarrow>
          (case b64_decode val of
             None \<Rightarrow> None
           | Some payload \<Rightarrow>
               (case b64_decode sig of
                  None \<Rightarrow> None
                | Some got \<Rightarrow> if got = sign s payload then Some payload else None)))"

definition issue :: "sessions \<Rightarrow> string \<Rightarrow> int \<Rightarrow> string" where
  "issue s userID now = seal s (userID @ ''|'' @ itoa (now + session_ttl))"

definition verify :: "sessions \<Rightarrow> string \<Rightarrow> int \<Rightarrow> (session_error, string) res" where
  "verify s value now =
     (case unseal s value of
        None \<Rightarrow> Err InvalidSession
      | Some payload \<Rightarrow>
          (case cut_at payload ''|'' of
             None \<Rightarrow> Err InvalidSession
           | Some (userID, expStr) \<Rightarrow>
               (case parse_int expStr of
                  None \<Rightarrow> Err InvalidSession
                | Some e \<Rightarrow> if e < now then Err InvalidSession else Ok userID)))"

definition issue_gate :: "sessions \<Rightarrow> string \<Rightarrow> int \<Rightarrow> string" where
  "issue_gate s host now = seal s (''gate:'' @ host @ ''|'' @ itoa (now + session_ttl))"

definition verify_gate :: "sessions \<Rightarrow> string \<Rightarrow> string \<Rightarrow> int \<Rightarrow> bool" where
  "verify_gate s value host now =
     (case unseal s value of
        None \<Rightarrow> False
      | Some payload \<Rightarrow>
          (case cut_at (trim_prefix payload ''gate:'') ''|'' of
             None \<Rightarrow> False
           | Some (tokenHost, expStr) \<Rightarrow>
               if tokenHost \<noteq> host then False
               else (case parse_int expStr of None \<Rightarrow> False | Some e \<Rightarrow> now \<le> e)))"

definition nul :: char where "nul = char_of (0::nat)"

definition gate_group_cookie_name :: "string \<Rightarrow> string \<Rightarrow> string" where
  "gate_group_cookie_name userID grp =
     gate_group_cookie_prefix @ hex_encode (take 16 (sha256 (userID @ [nul] @ grp)))"

definition gate_group_input :: "string \<Rightarrow> string \<Rightarrow> string \<Rightarrow> string" where
  "gate_group_input userID grp protectHash = userID @ [nul] @ grp @ [nul] @ protectHash"

definition gate_group_binding :: "string \<Rightarrow> string \<Rightarrow> string \<Rightarrow> string" where
  "gate_group_binding userID grp protectHash = hex_encode (sha256 (gate_group_input userID grp protectHash))"

definition issue_gate_group :: "sessions \<Rightarrow> string \<Rightarrow> string \<Rightarrow> string \<Rightarrow> int \<Rightarrow> string" where
  "issue_gate_group s userID grp protectHash now =
     seal s (''gate-group:'' @ gate_group_binding userID grp protectHash @ ''|'' @ itoa (now + session_ttl))"

definition verify_gate_group :: "sessions \<Rightarrow> string \<Rightarrow> string \<Rightarrow> string \<Rightarrow> string \<Rightarrow> int \<Rightarrow> bool" where
  "verify_gate_group s value userID grp protectHash now =
     (case unseal s value of
        None \<Rightarrow> False
      | Some payload \<Rightarrow>
          (case cut_prefix payload ''gate-group:'' of
             None \<Rightarrow> False
           | Some body \<Rightarrow>
               (case cut_at body ''|'' of
                  None \<Rightarrow> False
                | Some (binding, expStr) \<Rightarrow>
                    if binding \<noteq> gate_group_binding userID grp protectHash then False
                    else (case parse_int expStr of None \<Rightarrow> False | Some e \<Rightarrow> now \<le> e))))"

definition is_gate_cookie_name :: "string \<Rightarrow> bool" where
  "is_gate_cookie_name name = (name = gate_cookie \<or> has_prefix name gate_group_cookie_prefix)"

section \<open>Cookies\<close>

record cookie =
  ck_name :: string
  ck_value :: string
  ck_domain :: string
  ck_secure :: bool
  ck_max_age :: int

text \<open>All cookies have \<open>Path=/\<close>, \<open>HttpOnly\<close> and \<open>SameSite=Lax\<close>.\<close>

definition set_session_cookie :: "string \<Rightarrow> cookie" where
  "set_session_cookie value = \<lparr>ck_name = session_cookie, ck_value = value, ck_domain = [],
     ck_secure = False, ck_max_age = session_ttl\<rparr>"
definition clear_session_cookie :: cookie where
  "clear_session_cookie = \<lparr>ck_name = session_cookie, ck_value = [], ck_domain = [],
     ck_secure = False, ck_max_age = -1\<rparr>"
definition set_gate_cookie :: "string \<Rightarrow> string \<Rightarrow> cookie" where
  "set_gate_cookie value host = \<lparr>ck_name = gate_cookie, ck_value = value, ck_domain = host,
     ck_secure = False, ck_max_age = session_ttl\<rparr>"
definition set_gate_group_cookie :: "string \<Rightarrow> string \<Rightarrow> string \<Rightarrow> cookie" where
  "set_gate_group_cookie name value domain = \<lparr>ck_name = name, ck_value = value, ck_domain = domain,
     ck_secure = True, ck_max_age = session_ttl\<rparr>"

text \<open>\<open>RandomSecret\<close> on the bytes the random source gave.\<close>

definition random_secret :: "string \<Rightarrow> string" where
  "random_secret bytes = hex_encode bytes"

section \<open>The token scheme\<close>

text \<open>
  What the three kinds of tokens rely on: opening a sealed payload with the same key gives it
  back. The readers of the payload are proved against this alone.
\<close>

locale signed_tokens =
  fixes wrap :: "'k \<Rightarrow> string \<Rightarrow> string"
    and unwrap :: "'k \<Rightarrow> string \<Rightarrow> string option"
  assumes unwrap_wrap: "unwrap k (wrap k p) = Some p"
begin

lemma unwrap_body:
  assumes "CHR ''|'' \<notin> set body"
  shows "(case unwrap k (wrap k (body @ ''|'' @ e)) of None \<Rightarrow> None | Some p \<Rightarrow> cut_at p ''|'') = Some (body, e)"
  using assms by (simp add: unwrap_wrap cut_at_char)

lemma wrap_inj: "wrap k p = wrap k q \<Longrightarrow> p = q"
  by (metis option.inject unwrap_wrap)

end

interpretation tokens: signed_tokens seal unseal
proof unfold_locales
  fix s p
  have "cut_at (seal s p) ''.'' = Some (b64_encode p, b64_encode (sign s p))"
    by (simp add: seal_def cut_at_char b64_encode_no_dot)
  then show "unseal s (seal s p) = Some p" by (simp add: unseal_def b64_roundtrip)
qed

section \<open>Grants\<close>

text \<open>What the server has signed: one of the three kinds of grants, with its time of issue.\<close>

datatype grant =
    SessionGrant string int
  | HostGrant string int
  | GroupGrant string string string int

fun grant_token :: "sessions \<Rightarrow> grant \<Rightarrow> string" where
  "grant_token s (SessionGrant u t) = issue s u t"
| "grant_token s (HostGrant h t) = issue_gate s h t"
| "grant_token s (GroupGrant u g p t) = issue_gate_group s u g p t"

fun grant_time :: "grant \<Rightarrow> int" where
  "grant_time (SessionGrant u t) = t"
| "grant_time (HostGrant h t) = t"
| "grant_time (GroupGrant u g p t) = t"

fun grant_body :: "grant \<Rightarrow> string" where
  "grant_body (SessionGrant u t) = u"
| "grant_body (HostGrant h t) = ''gate:'' @ h"
| "grant_body (GroupGrant u g p t) = ''gate-group:'' @ gate_group_binding u g p"

text \<open>Names free of the bar, and an expiry that fits \<open>int64\<close>.\<close>

definition plain_grant :: "grant \<Rightarrow> bool" where
  "plain_grant g \<longleftrightarrow> CHR ''|'' \<notin> set (grant_body g) \<and> in_int64 (grant_time g + session_ttl)"

definition fresh :: "grant \<Rightarrow> int \<Rightarrow> bool" where
  "fresh g now \<longleftrightarrow> now \<le> grant_time g + session_ttl"

lemma grant_token_seal: "grant_token s g = seal s (grant_body g @ ''|'' @ itoa (grant_time g + session_ttl))"
  by (cases g) (simp_all add: issue_def issue_gate_def issue_gate_group_def)

lemma verify_grant:
  assumes "plain_grant g"
  shows "verify s (grant_token s g) now = (if fresh g now then Ok (grant_body g) else Err InvalidSession)"
  using assms tokens.unwrap_body [of "grant_body g" s "itoa (grant_time g + session_ttl)"]
  by (simp add: verify_def grant_token_seal tokens.unwrap_wrap plain_grant_def fresh_def parse_int_itoa)

lemma cut_at_trimmed:
  assumes "CHR ''|'' \<notin> set b" "CHR ''|'' \<notin> set q"
  shows "cut_at (trim_prefix (b @ ''|'' @ e) q) ''|'' = Some (trim_prefix b q, e)"
proof (cases "has_prefix b q")
  case True
  then obtain t where "b = q @ t" by (auto simp: has_prefix_iff)
  with assms show ?thesis by (simp add: cut_at_char)
next
  case False
  have "\<not> has_prefix (b @ ''|'' @ e) q"
  proof
    assume "has_prefix (b @ ''|'' @ e) q"
    then obtain t where t: "b @ ''|'' @ e = q @ t" by (auto simp: has_prefix_iff)
    show False
    proof (cases "length q \<le> length b")
      case True
      with t have "q = take (length q) b" by (metis append_eq_append_conv_if)
      with False show False by (simp add: has_prefix_def)
    next
      case False
      then have "(q @ t) ! length b = q ! length b" by (simp add: nth_append)
      moreover have "(b @ ''|'' @ e) ! length b = CHR ''|''" by simp
      ultimately show False using t assms(2) False by (metis not_le nth_mem)
    qed
  qed
  with False assms show ?thesis by (simp add: trim_prefix_def cut_at_char)
qed

lemma verify_gate_grant:
  assumes "plain_grant g"
  shows "verify_gate s (grant_token s g) h now \<longleftrightarrow> trim_prefix (grant_body g) ''gate:'' = h \<and> fresh g now"
  using assms cut_at_trimmed [of "grant_body g" "''gate:''" "itoa (grant_time g + session_ttl)"]
  by (auto simp: verify_gate_def grant_token_seal tokens.unwrap_wrap plain_grant_def fresh_def parse_int_itoa)

lemma cut_prefix_bar:
  assumes "CHR ''|'' \<notin> set q"
  shows "cut_prefix (b @ ''|'' @ e) q = map_option (\<lambda>r. r @ ''|'' @ e) (cut_prefix b q) \<or> CHR ''|'' \<in> set b"
proof (cases "CHR ''|'' \<in> set b")
  case False
  have "has_prefix (b @ ''|'' @ e) q = has_prefix b q"
  proof (cases "has_prefix b q")
    case True
    then show ?thesis by (auto simp: has_prefix_iff)
  next
    case nb: False
    show ?thesis
    proof (rule ccontr)
      assume "has_prefix (b @ ''|'' @ e) q \<noteq> has_prefix b q"
      with nb have h: "has_prefix (b @ ''|'' @ e) q" by simp
      then have "trim_prefix (b @ ''|'' @ e) q = drop (length q) (b @ ''|'' @ e)" by (simp add: trim_prefix_def)
      moreover have "cut_at (trim_prefix (b @ ''|'' @ e) q) ''|'' = Some (b, e)"
        using cut_at_trimmed [OF False assms, of e] nb by (simp add: trim_prefix_def)
      ultimately have "drop (length q) (b @ ''|'' @ e) = b @ ''|'' @ e" by (simp add: cut_at_char_Some)
      then have "q = [] \<or> b @ ''|'' @ e = []" by (metis drop_eq_Nil diff_is_0_eq length_drop length_0_conv diff_diff_cancel le_cases)
      with nb show False by simp
    qed
  qed
  then show ?thesis using False by (auto simp: cut_prefix_def has_prefix_iff)
qed simp

lemma verify_gate_group_grant:
  assumes "plain_grant g"
  shows "verify_gate_group s (grant_token s g) u grp ph now \<longleftrightarrow>
     grant_body g = ''gate-group:'' @ gate_group_binding u grp ph \<and> fresh g now"
proof -
  let ?e = "itoa (grant_time g + session_ttl)"
  have nb: "CHR ''|'' \<notin> set (grant_body g)" using assms by (simp add: plain_grant_def)
  then have "cut_prefix (grant_body g @ ''|'' @ ?e) ''gate-group:'' =
      map_option (\<lambda>r. r @ ''|'' @ ?e) (cut_prefix (grant_body g) ''gate-group:'')"
    using cut_prefix_bar [of "''gate-group:''" "grant_body g" ?e] by simp
  moreover have "CHR ''|'' \<notin> set r" if "cut_prefix (grant_body g) ''gate-group:'' = Some r" for r
    using that nb by (auto simp: cut_prefix_Some)
  ultimately show ?thesis
    using assms
    by (auto simp: verify_gate_group_def grant_token_seal tokens.unwrap_wrap plain_grant_def fresh_def
        parse_int_itoa cut_prefix_Some cut_at_char split: option.splits)
      (auto simp: cut_prefix_def)
qed

end
