(* ===== verification/SessionsProps.thy ===== *)
theory SessionsProps
  imports Sessions
begin

text \<open>
  The properties of the signed cookies: round trip and expiry, what each verifier accepts
  among the three kinds of tokens, and what a group grant is bound to.
\<close>

section \<open>Round trip\<close>

text \<open>
  C33: \<open>Verify\<close> returns the user id of a cookie that \<open>Issue\<close> made, up to and including the second
  in which it expires a week later, and refuses it afterwards.
\<close>

theorem session_roundtrip:
  assumes "CHR ''|'' \<notin> set userID" "in_int64 (t + session_ttl)"
  shows "verify s (issue s userID t) now =
    (if now \<le> t + session_ttl then Ok userID else Err InvalidSession)"
  using verify_grant [of "SessionGrant userID t" s now] assms
  by (simp add: plain_grant_def fresh_def)

theorem session_roundtrip_witness:
  "verify (new_sessions ''k'') (issue (new_sessions ''k'') ''u1'' 1000) 605800 = Ok ''u1'' \<and>
   verify (new_sessions ''k'') (issue (new_sessions ''k'') ''u1'' 1000) 605801 = Err InvalidSession"
proof -
  have h: "CHR ''|'' \<notin> set ''u1''" "in_int64 (1000 + session_ttl)"
    by (simp_all add: in_int64_def session_ttl_def max_int64_def min_int64_def)
  show ?thesis using session_roundtrip [OF h] by (simp add: session_ttl_def)
qed

section \<open>What the verifiers accept\<close>

definition plain_user :: "grant \<Rightarrow> bool" where
  "plain_user g = (case g of SessionGrant u t \<Rightarrow> CHR '':'' \<notin> set u | _ \<Rightarrow> True)"

lemma trim_body:
  assumes "plain_user g" "CHR '':'' \<notin> set h"
  shows "trim_prefix (grant_body g) ''gate:'' = h \<longleftrightarrow> (\<exists>t. g = HostGrant h t \<or> g = SessionGrant h t)"
proof (cases g)
  case (SessionGrant u t)
  then have "\<not> has_prefix u ''gate:''" using assms by (auto simp: has_prefix_iff plain_user_def)
  then show ?thesis using SessionGrant by (auto simp: trim_prefix_def)
next
  case (HostGrant k t)
  then show ?thesis using trim_prefix_append [of "''gate:''" k] by auto
next
  case (GroupGrant u g' p t)
  then show ?thesis using assms by (auto simp: trim_prefix_def)
qed

lemma gate_group_body:
  assumes "plain_user g"
  shows "grant_body g = ''gate-group:'' @ b \<longleftrightarrow> (\<exists>u grp ph t. g = GroupGrant u grp ph t \<and> gate_group_binding u grp ph = b)"
  using assms by (cases g) (auto simp: plain_user_def)

text \<open>
  C18: among the tokens the server signs, a host gate opens only for a grant issued for that very
  host (or for the session of a user whose id is the host name), and a group gate opens
  only for a group grant with the same binding; both only until the grant expires.
\<close>

theorem gate_grant_separation:
  assumes "plain_grant g" "plain_user g" "CHR '':'' \<notin> set host"
  shows "verify_gate s (grant_token s g) host now =
      (fresh g now \<and> (\<exists>t. g = HostGrant host t \<or> g = SessionGrant host t)) \<and>
    verify_gate_group s (grant_token s g) u grp ph now =
      (fresh g now \<and> (\<exists>u' grp' ph' t. g = GroupGrant u' grp' ph' t \<and>
         gate_group_binding u' grp' ph' = gate_group_binding u grp ph))"
  using trim_body [OF assms(2,3)] gate_group_body [OF assms(2)] verify_gate_grant [OF assms(1)]
    verify_gate_group_grant [OF assms(1)] by auto

theorem gate_grant_separation_witness:
  "verify_gate (new_sessions ''k'') (grant_token (new_sessions ''k'') (HostGrant ''shop'' 0)) ''shop'' 5 \<and>
   \<not> verify_gate (new_sessions ''k'') (grant_token (new_sessions ''k'') (HostGrant ''shop'' 0)) ''blog'' 5 \<and>
   \<not> verify_gate_group (new_sessions ''k'') (grant_token (new_sessions ''k'') (HostGrant ''shop'' 0)) ''u'' ''g'' ''p'' 5"
proof -
  have p: "plain_grant (HostGrant ''shop'' 0)" "plain_user (HostGrant ''shop'' 0)"
    by (simp_all add: plain_grant_def plain_user_def in_int64_def session_ttl_def max_int64_def min_int64_def)
  show ?thesis
    using gate_grant_separation [OF p, of "''shop''"] gate_grant_separation [OF p, of "''blog''"]
    by (simp add: fresh_def session_ttl_def)
qed

text \<open>
  C11: \<open>Verify\<close> takes a tunnel unlock token for a browser session: the user id it returns is
  \<open>gate:\<close> and the host. Nothing in a token separates the purposes it was signed for.
\<close>

theorem verify_accepts_gate_token:
  assumes "CHR ''|'' \<notin> set host" "in_int64 (t + session_ttl)" "now \<le> t + session_ttl"
  shows "verify s (issue_gate s host t) now = Ok (''gate:'' @ host)"
  using verify_grant [of "HostGrant host t" s now] assms
  by (simp add: plain_grant_def fresh_def)

theorem verify_accepts_gate_token_witness:
  "verify (new_sessions ''k'') (issue_gate (new_sessions ''k'') ''shop'' 0) 5 = Ok ''gate:shop''"
  using verify_accepts_gate_token [of "''shop''" 0 5 "new_sessions ''k''"]
  by (simp add: in_int64_def session_ttl_def max_int64_def min_int64_def)

section \<open>Group bindings\<close>

lemma cut_nul: "nul \<notin> set u \<Longrightarrow> cut_at (gate_group_input u g p) [nul] = Some (u, g @ nul # p)"
  by (simp add: gate_group_input_def cut_at_char)

lemma gate_group_input_inj:
  assumes "nul \<notin> set u" "nul \<notin> set u'" "length p = length p'"
  shows "gate_group_input u g p = gate_group_input u' g' p' \<longleftrightarrow> u = u' \<and> g = g' \<and> p = p'"
proof
  assume "gate_group_input u g p = gate_group_input u' g' p'"
  then have "Some (u, g @ nul # p) = Some (u', g' @ nul # p')"
    using cut_nul [OF assms(1), of g p] cut_nul [OF assms(2), of g' p'] by simp
  then show "u = u' \<and> g = g' \<and> p = p'" using assms(3) by simp
qed simp

text \<open>
  A group grant opens a group gate only when the owner, the group and the hash of the shared
  secret are the ones it was issued for, or when SHA-256 maps two different inputs that the
  theorem names to the same digest. The group name is chosen by the client and may hold any
  bytes; owner ids have no NUL byte and secret hashes all have the same length.
\<close>

theorem gate_group_bound:
  assumes "plain_grant (GroupGrant u g p t)" "nul \<notin> set u" "nul \<notin> set u'" "length p = length p'"
    and "verify_gate_group s (issue_gate_group s u g p t) u' g' p' now"
  shows "(u = u' \<and> g = g' \<and> p = p') \<or>
    (gate_group_input u g p \<noteq> gate_group_input u' g' p' \<and>
     sha256 (gate_group_input u g p) = sha256 (gate_group_input u' g' p'))"
proof -
  have "gate_group_binding u g p = gate_group_binding u' g' p'"
    using verify_gate_group_grant [OF assms(1), of s u' g' p' now] assms(5) by simp
  then have "sha256 (gate_group_input u g p) = sha256 (gate_group_input u' g' p')"
    by (simp add: gate_group_binding_def hex_encode_inj)
  then show ?thesis using gate_group_input_inj [OF assms(2-4), of g g'] by blast
qed

lemma gate_group_binding_plain: "CHR ''|'' \<notin> set (gate_group_binding u g p)"
  unfolding gate_group_binding_def by (rule hex_encode_no) (simp add: is_hex_digit_def is_digit_def)

lemma plain_group_grant: "in_int64 (t + session_ttl) \<Longrightarrow> plain_grant (GroupGrant u g p t)"
  by (simp add: plain_grant_def gate_group_binding_plain)

theorem gate_group_bound_witness:
  "verify_gate_group (new_sessions ''k'') (issue_gate_group (new_sessions ''k'') ''u'' ''g'' ''p'' 0) ''u'' ''g'' ''p'' 5 \<and>
   (''u'' = ''u'' \<and> ''g'' = ''g'' \<and> ''p'' = ''p'' \<or>
    gate_group_input ''u'' ''g'' ''p'' \<noteq> gate_group_input ''u'' ''g'' ''p'' \<and>
    sha256 (gate_group_input ''u'' ''g'' ''p'') = sha256 (gate_group_input ''u'' ''g'' ''p''))"
proof -
  have p: "plain_grant (GroupGrant ''u'' ''g'' ''p'' 0)"
    by (rule plain_group_grant) (simp add: in_int64_def session_ttl_def max_int64_def min_int64_def)
  have v: "verify_gate_group (new_sessions ''k'') (issue_gate_group (new_sessions ''k'') ''u'' ''g'' ''p'' 0) ''u'' ''g'' ''p'' 5"
    using verify_gate_group_grant [OF p, of "new_sessions ''k''" "''u''" "''g''" "''p''" 5]
    by (simp add: fresh_def session_ttl_def)
  show ?thesis using v gate_group_bound [OF p _ _ _ v] by (simp add: nul_def)
qed

end
