(* ===== verification/Http.thy ===== *)
theory Http
  imports Sessions
begin

text \<open>
  What the relay uses of \<open>net/http\<close> and \<open>net/url\<close>: query strings, cookie headers and basic
  authentication, and the relay's own filters over them (\<open>stripGateCookies\<close>,
  \<open>removeQueryParam\<close> and \<open>stripPort\<close> of \<open>backend/main.go\<close>).
\<close>

section \<open>Queries\<close>

definition hex_val :: "char \<Rightarrow> nat option" where
  "hex_val c =
     (if is_digit c then Some (code_of c - 48)
      else if 97 \<le> code_of c \<and> code_of c \<le> 102 then Some (code_of c - 87)
      else if 65 \<le> code_of c \<and> code_of c \<le> 70 then Some (code_of c - 55)
      else None)"

text \<open>\<open>url.QueryUnescape\<close>.\<close>

fun query_unescape :: "string \<Rightarrow> string option" where
  "query_unescape [] = Some []"
| "query_unescape (c # s) =
     (if c = CHR ''%'' then
        (case s of
           a # b # t \<Rightarrow>
             (case (hex_val a, hex_val b) of
                (Some x, Some y) \<Rightarrow> map_option (\<lambda>r. char_of (16 * x + y) # r) (query_unescape t)
              | _ \<Rightarrow> None)
         | _ \<Rightarrow> None)
      else map_option (\<lambda>r. (if c = CHR ''+'' then CHR '' '' else c) # r) (query_unescape s))"

text \<open>\<open>strings.Cut\<close> with the code's default when the separator is missing: everything before it.\<close>

definition cut_or_all :: "string \<Rightarrow> char \<Rightarrow> string \<times> string" where
  "cut_or_all s c = (case cut_at s [c] of None \<Rightarrow> (s, []) | Some p \<Rightarrow> p)"

definition query_part :: "string \<Rightarrow> (string \<times> string) option" where
  "query_part part =
     (if CHR '';'' \<in> set part \<or> part = [] then None
      else let (k, v) = cut_or_all part CHR ''='' in
        (case (query_unescape k, query_unescape v) of
           (Some k', Some v') \<Rightarrow> Some (k', v')
         | _ \<Rightarrow> None))"

text \<open>\<open>r.URL.Query()\<close> as the list of its pairs, and \<open>Get\<close>, the first value or the empty string.\<close>

definition query_pairs :: "string \<Rightarrow> (string \<times> string) list" where
  "query_pairs raw = List.map_filter query_part (str_split CHR ''&'' raw)"

definition query_get :: "string \<Rightarrow> string \<Rightarrow> string" where
  "query_get raw key = (case map_of (query_pairs raw) key of None \<Rightarrow> [] | Some v \<Rightarrow> v)"

definition drops_param :: "string \<Rightarrow> string \<Rightarrow> bool" where
  "drops_param target part = (query_unescape (fst (cut_or_all part CHR ''='')) = Some target)"

definition remove_query_param :: "string \<Rightarrow> string \<Rightarrow> string" where
  "remove_query_param rawQuery target =
     str_join ''&'' (filter (\<lambda>part. \<not> drops_param target part) (str_split CHR ''&'' rawQuery))"

lemma map_filter_append: "List.map_filter f (xs @ ys) = List.map_filter f xs @ List.map_filter f ys"
  by (simp add: List.map_filter_def)

lemma query_pairs_remove:
  "query_pairs (remove_query_param raw target) = filter (\<lambda>p. fst p \<noteq> target) (query_pairs raw)"
proof -
  let ?ps = "str_split CHR ''&'' raw"
  let ?ks = "filter (\<lambda>part. \<not> drops_param target part) ?ps"
  have "query_pairs (str_join ''&'' ?ks) = List.map_filter query_part ?ks"
  proof (cases "?ks = []")
    case True
    have "query_pairs [] = []" by (simp add: query_pairs_def List.map_filter_def query_part_def)
    moreover have "List.map_filter query_part ?ks = []" by (simp only: True) (simp add: List.map_filter_def)
    ultimately show ?thesis using True by simp
  next
    case False
    then have "str_split CHR ''&'' (str_join ''&'' ?ks) = ?ks"
      by (rule str_split_join) (auto dest: str_split_no_sep)
    then show ?thesis by (simp add: query_pairs_def)
  qed
  moreover have "List.map_filter query_part (filter (\<lambda>part. \<not> drops_param target part) ps) =
      filter (\<lambda>p. fst p \<noteq> target) (List.map_filter query_part ps)" for ps
  proof (induction ps)
    case Nil
    then show ?case by (simp add: List.map_filter_def)
  next
    case (Cons part ps)
    have "drops_param target part \<longleftrightarrow> k = target" if "query_part part = Some (k, v)" for k v
      using that by (auto simp: query_part_def drops_param_def Let_def case_prod_unfold split: if_splits option.splits)
    then show ?case
      using Cons by (cases "query_part part") (auto simp: List.map_filter_simps)
  qed
  ultimately show ?thesis by (simp add: remove_query_param_def query_pairs_def)
qed

section \<open>Cookies\<close>

definition is_http_space :: "char \<Rightarrow> bool" where
  "is_http_space c = (code_of c = 32 \<or> code_of c = 9 \<or> code_of c = 10 \<or> code_of c = 13)"

definition is_token_char :: "char \<Rightarrow> bool" where
  "is_token_char c = (is_digit c \<or> is_lower c \<or> is_upper c \<or>
     code_of c \<in> {33, 35, 36, 37, 38, 39, 42, 43, 45, 46, 94, 95, 96, 124, 126})"

definition is_token :: "string \<Rightarrow> bool" where
  "is_token s = (s \<noteq> [] \<and> list_all is_token_char s)"

definition valid_cookie_byte :: "char \<Rightarrow> bool" where
  "valid_cookie_byte c = (32 \<le> code_of c \<and> code_of c < 127 \<and> code_of c \<noteq> 34 \<and> code_of c \<noteq> 59 \<and> code_of c \<noteq> 92)"

definition parse_cookie_value :: "string \<Rightarrow> string option" where
  "parse_cookie_value v =
     (let w = (if 1 < length v \<and> code_of (hd v) = 34 \<and> code_of (last v) = 34 then butlast (tl v) else v)
      in if list_all valid_cookie_byte w then Some w else None)"

text \<open>One part of a \<open>Cookie\<close> header line, as \<open>readCookies\<close> reads it.\<close>

definition cookie_part :: "string \<Rightarrow> (string \<times> string) option" where
  "cookie_part part =
     (let p = trim_both is_http_space part; (n, v) = cut_or_all p CHR ''='';
          name = trim_both is_http_space n
      in if p = [] \<or> \<not> is_token name then None
         else map_option (\<lambda>w. (name, w)) (parse_cookie_value v))"

definition read_cookies :: "string list \<Rightarrow> (string \<times> string) list" where
  "read_cookies lns = concat (map (\<lambda>l. List.map_filter cookie_part (str_split CHR '';'' l)) lns)"

text \<open>\<open>r.Cookie(name)\<close>: the first cookie of that name.\<close>

definition cookie_get :: "string list \<Rightarrow> string \<Rightarrow> string option" where
  "cookie_get lns name = map_of (read_cookies lns) name"

definition is_gate_part :: "string \<Rightarrow> bool" where
  "is_gate_part part = (case cut_at part ''='' of
     None \<Rightarrow> False | Some (name, _) \<Rightarrow> is_gate_cookie_name (trim_space name))"

definition kept_parts :: "string \<Rightarrow> string list" where
  "kept_parts line = filter (\<lambda>p. \<not> is_gate_part p \<and> p \<noteq> []) (map trim_space (str_split CHR '';'' line))"

definition strip_gate_cookies :: "string list \<Rightarrow> string list" where
  "strip_gate_cookies lns = map (str_join ''; '') (filter (\<lambda>k. k \<noteq> []) (map kept_parts lns))"

text \<open>
  The server refuses requests whose header values hold control characters other than the tab;
  the model of \<open>strings.TrimSpace\<close> is the one for ASCII.
\<close>

definition header_text :: "string \<Rightarrow> bool" where
  "header_text s = list_all (\<lambda>c. code_of c = 9 \<or> (32 \<le> code_of c \<and> code_of c < 127)) s"

lemma trim_both_cong:
  assumes "\<And>c. c \<in> set s \<Longrightarrow> P c = Q c"
  shows "trim_both P s = trim_both Q s"
proof -
  have l: "dropWhile P s = dropWhile Q s" using assms by (auto intro: dropWhile_cong)
  have "set (dropWhile Q s) \<subseteq> set s" by (auto dest: set_dropWhileD)
  then have "dropWhile P (rev (dropWhile Q s)) = dropWhile Q (rev (dropWhile Q s))"
    using assms by (intro dropWhile_cong) auto
  then show ?thesis by (simp add: trim_both_def trim_left_def trim_right_def l)
qed

lemma trim_space_http: "header_text s \<Longrightarrow> trim_space s = trim_both is_http_space s"
  unfolding trim_space_def
  by (rule trim_both_cong) (auto simp: header_text_def list_all_iff is_space_def is_http_space_def)

lemma header_text_sub: "header_text s \<Longrightarrow> set t \<subseteq> set s \<Longrightarrow> header_text t"
  by (auto simp: header_text_def list_all_iff)

lemma trim_both_idem [simp]: "trim_both P (trim_both P s) = trim_both P s"
  by (rule trim_both_id) (use trim_both_edges in blast)

lemma trim_both_Cons [simp]: "P c \<Longrightarrow> trim_both P (c # s) = trim_both P s"
  by (simp add: trim_both_def trim_left_def)

lemma cookie_part_trim: "header_text p \<Longrightarrow> cookie_part (trim_space p) = cookie_part p"
  by (simp add: cookie_part_def trim_space_http)

lemma cookie_part_blank: "cookie_part (CHR '' '' # p) = cookie_part p"
  by (simp add: cookie_part_def is_http_space_def)

lemma cookie_part_Nil: "cookie_part [] = None"
  by (simp add: cookie_part_def trim_both_def trim_left_def trim_right_def)

lemma split_join_semi:
  "\<forall>k\<in>set (k0 # ks). CHR '';'' \<notin> set k \<Longrightarrow>
     str_split CHR '';'' (str_join ''; '' (k0 # ks)) = k0 # map (\<lambda>k. CHR '' '' # k) ks"
proof (induction ks arbitrary: k0)
  case Nil
  then show ?case by (simp add: str_split_word)
next
  case (Cons k ks)
  have "str_split CHR '';'' (CHR '' '' # str_join ''; '' (k # ks)) = (CHR '' '' # k) # map (\<lambda>k. CHR '' '' # k) ks"
    using Cons by simp
  then show ?case
    using Cons.prems str_split_append_sep [of "CHR '';''" k0 "CHR '' '' # str_join ''; '' (k # ks)"]
    by (simp add: str_split_word)
qed

lemma cookies_of_joined:
  assumes "ks \<noteq> []" "\<forall>k\<in>set ks. CHR '';'' \<notin> set k"
  shows "List.map_filter cookie_part (str_split CHR '';'' (str_join ''; '' ks)) = List.map_filter cookie_part ks"
proof -
  obtain k0 ks' where ks: "ks = k0 # ks'" using assms(1) by (cases ks) auto
  have "List.map_filter cookie_part (map (\<lambda>k. CHR '' '' # k) xs) = List.map_filter cookie_part xs" for xs
    by (induction xs) (simp_all add: List.map_filter_simps cookie_part_blank split: option.split)
  then show ?thesis using split_join_semi [of k0 ks'] assms(2)
    by (simp add: ks List.map_filter_simps split: option.split)
qed

lemma read_cookies_strip:
  "read_cookies (strip_gate_cookies lns) = concat (map (\<lambda>l. List.map_filter cookie_part (kept_parts l)) lns)"
proof (induction lns)
  case Nil
  then show ?case by (simp add: read_cookies_def strip_gate_cookies_def)
next
  case (Cons l lns)
  have nosep: "\<forall>k\<in>set (kept_parts l). CHR '';'' \<notin> set k"
    unfolding kept_parts_def trim_space_def
    by (auto dest!: set_trim_both [THEN subsetD] dest: str_split_no_sep)
  show ?case
  proof (cases "kept_parts l = []")
    case True
    with Cons show ?thesis by (simp add: read_cookies_def strip_gate_cookies_def List.map_filter_simps)
  next
    case False
    with Cons cookies_of_joined [OF False nosep] show ?thesis
      by (simp add: read_cookies_def strip_gate_cookies_def)
  qed
qed

lemma gate_part_name:
  assumes "header_text q" "cookie_part q = Some (n, v)" "trim_space q = q"
  shows "is_gate_part q \<Longrightarrow> is_gate_cookie_name n" and "\<not> is_gate_part q \<Longrightarrow> is_gate_cookie_name n \<Longrightarrow> v = []"
proof -
  have t: "trim_both is_http_space q = q" using assms by (simp add: trim_space_http)
  have n: "n = trim_both is_http_space (fst (cut_or_all q CHR ''=''))"
    and v: "parse_cookie_value (snd (cut_or_all q CHR ''='')) = Some v"
    using assms(2) by (auto simp: cookie_part_def t Let_def case_prod_unfold split: if_splits)
  have sub: "header_text a" if "cut_at q ''='' = Some (a, b)" for a b
    using that assms(1) by (auto simp: cut_at_char_Some header_text_def)
  show "is_gate_part q \<Longrightarrow> is_gate_cookie_name n"
    using n sub by (auto simp: is_gate_part_def cut_or_all_def trim_space_http split: option.splits)
  show "\<not> is_gate_part q \<Longrightarrow> is_gate_cookie_name n \<Longrightarrow> v = []"
    using n v sub
    by (auto simp: is_gate_part_def cut_or_all_def trim_space_http parse_cookie_value_def split: option.splits)
qed

lemma header_text_trim: "header_text p \<Longrightarrow> header_text (trim_space p)"
  unfolding trim_space_def by (rule header_text_sub [OF _ set_trim_both])

lemma trim_space_idem [simp]: "trim_space (trim_space p) = trim_space p"
  by (simp add: trim_space_def)

lemma kept_cookies:
  assumes "\<forall>p\<in>set ps. header_text p"
  shows "filter (\<lambda>c. \<not> is_gate_cookie_name (fst c))
       (List.map_filter cookie_part (filter (\<lambda>p. \<not> is_gate_part p \<and> p \<noteq> []) (map trim_space ps))) =
     filter (\<lambda>c. \<not> is_gate_cookie_name (fst c)) (List.map_filter cookie_part ps)"
    and "\<forall>c\<in>set (List.map_filter cookie_part (filter (\<lambda>p. \<not> is_gate_part p \<and> p \<noteq> []) (map trim_space ps))).
       is_gate_cookie_name (fst c) \<longrightarrow> snd c = []"
  using assms
proof (induction ps)
  case Nil
  case 1
  then show ?case by (simp add: List.map_filter_simps)
next
  case Nil
  case 2
  then show ?case by (simp add: List.map_filter_simps)
next
  case (Cons p ps)
  let ?q = "trim_space p"
  {
    case 1
    then have h: "header_text p" and eq: "cookie_part ?q = cookie_part p" by (auto simp: cookie_part_trim)
    note g = gate_part_name [OF header_text_trim [OF h]]
    show ?case
      using Cons(1) 1 eq g cookie_part_Nil
      by (cases "cookie_part p") (auto simp: List.map_filter_simps)
  next
    case 2
    then have h: "header_text p" and eq: "cookie_part ?q = cookie_part p" by (auto simp: cookie_part_trim)
    note g = gate_part_name [OF header_text_trim [OF h]]
    show ?case
      using Cons(2) 2 eq g
      by (cases "cookie_part p") (auto simp: List.map_filter_simps)
  }
qed

lemma header_text_parts: "header_text l \<Longrightarrow> p \<in> set (str_split CHR '';'' l) \<Longrightarrow> header_text p"
  by (rule header_text_sub) (auto dest: set_str_split_sub)

lemma kept_cookies_line:
  assumes "header_text l"
  shows "filter (\<lambda>c. \<not> is_gate_cookie_name (fst c)) (List.map_filter cookie_part (kept_parts l)) =
      filter (\<lambda>c. \<not> is_gate_cookie_name (fst c)) (List.map_filter cookie_part (str_split CHR '';'' l))"
    and "c \<in> set (List.map_filter cookie_part (kept_parts l)) \<Longrightarrow> is_gate_cookie_name (fst c) \<Longrightarrow> snd c = []"
proof -
  have h: "\<forall>p\<in>set (str_split CHR '';'' l). header_text p" using assms header_text_parts by blast
  show "filter (\<lambda>c. \<not> is_gate_cookie_name (fst c)) (List.map_filter cookie_part (kept_parts l)) =
      filter (\<lambda>c. \<not> is_gate_cookie_name (fst c)) (List.map_filter cookie_part (str_split CHR '';'' l))"
    unfolding kept_parts_def by (rule kept_cookies(1) [OF h])
  show "c \<in> set (List.map_filter cookie_part (kept_parts l)) \<Longrightarrow> is_gate_cookie_name (fst c) \<Longrightarrow> snd c = []"
    using kept_cookies(2) [OF h] unfolding kept_parts_def by blast
qed

text \<open>The application's own cookies survive in order, and no value under a gate name does.\<close>

lemma strip_gate_cookies_exact:
  assumes "\<forall>l\<in>set lns. header_text l"
  shows "filter (\<lambda>c. \<not> is_gate_cookie_name (fst c)) (read_cookies (strip_gate_cookies lns)) =
      filter (\<lambda>c. \<not> is_gate_cookie_name (fst c)) (read_cookies lns)"
    and "c \<in> set (read_cookies (strip_gate_cookies lns)) \<Longrightarrow> is_gate_cookie_name (fst c) \<Longrightarrow> snd c = []"
proof -
  show "filter (\<lambda>c. \<not> is_gate_cookie_name (fst c)) (read_cookies (strip_gate_cookies lns)) =
      filter (\<lambda>c. \<not> is_gate_cookie_name (fst c)) (read_cookies lns)"
    unfolding read_cookies_strip unfolding read_cookies_def
    using assms by (induction lns) (simp_all add: kept_cookies_line(1))
  show "c \<in> set (read_cookies (strip_gate_cookies lns)) \<Longrightarrow> is_gate_cookie_name (fst c) \<Longrightarrow> snd c = []"
    using assms kept_cookies_line(2) [of _ c] unfolding read_cookies_strip set_concat set_map by blast
qed

section \<open>Basic authentication\<close>

definition b64_std_alphabet :: string where
  "b64_std_alphabet = ''ABCDEFGHIJKLMNOPQRSTUVWXYZabcdefghijklmnopqrstuvwxyz0123456789+/''"

definition b64_std_val :: "char \<Rightarrow> nat option" where
  "b64_std_val c = map_of (zip b64_std_alphabet [0..<64]) c"

text \<open>\<open>base64.StdEncoding\<close> requires padding to a multiple of four characters.\<close>

definition b64_std_decode :: "string \<Rightarrow> string option" where
  "b64_std_decode s =
     (let t = filter (\<lambda>c. code_of c \<noteq> 10 \<and> code_of c \<noteq> 13) s;
          body = (if has_suffix t ''=='' then take (length t - 2) t
                  else if has_suffix t ''='' then take (length t - 1) t else t)
      in if length t mod 4 \<noteq> 0 \<or> list_ex (\<lambda>c. b64_std_val c = None) body then None
         else b64_groups (map (\<lambda>c. the (b64_std_val c)) body))"

text \<open>\<open>r.BasicAuth()\<close> on the first \<open>Authorization\<close> header, empty when absent.\<close>

definition basic_auth :: "string \<Rightarrow> (string \<times> string) option" where
  "basic_auth authorization =
     (if length authorization < 6 \<or> to_lower (take 6 authorization) \<noteq> ''basic '' then None
      else case b64_std_decode (drop 6 authorization) of
          None \<Rightarrow> None
        | Some cs \<Rightarrow> cut_at cs '':'')"

definition strip_port :: "string \<Rightarrow> string" where
  "strip_port host = (case cut_at host '':'' of None \<Rightarrow> host | Some (a, _) \<Rightarrow> a)"

end
