(* ===== verification/Limiter.thy ===== *)
theory Limiter
  imports GoStrings
begin

text \<open>
  \<open>backend/internal/auth/limiter.go\<close>: the in-memory sliding-window rate limiter that guards
  signup, login and tunnel-gate attempts, its specification as a log of the allowed attempts,
  and \<open>ClientIP\<close>. Times are \<open>time.Now()\<close> readings in nanoseconds on the monotonic clock.
\<close>

section \<open>State and operations\<close>

record limiter =
  l_window :: int
  l_max :: int
  l_hits :: "(string, int list) gomap"
  l_last_gc :: int

definition new_limiter :: "int \<Rightarrow> int \<Rightarrow> int \<Rightarrow> limiter" where
  "new_limiter window mx now = \<lparr>l_window = window, l_max = mx, l_hits = [], l_last_gc = now\<rparr>"

text \<open>\<open>time.Minute\<close>.\<close>

definition minute :: int where "minute = 60000000000"

text \<open>The loops that rebuild a slice in place over \<open>hits[:0]\<close>.\<close>

definition keep_after :: "int \<Rightarrow> int list \<Rightarrow> int list" where
  "keep_after cutoff hits = filter (\<lambda>h. cutoff < h) hits"

definition gc_hits :: "int \<Rightarrow> (string, int list) gomap \<Rightarrow> (string, int list) gomap" where
  "gc_hits cutoff m = filter (\<lambda>(k, hs). hs \<noteq> []) (map (\<lambda>(k, hs). (k, keep_after cutoff hs)) m)"

definition hits_of :: "(string, int list) gomap \<Rightarrow> string \<Rightarrow> int list" where
  "hits_of m key = (case map_of m key of None \<Rightarrow> [] | Some hs \<Rightarrow> hs)"

definition allow :: "limiter \<Rightarrow> string \<Rightarrow> int \<Rightarrow> limiter \<times> bool" where
  "allow l key now =
     (let cutoff = now - l_window l;
          l1 = (if minute < now - l_last_gc l
                then l\<lparr>l_hits := gc_hits cutoff (l_hits l), l_last_gc := now\<rparr> else l);
          hits = keep_after cutoff (hits_of (l_hits l1) key)
      in if l_max l1 \<le> int (length hits) then (l1\<lparr>l_hits := gput key hits (l_hits l1)\<rparr>, False)
         else (l1\<lparr>l_hits := gput key (hits @ [now]) (l_hits l1)\<rparr>, True))"

section \<open>Specification\<close>

text \<open>All attempts that were allowed, and the time of the last attempt.\<close>

record allowed_log =
  al_last :: int
  al_log :: "(string \<times> int) list"

definition times_of :: "(string \<times> int) list \<Rightarrow> string \<Rightarrow> int list" where
  "times_of lg key = map snd (filter (\<lambda>p. fst p = key) lg)"

definition spec_allow :: "int \<Rightarrow> int \<Rightarrow> allowed_log \<Rightarrow> string \<times> int \<Rightarrow> allowed_log \<times> bool" where
  "spec_allow window mx a kt =
     (let (key, now) = kt;
          recent = filter (\<lambda>t. now - window < t) (times_of (al_log a) key);
          ok = int (length recent) < mx
      in (\<lparr>al_last = now, al_log = al_log a @ (if ok then [kt] else [])\<rparr>, ok))"

definition clock_ok :: "allowed_log \<Rightarrow> string \<times> int \<Rightarrow> bool" where
  "clock_ok a kt = (al_last a \<le> snd kt)"

definition limiter_sim :: "int \<Rightarrow> int \<Rightarrow> limiter \<Rightarrow> allowed_log \<Rightarrow> bool" where
  "limiter_sim window mx l a \<longleftrightarrow> l_window l = window \<and> l_max l = mx \<and> wf_gomap (l_hits l) \<and>
     (\<forall>key c. al_last a - window \<le> c \<longrightarrow> keep_after c (hits_of (l_hits l) key) = keep_after c (times_of (al_log a) key))"

section \<open>The simulation\<close>

lemma keep_after_keep_after: "keep_after c (keep_after d hs) = keep_after (max c d) hs"
  by (auto simp: keep_after_def intro: filter_cong)

lemma keep_after_le [simp]: "c \<le> d \<Longrightarrow> keep_after d (keep_after c hs) = keep_after d hs"
  by (simp add: keep_after_keep_after max_def)

lemma hits_of_put [simp]: "hits_of (gput k v m) k' = (if k' = k then v else hits_of m k')"
  by (simp add: hits_of_def)

lemma map_of_map_snd: "map_of (map (\<lambda>(k, v). (k, f v)) m) k = map_option f (map_of m k)"
  by (induction m) auto

lemma wf_gc_hits: "wf_gomap m \<Longrightarrow> wf_gomap (gc_hits c m)"
  by (auto simp: gc_hits_def wf_gomap_def case_prod_unfold comp_def intro!: distinct_map_filter)

lemma map_of_filter_ne:
  "wf_gomap m \<Longrightarrow> map_of (filter (\<lambda>(k, hs). hs \<noteq> []) m) k = (case map_of m k of Some [] \<Rightarrow> None | x \<Rightarrow> x)"
proof (induction m)
  case Nil
  then show ?case by simp
next
  case (Cons p m)
  then have "wf_gomap m" and n: "map_of m (fst p) = None"
    by (auto simp: wf_gomap_def map_of_eq_None_iff)
  with Cons show ?case by (cases p) (auto split: option.split list.split)
qed

lemma hits_of_gc [simp]: "wf_gomap m \<Longrightarrow> hits_of (gc_hits c m) key = keep_after c (hits_of m key)"
proof -
  assume w: "wf_gomap m"
  then have "wf_gomap (map (\<lambda>(k, hs). (k, keep_after c hs)) m)"
    by (simp add: wf_gomap_def case_prod_unfold comp_def)
  then have "map_of (gc_hits c m) key =
      (case map_option (keep_after c) (map_of m key) of Some [] \<Rightarrow> None | x \<Rightarrow> x)"
    unfolding gc_hits_def by (simp add: map_of_filter_ne map_of_map_snd)
  then show ?thesis
    by (cases "map_of m key") (auto simp: hits_of_def keep_after_def split: list.split)
qed

lemma times_of_append [simp]:
  "times_of (lg @ [(k, t)]) key = times_of lg key @ (if k = key then [t] else [])"
  by (simp add: times_of_def)

lemma keep_after_append [simp]: "keep_after c (xs @ ys) = keep_after c xs @ keep_after c ys"
  by (simp add: keep_after_def)

lemma allow_hits:
  assumes "limiter_sim w mx l a" "al_last a \<le> now"
  shows "keep_after (now - w) (hits_of (l_hits (fst (allow l key now))) k) =
     keep_after (now - w) (times_of (al_log a) k) @
       (if k = key \<and> snd (allow l key now) \<and> 0 < w then [now] else [])"
    and "snd (allow l key now) \<longleftrightarrow> int (length (keep_after (now - w) (times_of (al_log a) key))) < mx"
    and "l_window (fst (allow l key now)) = w \<and> l_max (fst (allow l key now)) = mx \<and>
      wf_gomap (l_hits (fst (allow l key now)))"
proof -
  have l: "l_window l = w" "l_max l = mx" "wf_gomap (l_hits l)"
    and h: "keep_after (now - w) (hits_of (l_hits l) k) = keep_after (now - w) (times_of (al_log a) k)" for k
    using assms by (auto simp: limiter_sim_def)
  show "keep_after (now - w) (hits_of (l_hits (fst (allow l key now))) k) =
     keep_after (now - w) (times_of (al_log a) k) @
       (if k = key \<and> snd (allow l key now) \<and> 0 < w then [now] else [])"
    using l h by (simp add: allow_def Let_def) (simp add: keep_after_def)
  show "snd (allow l key now) \<longleftrightarrow> int (length (keep_after (now - w) (times_of (al_log a) key))) < mx"
    using l h by (auto simp: allow_def Let_def)
  show "l_window (fst (allow l key now)) = w \<and> l_max (fst (allow l key now)) = mx \<and>
      wf_gomap (l_hits (fst (allow l key now)))"
    using l by (simp add: allow_def Let_def wf_gc_hits)
qed

lemma allow_spec:
  assumes "limiter_sim w mx l a" "al_last a \<le> now"
  shows "snd (allow l key now) = snd (spec_allow w mx a (key, now))"
    and "limiter_sim w mx (fst (allow l key now)) (fst (spec_allow w mx a (key, now)))"
proof -
  show out: "snd (allow l key now) = snd (spec_allow w mx a (key, now))"
    using allow_hits(2) [OF assms] by (simp add: spec_allow_def Let_def keep_after_def)
  let ?l = "fst (allow l key now)" let ?a = "fst (spec_allow w mx a (key, now))"
  have base: "keep_after (now - w) (hits_of (l_hits ?l) k) = keep_after (now - w) (times_of (al_log ?a) k)" for k
    using allow_hits(1) [OF assms, of key k] out
    by (simp add: spec_allow_def Let_def) (auto simp: keep_after_def)
  have "keep_after c (hits_of (l_hits ?l) k) = keep_after c (times_of (al_log ?a) k)" if "now - w \<le> c" for c k
    using arg_cong [OF base, of "keep_after c" k] that by simp
  then show "limiter_sim w mx ?l ?a"
    using allow_hits(3) [OF assms] by (simp add: limiter_sim_def spec_allow_def Let_def)
qed

interpretation limiter: io_refinement "\<lambda>l kt. allow l (fst kt) (snd kt)" "spec_allow w mx" clock_ok "limiter_sim w mx"
  for w mx
  by unfold_locales (auto simp: clock_ok_def allow_spec)

lemma limiter_sim_start: "limiter_sim w mx (new_limiter w mx t0) \<lparr>al_last = t0, al_log = []\<rparr>"
  by (simp add: limiter_sim_def new_limiter_def hits_of_def times_of_def)

lemma spec_guard_sorted:
  "sorted (al_last a # map snd kts) \<Longrightarrow> run_guard (spec_allow w mx) clock_ok a kts"
  by (induction kts arbitrary: a) (auto simp: clock_ok_def spec_allow_def Let_def)

section \<open>The window bound of the specification\<close>

definition spec_log :: "int \<Rightarrow> int \<Rightarrow> int \<Rightarrow> (string \<times> int) list \<Rightarrow> (string \<times> int) list" where
  "spec_log w mx t0 kts = al_log (fst (run_io (spec_allow w mx) \<lparr>al_last = t0, al_log = []\<rparr> kts))"

definition in_window :: "int \<Rightarrow> int \<Rightarrow> int list \<Rightarrow> int list" where
  "in_window w t ts = filter (\<lambda>x. t - w < x \<and> x \<le> t) ts"

lemma in_window_append [simp]: "in_window w t (xs @ ys) = in_window w t xs @ in_window w t ys"
  by (simp add: in_window_def)

lemma in_window_Nil [simp]: "in_window w t [] = []"
  by (simp add: in_window_def)

definition bounded_log :: "int \<Rightarrow> int \<Rightarrow> allowed_log \<Rightarrow> bool" where
  "bounded_log w mx a \<longleftrightarrow> (\<forall>p\<in>set (al_log a). snd p \<le> al_last a) \<and>
     (\<forall>key t. int (length (in_window w t (times_of (al_log a) key))) \<le> mx)"

lemma bounded_log_step:
  assumes b: "bounded_log w mx a" and c: "clock_ok a kt" and w: "0 < w"
  shows "bounded_log w mx (fst (spec_allow w mx a kt))"
proof -
  obtain key now where kt: "kt = (key, now)" by (cases kt)
  let ?recent = "filter (\<lambda>t. now - w < t) (times_of (al_log a) key)"
  have le: "\<And>p. p \<in> set (al_log a) \<Longrightarrow> snd p \<le> now" using b c by (fastforce simp: bounded_log_def clock_ok_def kt)
  have new: "int (length (in_window w t (times_of (al_log a) key @ [now]))) \<le> mx" if "int (length ?recent) < mx" for t
  proof (cases "t - w < now \<and> now \<le> t")
    case True
    then have "in_window w t (times_of (al_log a) key) = filter (\<lambda>x. t - w < x) ?recent"
      using le by (auto simp: in_window_def times_of_def intro!: filter_cong) fastforce
    then have "length (in_window w t (times_of (al_log a) key)) \<le> length ?recent" by (metis length_filter_le)
    with that True show ?thesis by (simp add: in_window_def)
  next
    case False
    then have "in_window w t [now] = []" by (simp add: in_window_def)
    with b show ?thesis by (simp add: bounded_log_def)
  qed
  then show ?thesis
    using b le by (auto simp: bounded_log_def spec_allow_def Let_def kt)
qed

lemma bounded_log_run:
  "bounded_log w mx a \<Longrightarrow> run_guard (spec_allow w mx) clock_ok a kts \<Longrightarrow> 0 < w \<Longrightarrow>
     bounded_log w mx (fst (run_io (spec_allow w mx) a kts))"
  by (induction kts arbitrary: a) (auto simp: Let_def case_prod_unfold bounded_log_step)

section \<open>Client address\<close>

definition is_blank :: "char \<Rightarrow> bool" where
  "is_blank c = (c = CHR '' '' \<or> code_of c = 9)"

definition limiter_trim_space :: "string \<Rightarrow> string" where
  "limiter_trim_space s = trim_both is_blank s"

fun last_index_byte_below :: "string \<Rightarrow> char \<Rightarrow> nat \<Rightarrow> int" where
  "last_index_byte_below s b 0 = -1"
| "last_index_byte_below s b (Suc i) = (if s ! i = b then int i else last_index_byte_below s b i)"

definition last_index_byte :: "string \<Rightarrow> char \<Rightarrow> int" where
  "last_index_byte s b = last_index_byte_below s b (length s)"

text \<open>\<open>ClientIP\<close> on the two headers (empty when absent) and the remote address.\<close>

definition client_ip :: "string \<Rightarrow> string \<Rightarrow> string \<Rightarrow> string" where
  "client_ip cf_header xff_header remote_addr =
     (if cf_header \<noteq> [] then cf_header
      else if xff_header \<noteq> [] then
        (case cut_at xff_header '','' of
           Some (first, _) \<Rightarrow> limiter_trim_space first
         | None \<Rightarrow> limiter_trim_space xff_header)
      else if remote_addr \<noteq> [] \<and> last remote_addr \<noteq> CHR '']'' then
        (let j = last_index_byte remote_addr CHR '':'' in
         if j \<noteq> -1 then take (nat j) remote_addr else remote_addr)
      else remote_addr)"

lemma last_index_byte_append:
  assumes "b \<notin> set y"
  shows "last_index_byte (x @ b # y) b = int (length x)"
proof -
  have "last_index_byte_below (x @ b # y) b (Suc (length x + n)) = int (length x)" if "n \<le> length y" for n
    using that
  proof (induction n)
    case 0
    then show ?case by simp
  next
    case (Suc n)
    then have "(x @ b # y) ! Suc (length x + n) = y ! n" by (simp add: nth_append)
    moreover have "y ! n \<noteq> b" using Suc.prems assms by (metis Suc_le_lessD nth_mem)
    ultimately show ?case using Suc by simp
  qed
  from this [of "length y"] show ?thesis by (simp add: last_index_byte_def)
qed

lemma last_index_byte_none: "b \<notin> set s \<Longrightarrow> last_index_byte s b = -1"
proof -
  assume b: "b \<notin> set s"
  have "last_index_byte_below s b n = -1" if "n \<le> length s" for n
    using that b by (induction n) (auto simp: nth_mem)
  then show ?thesis by (simp add: last_index_byte_def)
qed

section \<open>Properties\<close>

definition limiter_run :: "int \<Rightarrow> int \<Rightarrow> int \<Rightarrow> (string \<times> int) list \<Rightarrow> bool list" where
  "limiter_run w mx t0 kts = snd (run_io (\<lambda>l kt. allow l (fst kt) (snd kt)) (new_limiter w mx t0) kts)"

text \<open>The attempts that a run of the limiter let through.\<close>

definition admitted :: "int \<Rightarrow> int \<Rightarrow> int \<Rightarrow> (string \<times> int) list \<Rightarrow> (string \<times> int) list" where
  "admitted w mx t0 kts = map fst (filter snd (zip kts (limiter_run w mx t0 kts)))"

lemma limiter_run_spec:
  assumes "sorted (t0 # map snd kts)"
  shows "limiter_run w mx t0 kts = snd (run_io (spec_allow w mx) \<lparr>al_last = t0, al_log = []\<rparr> kts)"
  using limiter.run_refines [OF limiter_sim_start [of w mx t0]
      spec_guard_sorted [of "\<lparr>al_last = t0, al_log = []\<rparr>" kts w mx]] assms
  by (simp add: limiter_run_def)

lemma spec_run_log:
  "al_log (fst (run_io (spec_allow w mx) a kts)) =
     al_log a @ map fst (filter snd (zip kts (snd (run_io (spec_allow w mx) a kts))))"
proof (induction kts arbitrary: a)
  case Nil
  then show ?case by simp
next
  case (Cons kt kts)
  then show ?case by (cases kt) (simp add: Let_def case_prod_unfold spec_allow_def)
qed

lemma admitted_spec: "sorted (t0 # map snd kts) \<Longrightarrow> admitted w mx t0 kts = spec_log w mx t0 kts"
  by (simp add: admitted_def limiter_run_spec spec_log_def spec_run_log)

text \<open>
  C20: whatever attempts arrive, on whatever keys and at whatever (non-decreasing) times, and
  whenever the garbage collection of abandoned keys runs, no key is let through more than
  \<open>max\<close> times in any interval as long as the window.
\<close>

theorem limiter_window_bound:
  assumes "0 < w" "0 \<le> mx" "sorted (t0 # map snd kts)"
  shows "int (length (in_window w t (times_of (admitted w mx t0 kts) key))) \<le> mx"
proof -
  let ?a = "\<lparr>al_last = t0, al_log = []\<rparr>"
  have "bounded_log w mx ?a" using assms(2) by (simp add: bounded_log_def times_of_def in_window_def)
  then have "bounded_log w mx (fst (run_io (spec_allow w mx) ?a kts))"
    by (rule bounded_log_run [OF _ spec_guard_sorted]) (use assms in simp_all)
  then show ?thesis by (simp add: admitted_spec [OF assms(3)] spec_log_def bounded_log_def)
qed

theorem limiter_window_bound_witness:
  "limiter_run 100 2 0 [(''a'', 10), (''a'', 20), (''b'', 30), (''a'', 40), (''a'', 115)] = [True, True, True, False, True] \<and>
   int (length (in_window 100 115
     (times_of (admitted 100 2 0 [(''a'', 10), (''a'', 20), (''b'', 30), (''a'', 40), (''a'', 115)]) ''a''))) \<le> 2"
proof
  show "limiter_run 100 2 0 [(''a'', 10), (''a'', 20), (''b'', 30), (''a'', 40), (''a'', 115)] = [True, True, True, False, True]"
    by code_simp
qed (rule limiter_window_bound; simp)

text \<open>
  C19: an attempt is refused only when the window before it already holds \<open>max\<close> admitted attempts
  of the same key: keys do not affect each other, refused attempts do not count, and the
  garbage collection changes no answer.
\<close>

theorem limiter_refuses_only_full:
  assumes "sorted (t0 # map snd (kts @ [(key, now)]))"
  shows "last (limiter_run w mx t0 (kts @ [(key, now)])) \<longleftrightarrow>
    int (length (filter (\<lambda>t. now - w < t) (times_of (admitted w mx t0 kts) key))) < mx"
proof -
  have run_snoc: "snd (run_io (spec_allow w mx) a (kts @ [x])) =
      snd (run_io (spec_allow w mx) a kts) @ [snd (spec_allow w mx (fst (run_io (spec_allow w mx) a kts)) x)]" for a x
    by (induction kts arbitrary: a) (simp_all add: Let_def case_prod_unfold)
  have "sorted (t0 # map snd kts)" using assms by (auto simp: sorted_append)
  then show ?thesis
    by (simp add: limiter_run_spec [OF assms] admitted_spec spec_log_def run_snoc) (simp add: spec_allow_def Let_def)
qed

theorem limiter_refuses_only_full_witness:
  "last (limiter_run 100 1 0 ([(''a'', 10), (''b'', 20)] @ [(''b'', 90000000000)])) \<longleftrightarrow>
     int (length (filter (\<lambda>t. 90000000000 - 100 < t) (times_of (admitted 100 1 0 [(''a'', 10), (''b'', 20)]) ''b''))) < 1"
  by (rule limiter_refuses_only_full) simp

end
