(* ===== verification/Gate.thy ===== *)
theory Gate
  imports Http Limiter RouteTable
begin

unbundle bit_operations_syntax

text \<open>
  \<open>handleTunnelRequest\<close>, \<open>serveGate\<close> and their helpers in \<open>backend/main.go\<close>: what a request to
  a tunnel host meets before any byte reaches the application. The limiter is threaded through
  the handler; everything else it reads is an argument. A response names what is written:
  an error page, the password page, a redirect with or without an unlock cookie, or the
  request that goes through the tunnel.
\<close>

section \<open>Requests and responses\<close>

record request =
  rq_method :: string
  rq_host :: string
  rq_path :: string
  rq_raw_query :: string
  rq_cookies :: "string list"
  rq_authorization :: string
  rq_cf_ip :: string
  rq_forwarded_for :: string
  rq_remote :: string
  rq_form_password :: "string option"

text \<open>\<open>rq_form_password\<close> is \<open>None\<close> when \<open>r.ParseForm\<close> fails, else the posted password.\<close>

definition request_ip :: "request \<Rightarrow> string" where
  "request_ip r = client_ip (rq_cf_ip r) (rq_forwarded_for r) (rq_remote r)"

datatype response =
    RelayError nat string
  | GatePage string bool
  | RedirectTo string
  | UnlockRedirect cookie string
  | Forward entry request

section \<open>Credentials\<close>

type_synonym gate_credential = "8 word"

definition gate_credential_none :: gate_credential where "gate_credential_none = 0"
definition gate_credential_cookie :: gate_credential where "gate_credential_cookie = push_bit 0 1"
definition gate_credential_basic :: gate_credential where "gate_credential_basic = push_bit 1 1"
definition gate_credential_query :: gate_credential where "gate_credential_query = push_bit 2 1"

text \<open>\<open>checkGateSecret\<close>; its last argument, the user name, is ignored by the code.\<close>

definition check_gate_secret :: "string \<Rightarrow> string \<Rightarrow> string \<Rightarrow> bool" where
  "check_gate_secret hash secret user = (hex_encode (sha256 secret) = hash)"

definition gate_cookie_for :: "entry \<Rightarrow> bool \<Rightarrow> string" where
  "gate_cookie_for e grouped =
     (if grouped then gate_group_cookie_name (e_user e) (e_gate_group e) else gate_cookie)"

definition cookie_unlocks :: "sessions \<Rightarrow> entry \<Rightarrow> bool \<Rightarrow> request \<Rightarrow> int \<Rightarrow> bool" where
  "cookie_unlocks s e grouped r now =
     (case cookie_get (rq_cookies r) (gate_cookie_for e grouped) of
        None \<Rightarrow> False
      | Some v \<Rightarrow> if grouped then verify_gate_group s v (e_user e) (e_gate_group e) (e_protect_hash e) now
                  else verify_gate s v (e_host e) now)"

definition basic_unlocks :: "entry \<Rightarrow> request \<Rightarrow> bool" where
  "basic_unlocks e r =
     (case basic_auth (rq_authorization r) of
        None \<Rightarrow> False
      | Some (u, p) \<Rightarrow> check_gate_secret (e_protect_hash e) p u)"

definition query_unlocks :: "entry \<Rightarrow> request \<Rightarrow> bool" where
  "query_unlocks e r =
     (let token = query_get (rq_raw_query r) ''access_token''
      in token \<noteq> [] \<and> check_gate_secret (e_protect_hash e) token ''token'')"

definition visitor_credential :: "sessions \<Rightarrow> entry \<Rightarrow> bool \<Rightarrow> request \<Rightarrow> int \<Rightarrow> gate_credential" where
  "visitor_credential s e grouped r now =
     (let c0 = gate_credential_none;
          c1 = (if cookie_unlocks s e grouped r now then c0 OR gate_credential_cookie else c0);
          c2 = (if basic_unlocks e r then c1 OR gate_credential_basic else c1)
      in if query_unlocks e r then c2 OR gate_credential_query else c2)"

section \<open>Handlers\<close>

definition serve_gate :: "sessions \<Rightarrow> entry \<Rightarrow> string \<Rightarrow> bool \<Rightarrow> request \<Rightarrow> int \<Rightarrow> response" where
  "serve_gate s e domain grouped r now =
     (if rq_method r = ''POST'' then
        (case rq_form_password r of
           None \<Rightarrow> RelayError 400 ''bad request''
         | Some password \<Rightarrow>
             if check_gate_secret (e_protect_hash e) password [] then
               (if grouped then
                  UnlockRedirect (set_gate_group_cookie (gate_group_cookie_name (e_user e) (e_gate_group e))
                     (issue_gate_group s (e_user e) (e_gate_group e) (e_protect_hash e) now) domain) (rq_path r)
                else UnlockRedirect (set_gate_cookie (issue_gate s (e_host e) now) (strip_port (rq_host r))) (rq_path r))
             else GatePage (e_host e) True)
      else if visitor_credential s e grouped r now AND gate_credential_cookie \<noteq> 0 then RedirectTo (rq_path r)
      else GatePage (e_host e) False)"

definition strip_secrets :: "gate_credential \<Rightarrow> request \<Rightarrow> request" where
  "strip_secrets credential r =
     (let r1 = r\<lparr>rq_cookies := strip_gate_cookies (rq_cookies r)\<rparr>;
          r2 = (if credential AND gate_credential_basic \<noteq> 0 then r1\<lparr>rq_authorization := []\<rparr> else r1)
      in if credential AND gate_credential_query \<noteq> 0
         then r2\<lparr>rq_raw_query := remove_query_param (rq_raw_query r2) ''access_token''\<rparr> else r2)"

text \<open>
  \<open>clk\<close> is the monotonic clock the limiter reads and \<open>now\<close> the Unix time the tokens are
  checked at.
\<close>

definition handle_tunnel_request ::
  "registry \<Rightarrow> sessions \<Rightarrow> limiter \<Rightarrow> string \<Rightarrow> bool \<Rightarrow> string \<Rightarrow> request \<Rightarrow> int \<Rightarrow> int \<Rightarrow> limiter \<times> response"
where
  "handle_tunnel_request reg s lim domain singleUser host r clk now =
     (case resolve reg host (rq_path r) of
        None \<Rightarrow> (lim, RelayError 502 ''no active tunnel'')
      | Some e \<Rightarrow>
          let grouped = (\<not> singleUser \<and> e_gate_group e \<noteq> []);
              credential = (if e_protect_hash e \<noteq> [] then visitor_credential s e grouped r now else gate_credential_none)
          in if e_protect_hash e \<noteq> [] \<and> credential = gate_credential_none then
               (if rq_method r = ''POST'' then
                  (let (lim', ok) = allow lim (request_ip r) clk
                   in if \<not> ok then (lim', RelayError 429 ''slow down'')
                      else (lim', serve_gate s e domain grouped r now))
                else (lim, serve_gate s e domain grouped r now))
             else (lim, Forward e (strip_secrets credential r)))"

section \<open>Credential bits\<close>

lemma credential_values:
  "visitor_credential s e grouped r now =
     (if cookie_unlocks s e grouped r now then 1 else 0) +
     (if basic_unlocks e r then 2 else 0) + (if query_unlocks e r then 4 else 0)"
  by (simp add: visitor_credential_def Let_def gate_credential_none_def gate_credential_cookie_def
      gate_credential_basic_def gate_credential_query_def)

lemma credential_bits:
  "visitor_credential s e grouped r now = gate_credential_none \<longleftrightarrow>
     \<not> cookie_unlocks s e grouped r now \<and> \<not> basic_unlocks e r \<and> \<not> query_unlocks e r"
  "visitor_credential s e grouped r now AND gate_credential_cookie \<noteq> 0 \<longleftrightarrow> cookie_unlocks s e grouped r now"
  "visitor_credential s e grouped r now AND gate_credential_basic \<noteq> 0 \<longleftrightarrow> basic_unlocks e r"
  "visitor_credential s e grouped r now AND gate_credential_query \<noteq> 0 \<longleftrightarrow> query_unlocks e r"
  by (simp_all add: credential_values gate_credential_none_def gate_credential_cookie_def
      gate_credential_basic_def gate_credential_query_def)

text \<open>The gate is only served to visitors without a credential, so a GET shows the page.\<close>

lemma serve_gate_no_credential:
  "visitor_credential s e grouped r now = gate_credential_none \<Longrightarrow> rq_method r \<noteq> ''POST'' \<Longrightarrow>
     serve_gate s e domain grouped r now = GatePage (e_host e) False"
  by (simp add: serve_gate_def gate_credential_none_def)

end
