(* ===== verification/GateProps.thy ===== *)
theory GateProps
  imports Gate SessionsProps
begin

text \<open>
  The properties of the tunnel gate: who gets through, what the application behind it sees, and
  that an unlock lasts.
\<close>

section \<open>Who gets through\<close>

definition is_grouped :: "bool \<Rightarrow> entry \<Rightarrow> bool" where
  "is_grouped singleUser e = (\<not> singleUser \<and> e_gate_group e \<noteq> [])"

definition unlocked :: "sessions \<Rightarrow> bool \<Rightarrow> entry \<Rightarrow> request \<Rightarrow> int \<Rightarrow> bool" where
  "unlocked s singleUser e r now \<longleftrightarrow>
     e_protect_hash e = [] \<or> cookie_unlocks s e (is_grouped singleUser e) r now \<or>
     basic_unlocks e r \<or> query_unlocks e r"

lemma handle_unlocked:
  assumes "resolve reg host (rq_path r) = Some e" "unlocked s su e r now"
  shows "handle_tunnel_request reg s lim d su host r clk now = (lim, Forward e (strip_secrets
     (if e_protect_hash e \<noteq> [] then visitor_credential s e (is_grouped su e) r now else gate_credential_none) r))"
  using assms by (auto simp: handle_tunnel_request_def Let_def is_grouped_def [symmetric] unlocked_def credential_bits(1))

lemma serve_gate_not_forward: "serve_gate s e d grouped r now \<noteq> Forward e' r'"
  by (simp add: serve_gate_def split: option.split)

lemma handle_locked:
  assumes "resolve reg host (rq_path r) = Some e" "\<not> unlocked s su e r now"
  shows "handle_tunnel_request reg s lim d su host r clk now =
     (if rq_method r = ''POST'' then
        (if snd (allow lim (request_ip r) clk)
         then (fst (allow lim (request_ip r) clk), serve_gate s e d (is_grouped su e) r now)
         else (fst (allow lim (request_ip r) clk), RelayError 429 ''slow down''))
      else (lim, GatePage (e_host e) False))"
  using assms serve_gate_no_credential [of s e "is_grouped su e" r now d]
  by (auto simp: handle_tunnel_request_def Let_def is_grouped_def [symmetric] unlocked_def credential_bits(1)
      case_prod_unfold)

lemma forward_iff:
  "(\<exists>lim' r'. handle_tunnel_request reg s lim d su host r clk now = (lim', Forward e r')) \<longleftrightarrow>
     resolve reg host (rq_path r) = Some e \<and> unlocked s su e r now"
proof (cases "resolve reg host (rq_path r)")
  case None
  then show ?thesis by (simp add: handle_tunnel_request_def)
next
  case (Some e0)
  then show ?thesis
    using handle_unlocked [OF Some] handle_locked [OF Some] serve_gate_not_forward
    by (cases "unlocked s su e0 r now") auto
qed

text \<open>
  C2: a visitor who presents no shared secret, and as cookie only a token that the server has
  signed, reaches a protected tunnel exactly when the token has not expired and was issued for
  it: on a hosted relay with a gate group, for a group grant with the tunnel's own binding of
  owner, group and secret; otherwise for the tunnel's own host.
\<close>

theorem gate_opens_only_for_grant:
  assumes "resolve reg host (rq_path r) = Some e" "e_protect_hash e \<noteq> []"
    and "\<not> basic_unlocks e r" "\<not> query_unlocks e r"
    and "cookie_get (rq_cookies r) (gate_cookie_for e (is_grouped su e)) = Some (grant_token s g)"
    and "plain_grant g" "plain_user g" "CHR '':'' \<notin> set (e_host e)"
  shows "(\<exists>lim' r'. handle_tunnel_request reg s lim d su host r clk now = (lim', Forward e r')) \<longleftrightarrow>
    fresh g now \<and>
    (if is_grouped su e
     then (\<exists>u grp ph t. g = GroupGrant u grp ph t \<and>
        gate_group_binding u grp ph = gate_group_binding (e_user e) (e_gate_group e) (e_protect_hash e))
     else (\<exists>t. g = HostGrant (e_host e) t \<or> g = SessionGrant (e_host e) t))"
proof -
  have "unlocked s su e r now \<longleftrightarrow> cookie_unlocks s e (is_grouped su e) r now"
    using assms(2-4) by (simp add: unlocked_def)
  also have "\<dots> \<longleftrightarrow> (if is_grouped su e
      then verify_gate_group s (grant_token s g) (e_user e) (e_gate_group e) (e_protect_hash e) now
      else verify_gate s (grant_token s g) (e_host e) now)"
    using assms(5) by (simp add: cookie_unlocks_def)
  also have "\<dots> \<longleftrightarrow> fresh g now \<and> (if is_grouped su e
     then (\<exists>u grp ph t. g = GroupGrant u grp ph t \<and>
        gate_group_binding u grp ph = gate_group_binding (e_user e) (e_gate_group e) (e_protect_hash e))
     else (\<exists>t. g = HostGrant (e_host e) t \<or> g = SessionGrant (e_host e) t))"
    using verify_gate_grant [OF assms(6)] verify_gate_group_grant [OF assms(6)]
      trim_body [OF assms(7,8)] gate_group_body [OF assms(7)] by auto
  finally show ?thesis using assms(1) by (simp add: forward_iff)
qed

section \<open>Reading back a cookie the server set\<close>

definition cookie_line :: "cookie \<Rightarrow> string" where
  "cookie_line c = ck_name c @ ''='' @ ck_value c"

definition visible_char :: "char \<Rightarrow> bool" where
  "visible_char x = (33 \<le> code_of x \<and> code_of x < 127 \<and> code_of x \<noteq> 34 \<and> code_of x \<noteq> 59 \<and> code_of x \<noteq> 92)"

lemma visible_charD: "visible_char x \<Longrightarrow> \<not> is_http_space x \<and> x \<noteq> CHR '';'' \<and> valid_cookie_byte x \<and> code_of x \<noteq> 34"
  by (auto simp: visible_char_def is_http_space_def valid_cookie_byte_def)

definition plain_cookie :: "cookie \<Rightarrow> bool" where
  "plain_cookie c \<longleftrightarrow> is_token (ck_name c) \<and> CHR ''='' \<notin> set (ck_name c) \<and>
     (\<forall>x\<in>set (ck_name c @ ck_value c). visible_char x)"

lemma trim_plain: "\<forall>x\<in>set w. \<not> is_http_space x \<Longrightarrow> trim_both is_http_space w = w"
  by (rule trim_both_id) auto

lemma cookie_get_line:
  assumes "plain_cookie c"
  shows "cookie_get [cookie_line c] (ck_name c) = Some (ck_value c)"
proof -
  have ns: "\<not> is_http_space x" if "x \<in> set (ck_name c @ ck_value c)" for x
    using assms that visible_charD by (simp add: plain_cookie_def)
  have eq: "\<not> is_http_space CHR ''=''" by (simp add: is_http_space_def)
  have t: "trim_both is_http_space (cookie_line c) = cookie_line c"
    using ns eq by (intro trim_plain) (auto simp: cookie_line_def)
  have n: "trim_both is_http_space (ck_name c) = ck_name c" using ns by (intro trim_plain) auto
  have semi: "CHR '';'' \<notin> set (cookie_line c)"
    using assms visible_charD [of "CHR '';''"] by (auto simp: plain_cookie_def cookie_line_def)
  have vb: "valid_cookie_byte x \<and> code_of x \<noteq> 34" if "x \<in> set (ck_value c)" for x
    using assms that visible_charD by (simp add: plain_cookie_def)
  have "\<not> (1 < length (ck_value c) \<and> code_of (hd (ck_value c)) = 34 \<and> code_of (last (ck_value c)) = 34)"
    using vb by (cases "ck_value c") auto
  then have v: "parse_cookie_value (ck_value c) = Some (ck_value c)"
    using vb by (auto simp: parse_cookie_value_def list_all_iff)
  have "cookie_part (cookie_line c) = Some (ck_name c, ck_value c)"
    unfolding cookie_part_def t
    using assms n v by (simp add: plain_cookie_def cookie_line_def cut_or_all_def cut_at_char is_token_def)
  then show ?thesis
    by (simp add: cookie_get_def read_cookies_def str_split_word [OF semi] List.map_filter_simps)
qed

lemma alphabet_plain: "x \<in> set b64_alphabet \<Longrightarrow>
   visible_char x"
proof -
  have "list_all (\<lambda>x. visible_char x) b64_alphabet"
    by (simp add: b64_alphabet_def visible_char_def)
  then show "x \<in> set b64_alphabet \<Longrightarrow> ?thesis" by (simp add: list_all_iff)
qed

lemma seal_plain: "x \<in> set (seal s p) \<Longrightarrow>
   visible_char x"
  using b64_encode_chars [of p] b64_encode_chars [of "sign s p"] alphabet_plain
  by (auto simp: seal_def visible_char_def [of "CHR ''.''"])

lemma gate_names_plain:
  "is_token gate_cookie \<and> CHR ''='' \<notin> set gate_cookie \<and> (\<forall>x\<in>set gate_cookie. visible_char x)"
  by (simp add: gate_cookie_def is_token_def is_token_char_def is_digit_def is_lower_def is_upper_def visible_char_def)

lemma hex_plain: "x \<in> set (hex_encode m) \<Longrightarrow> is_token_char x \<and> x \<noteq> CHR ''='' \<and>
   visible_char x"
  using hex_encode_chars [of m]
  by (fastforce simp: list_all_iff is_hex_digit_def is_token_char_def is_lower_def is_digit_def visible_char_def)

lemma group_name_plain:
  "is_token (gate_group_cookie_name u g) \<and> CHR ''='' \<notin> set (gate_group_cookie_name u g) \<and>
   (\<forall>x\<in>set (gate_group_cookie_name u g). visible_char x)"
proof -
  have "is_token_char CHR ''_''" "visible_char CHR ''_''" by (simp_all add: is_token_char_def visible_char_def)
  then show ?thesis
    using gate_names_plain hex_plain [of _ "take 16 (sha256 (u @ [nul] @ g))"]
    by (auto simp: gate_group_cookie_name_def gate_group_cookie_prefix_def is_token_def list_all_iff)
qed

section \<open>Concrete tunnels for the witnesses\<close>

definition locked_shop :: entry where
  "locked_shop = \<lparr>e_ptr = 0, e_service = ''shop'', e_host = ''shop'', e_user = ''u1'', e_gate_group = [],
     e_protect_hash = hex_encode (sha256 ''pw''), e_connected_at = 0, e_remote = [], e_session = 1\<rparr>"

definition locked_registry :: registry where
  "locked_registry = \<lparr>table = [(''shop'', \<lparr>root = Some locked_shop, prefixed = []\<rparr>)], closed_ready = [0], next_ptr = 1\<rparr>"

definition plain_get :: request where
  "plain_get = \<lparr>rq_method = ''GET'', rq_host = ''shop.f43.run'', rq_path = ''/a'', rq_raw_query = [],
     rq_cookies = [], rq_authorization = [], rq_cf_ip = [], rq_forwarded_for = [], rq_remote = ''9.9.9.9:1'',
     rq_form_password = None\<rparr>"

definition post_pw :: request where
  "post_pw = plain_get\<lparr>rq_method := ''POST'', rq_form_password := Some ''pw''\<rparr>"

definition with_token :: request where
  "with_token = plain_get\<lparr>rq_cookies := [''roxey_gate='' @ grant_token (new_sessions ''k'') (HostGrant ''shop'' 0)]\<rparr>"

lemma resolve_locked [simp]: "resolve locked_registry ''shop'' p = Some locked_shop"
  by (simp add: resolve_def locked_registry_def match_prefixed_def)

lemma locked_ne [simp]: "e_protect_hash locked_shop \<noteq> []"
  using length_hex_encode [of "sha256 ''pw''"] by (auto simp: locked_shop_def simp del: length_hex_encode)

lemma locked_plain [simp]: "e_host locked_shop = ''shop''" "\<not> is_grouped su locked_shop"
  by (simp_all add: locked_shop_def is_grouped_def)

lemma no_secrets:
  "rq_authorization r = [] \<Longrightarrow> \<not> basic_unlocks e r" "rq_raw_query r = [] \<Longrightarrow> \<not> query_unlocks e r"
  by (simp_all add: basic_unlocks_def basic_auth_def query_unlocks_def query_get_def query_pairs_def
      query_part_def List.map_filter_simps)

lemma host_grant_plain: "CHR ''|'' \<notin> set h \<Longrightarrow> plain_grant (HostGrant h 0)" "plain_user (HostGrant h t)"
  by (simp_all add: plain_grant_def plain_user_def in_int64_def session_ttl_def max_int64_def min_int64_def)

lemma gate_cookie_read:
  "cookie_get [''roxey_gate='' @ seal s p] ''roxey_gate'' = Some (seal s p)"
proof -
  have "plain_cookie (set_gate_cookie (seal s p) d)" for d
    using gate_names_plain seal_plain [of _ s p] by (auto simp: plain_cookie_def set_gate_cookie_def)
  from cookie_get_line [OF this] show ?thesis
    by (simp add: cookie_line_def set_gate_cookie_def gate_cookie_def)
qed

theorem gate_opens_only_for_grant_witness:
  "\<exists>lim' r'. handle_tunnel_request locked_registry (new_sessions ''k'') (new_limiter 60 30 0) ''f43.run'' True
     ''shop'' with_token 0 5 = (lim', Forward locked_shop r')"
proof -
  let ?g = "HostGrant ''shop'' 0"
  have c: "cookie_get (rq_cookies with_token) (gate_cookie_for locked_shop (is_grouped True locked_shop)) =
      Some (grant_token (new_sessions ''k'') ?g)"
    unfolding grant_token_seal
    by (simp add: with_token_def gate_cookie_for_def gate_cookie_def grant_token_seal gate_cookie_read [simplified]
        del: grant_token.simps)
  have "\<not> basic_unlocks locked_shop with_token" "\<not> query_unlocks locked_shop with_token"
    by (simp_all add: with_token_def plain_get_def no_secrets)
  then show ?thesis
    using gate_opens_only_for_grant [where r = with_token and g = ?g and s = "new_sessions ''k''" and now = 5,
        OF resolve_locked locked_ne _ _ c host_grant_plain]
    by (simp add: fresh_def session_ttl_def)
qed

section \<open>An unlock lasts\<close>

text \<open>
  After a visitor has posted the right password, the cookie the gate set lets the next
  requests of that browser through for a week, whatever the method and without the password, as
  long as the tunnel keeps its host, owner, group and secret.
\<close>

theorem unlock_lasts:
  assumes "handle_tunnel_request reg s lim d su host r clk now = (lim', UnlockRedirect c loc)"
    and "resolve reg host (rq_path r) = Some e" "resolve reg' host (rq_path rnext) = Some enext"
    and "e_host enext = e_host e" "e_user enext = e_user e" "e_gate_group enext = e_gate_group e"
      "e_protect_hash enext = e_protect_hash e"
    and "rq_cookies rnext = [cookie_line c]" "later \<le> now + session_ttl"
    and "in_int64 (now + session_ttl)" "CHR ''|'' \<notin> set (e_host e)"
  shows "\<exists>r'. handle_tunnel_request reg' s lim'' d su host rnext clk' later = (lim'', Forward enext r')"
proof -
  let ?g = "is_grouped su e"
  have g2: "is_grouped su enext = ?g" using assms(6) by (simp add: is_grouped_def)
  have "\<not> unlocked s su e r now"
    using handle_unlocked [OF assms(2), of s su now lim d clk] assms(1) by auto
  then have "UnlockRedirect c loc = serve_gate s e d ?g r now"
    using handle_locked [where s = s and su = su and now = now and lim = lim and d = d and clk = clk, OF assms(2)] assms(1)
    by (auto split: if_splits)
  then have c: "c = (if ?g then set_gate_group_cookie (gate_group_cookie_name (e_user e) (e_gate_group e))
        (issue_gate_group s (e_user e) (e_gate_group e) (e_protect_hash e) now) d
      else set_gate_cookie (issue_gate s (e_host e) now) (strip_port (rq_host r)))"
    by (auto simp: serve_gate_def split: if_splits option.splits)
  have "plain_cookie c"
    using gate_names_plain group_name_plain [of "e_user e" "e_gate_group e"] seal_plain
    by (auto simp: c plain_cookie_def set_gate_cookie_def set_gate_group_cookie_def issue_gate_def issue_gate_group_def)
  then have "cookie_get (rq_cookies rnext) (ck_name c) = Some (ck_value c)"
    using cookie_get_line assms(8) by simp
  moreover have "ck_name c = gate_cookie_for enext ?g"
    using assms(5,6) by (simp add: c gate_cookie_for_def set_gate_cookie_def set_gate_group_cookie_def)
  moreover have "if ?g then verify_gate_group s (ck_value c) (e_user enext) (e_gate_group enext) (e_protect_hash enext) later
      else verify_gate s (ck_value c) (e_host enext) later"
    using verify_gate_group_grant [OF plain_group_grant [OF assms(10)], of s "e_user e" "e_gate_group e" "e_protect_hash e"]
      verify_gate_grant [of "HostGrant (e_host e) now" s, unfolded grant_body.simps trim_prefix_append] assms(4-7,9-11)
    by (simp add: c set_gate_cookie_def set_gate_group_cookie_def fresh_def plain_grant_def)
  ultimately have "cookie_unlocks s enext ?g rnext later" by (simp add: cookie_unlocks_def)
  then have "unlocked s su enext rnext later" by (simp add: unlocked_def g2)
  from handle_unlocked [OF assms(3) this] show ?thesis by blast
qed

lemma post_pw_unlocks:
  "\<exists>lim'. handle_tunnel_request locked_registry (new_sessions ''k'') (new_limiter 60 30 0) ''f43.run'' True
     ''shop'' post_pw 0 5 = (lim', UnlockRedirect (set_gate_cookie (issue_gate (new_sessions ''k'') ''shop'' 5) ''shop.f43.run'') ''/a'')"
proof -
  have "\<not> unlocked (new_sessions ''k'') True locked_shop post_pw 5"
    by (simp add: unlocked_def cookie_unlocks_def no_secrets post_pw_def plain_get_def cookie_get_def read_cookies_def)
  moreover have "snd (allow (new_limiter 60 30 0) ip 0)" for ip
    by (simp add: allow_def new_limiter_def hits_of_def keep_after_def minute_def Let_def)
  moreover have "check_gate_secret (e_protect_hash locked_shop) ''pw'' []"
    by (simp add: check_gate_secret_def locked_shop_def)
  moreover have "strip_port ''shop.f43.run'' = ''shop.f43.run''" by code_simp
  ultimately show ?thesis
    using handle_locked [where r = post_pw and s = "new_sessions ''k''" and su = True and now = 5, OF resolve_locked]
    by (simp add: serve_gate_def) (simp add: post_pw_def plain_get_def serve_gate_def)
qed

theorem unlock_lasts_witness:
  "\<exists>lim' c loc r'. handle_tunnel_request locked_registry (new_sessions ''k'') (new_limiter 60 30 0) ''f43.run'' True
       ''shop'' post_pw 0 5 = (lim', UnlockRedirect c loc) \<and>
     handle_tunnel_request locked_registry (new_sessions ''k'') (new_limiter 60 30 0) ''f43.run'' True ''shop''
       (plain_get\<lparr>rq_cookies := [cookie_line c]\<rparr>) 99 604805 = (new_limiter 60 30 0, Forward locked_shop r')"
proof -
  obtain lim' c loc where h: "handle_tunnel_request locked_registry (new_sessions ''k'') (new_limiter 60 30 0)
      ''f43.run'' True ''shop'' post_pw 0 5 = (lim', UnlockRedirect c loc)"
    using post_pw_unlocks by blast
  have i: "in_int64 (5 + session_ttl)" by (simp add: in_int64_def session_ttl_def max_int64_def min_int64_def)
  show ?thesis
    using h unlock_lasts [where rnext = "plain_get\<lparr>rq_cookies := [cookie_line c]\<rparr>" and later = 604805 and clk' = 99
        and lim'' = "new_limiter 60 30 0", OF h resolve_locked resolve_locked refl refl refl refl _ _ i]
    by (simp add: session_ttl_def)
qed

section \<open>What the application sees\<close>


definition token_query :: request where
  "token_query = plain_get\<lparr>rq_raw_query := ''a=1&access_token=pw&b=2'', rq_cookies := [''x=1; roxey_gate=zz; y=2'']\<rparr>"

lemma token_query_forwarded:
  "\<exists>lim' r'. handle_tunnel_request locked_registry (new_sessions ''k'') (new_limiter 60 30 0) ''f43.run'' True
     ''shop'' token_query 0 5 = (lim', Forward locked_shop r')"
proof -
  have "query_get ''a=1&access_token=pw&b=2'' ''access_token'' = ''pw''" by code_simp
  then have "query_unlocks locked_shop token_query"
    by (simp add: query_unlocks_def token_query_def check_gate_secret_def locked_shop_def)
  then show ?thesis
    using forward_iff [of locked_registry "new_sessions ''k''" "new_limiter 60 30 0" "''f43.run''" True "''shop''" token_query 0 5]
    by (simp add: unlocked_def)
qed


section \<open>The attempt limit\<close>

text \<open>
  The limit on unlock attempts counts posted passwords only. A request with any other
  method that carries a guess as basic-auth password or \<open>access_token\<close> gets its answer from the
  guess alone, however many guesses came before, and leaves the limiter as it was.
\<close>

theorem guesses_unlimited:
  assumes "rq_method r \<noteq> ''POST''"
  shows "handle_tunnel_request reg s lim d su host r clk now =
    (lim, snd (handle_tunnel_request reg s lim0 d su host r clk0 now))"
proof (cases "resolve reg host (rq_path r)")
  case None
  then show ?thesis by (simp add: handle_tunnel_request_def)
next
  case (Some e)
  then show ?thesis
    using assms handle_unlocked [OF Some] handle_locked [OF Some] by (cases "unlocked s su e r now") simp_all
qed

theorem guesses_unlimited_witness:
  "handle_tunnel_request locked_registry (new_sessions ''k'') (new_limiter 60 0 0) ''f43.run'' True ''shop'' token_query 0 5 =
   (new_limiter 60 0 0, snd (handle_tunnel_request locked_registry (new_sessions ''k'') (new_limiter 60 30 0)
      ''f43.run'' True ''shop'' token_query 7 5))"
  by (rule guesses_unlimited) (simp add: token_query_def plain_get_def)

end
