(* ===== verification/Store.thy ===== *)
theory Store
  imports Sha256
begin

text \<open>
  \<open>backend/internal/store/store.go\<close>: accounts, API keys and the tunnel history. A table is the
  list of its rows in the order they were inserted; each operation is its SQL statement on
  those lists, with the primary-key and \<open>UNIQUE\<close> constraints of the schema. The random bytes
  and the formatted time a statement uses, and whether the database driver fails, are arguments.
\<close>

section \<open>Tables\<close>

record user_row =
  u_id :: string
  u_email :: string
  u_password_hash :: string
  u_created_at :: string

record key_row =
  k_id :: string
  k_user_id :: string
  k_label :: string
  k_hash :: string
  k_created_at :: string
  k_last_used_at :: "string option"

record event_row =
  ev_id :: string
  ev_user_id :: string
  ev_service :: string
  ev_host :: string
  ev_path :: string
  ev_remote :: string
  ev_connected_at :: string
  ev_disconnected_at :: "string option"

record store =
  st_users :: "user_row list"
  st_keys :: "key_row list"
  st_events :: "event_row list"

datatype store_error = DriverError | UniqueViolation

definition empty_store :: store where
  "empty_store = \<lparr>st_users = [], st_keys = [], st_events = []\<rparr>"

definition schema_version :: int where "schema_version = 2"

text \<open>\<open>Open\<close>: the schema version the database has afterwards, or its refusal.\<close>

definition open_version :: "int \<Rightarrow> (int, int) res" where
  "open_version version =
     (if 0 < version \<and> version < schema_version then Err version else Ok schema_version)"

definition hash_key :: "string \<Rightarrow> string" where
  "hash_key k = hex_encode (sha256 k)"

text \<open>\<open>randomHex\<close> on the bytes that were drawn.\<close>

definition random_hex :: "string \<Rightarrow> string" where
  "random_hex bytes = hex_encode bytes"

section \<open>Users\<close>

definition create_user :: "bool \<Rightarrow> string \<Rightarrow> string \<Rightarrow> store \<Rightarrow> string \<Rightarrow> string \<Rightarrow> store \<times> (store_error, user_row) res" where
  "create_user fails bytes now st email passwordHash =
     (let u = \<lparr>u_id = random_hex bytes, u_email = email, u_password_hash = passwordHash, u_created_at = now\<rparr>
      in if fails then (st, Err DriverError)
         else if list_ex (\<lambda>r. u_id r = u_id u \<or> u_email r = email) (st_users st) then (st, Err UniqueViolation)
         else (st\<lparr>st_users := st_users st @ [u]\<rparr>, Ok u))"

definition get_user_by_email :: "bool \<Rightarrow> store \<Rightarrow> string \<Rightarrow> (store_error, user_row option) res" where
  "get_user_by_email fails st email =
     (if fails then Err DriverError else Ok (find (\<lambda>r. u_email r = email) (st_users st)))"

definition get_user_by_id :: "bool \<Rightarrow> store \<Rightarrow> string \<Rightarrow> (store_error, user_row option) res" where
  "get_user_by_id fails st i =
     (if fails then Err DriverError else Ok (find (\<lambda>r. u_id r = i) (st_users st)))"

definition seed_single_user :: "bool \<times> bool \<Rightarrow> string \<Rightarrow> string \<Rightarrow> store \<Rightarrow> string \<Rightarrow> string \<Rightarrow> store \<times> (store_error, unit) res" where
  "seed_single_user fails bytes now st email passwordHash =
     (case get_user_by_email (fst fails) st email of
        Inl e \<Rightarrow> (st, Err e)
      | Inr None \<Rightarrow>
          (let (st', r) = create_user (snd fails) bytes now st email passwordHash
           in (st', (case r of Inl e \<Rightarrow> Err e | Inr _ \<Rightarrow> Ok ())))
      | Inr (Some u) \<Rightarrow>
          if snd fails then (st, Err DriverError)
          else (st\<lparr>st_users := map (\<lambda>r. if u_id r = u_id u then r\<lparr>u_password_hash := passwordHash\<rparr> else r) (st_users st)\<rparr>,
                Ok ()))"

section \<open>API keys\<close>

definition create_api_key ::
  "bool \<Rightarrow> string \<Rightarrow> string \<Rightarrow> string \<Rightarrow> store \<Rightarrow> string \<Rightarrow> string \<Rightarrow> store \<times> (store_error, string \<times> key_row) res"
where
  "create_api_key fails key_bytes id_bytes now st userID label =
     (let plain = ''rxy_'' @ random_hex key_bytes;
          k = \<lparr>k_id = random_hex id_bytes, k_user_id = userID,
               k_label = (if label = [] then ''unnamed'' else label),
               k_hash = hash_key plain, k_created_at = now, k_last_used_at = None\<rparr>
      in if fails then (st, Err DriverError)
         else if list_ex (\<lambda>r. k_id r = k_id k \<or> k_hash r = k_hash k) (st_keys st) then (st, Err UniqueViolation)
         else (st\<lparr>st_keys := st_keys st @ [k]\<rparr>, Ok (plain, k)))"

text \<open>
  \<open>ORDER BY created_at DESC\<close>: equal times come in insertion order here, in any order in SQL.
\<close>

definition list_api_keys :: "bool \<Rightarrow> store \<Rightarrow> string \<Rightarrow> (store_error, key_row list) res" where
  "list_api_keys fails st userID =
     (if fails then Err DriverError
      else Ok (rev (sort_key k_created_at (rev (filter (\<lambda>r. k_user_id r = userID) (st_keys st))))))"

definition revoke_api_key :: "bool \<Rightarrow> store \<Rightarrow> string \<Rightarrow> string \<Rightarrow> store \<times> (store_error, bool) res" where
  "revoke_api_key fails st userID i =
     (if fails then (st, Err DriverError)
      else (st\<lparr>st_keys := filter (\<lambda>r. \<not> (k_id r = i \<and> k_user_id r = userID)) (st_keys st)\<rparr>,
            Ok (list_ex (\<lambda>r. k_id r = i \<and> k_user_id r = userID) (st_keys st))))"

text \<open>The select and the update may fail on their own; then the key is not accepted.\<close>

definition validate_api_key :: "bool \<times> bool \<Rightarrow> string \<Rightarrow> store \<Rightarrow> string \<Rightarrow> store \<times> string option" where
  "validate_api_key fails now st plain =
     (if plain = [] \<or> fst fails then (st, None)
      else case find (\<lambda>r. k_hash r = hash_key plain) (st_keys st) of
          None \<Rightarrow> (st, None)
        | Some k \<Rightarrow>
            if snd fails then (st, None)
            else (st\<lparr>st_keys := map (\<lambda>r. if k_hash r = hash_key plain then r\<lparr>k_last_used_at := Some now\<rparr> else r) (st_keys st)\<rparr>,
                  Some (k_user_id k)))"

section \<open>Tunnel events\<close>

text \<open>The id is returned with the error as well.\<close>

definition record_connect ::
  "bool \<Rightarrow> string \<Rightarrow> string \<Rightarrow> store \<Rightarrow> string \<Rightarrow> string \<Rightarrow> string \<Rightarrow> string \<Rightarrow> string \<Rightarrow>
   store \<times> string \<times> (store_error, unit) res"
where
  "record_connect fails bytes now st userID service host path remote =
     (let i = random_hex bytes;
          ev = \<lparr>ev_id = i, ev_user_id = userID, ev_service = service, ev_host = host, ev_path = path,
                ev_remote = remote, ev_connected_at = now, ev_disconnected_at = None\<rparr>
      in if fails then (st, i, Err DriverError)
         else if list_ex (\<lambda>r. ev_id r = i) (st_events st) then (st, i, Err UniqueViolation)
         else (st\<lparr>st_events := st_events st @ [ev]\<rparr>, i, Ok ()))"

definition record_disconnect :: "bool \<Rightarrow> string \<Rightarrow> store \<Rightarrow> string \<Rightarrow> store \<times> (store_error, unit) res" where
  "record_disconnect fails now st i =
     (if fails then (st, Err DriverError)
      else (st\<lparr>st_events := map (\<lambda>r. if ev_id r = i then r\<lparr>ev_disconnected_at := Some now\<rparr> else r) (st_events st)\<rparr>, Ok ()))"

definition list_tunnel_events :: "bool \<Rightarrow> store \<Rightarrow> string \<Rightarrow> nat \<Rightarrow> (store_error, event_row list) res" where
  "list_tunnel_events fails st userID limit =
     (if fails then Err DriverError
      else Ok (take limit (rev (sort_key ev_connected_at (rev (filter (\<lambda>r. ev_user_id r = userID) (st_events st)))))))"

section \<open>The constraints of the schema\<close>

definition wf_store :: "store \<Rightarrow> bool" where
  "wf_store st \<longleftrightarrow> distinct (map u_id (st_users st)) \<and> distinct (map u_email (st_users st)) \<and>
     distinct (map k_id (st_keys st)) \<and> distinct (map k_hash (st_keys st)) \<and>
     distinct (map ev_id (st_events st))"

lemma map_upd_same: "(\<And>r. f (g r) = f r) \<Longrightarrow> map f (map (\<lambda>r. if P r then g r else r) xs) = map f xs"
  by simp

lemma wf_empty_store [wf_step]: "wf_store empty_store"
  by (simp add: wf_store_def empty_store_def)

lemma wf_create_user [wf_step]: "wf_store st \<Longrightarrow> wf_store (fst (create_user f b n st e p))"
  by (auto simp: create_user_def Let_def wf_store_def list_ex_iff)

lemma wf_seed [wf_step]: "wf_store st \<Longrightarrow> wf_store (fst (seed_single_user f b n st e p))"
  using wf_create_user [of st "snd f" b n e p]
  by (auto simp: seed_single_user_def get_user_by_email_def Let_def case_prod_unfold wf_store_def comp_def if_distrib
      cong: if_cong split: option.split)

lemma wf_create_key [wf_step]: "wf_store st \<Longrightarrow> wf_store (fst (create_api_key f kb ib n st u l))"
  by (auto simp: create_api_key_def Let_def wf_store_def list_ex_iff)

lemma wf_revoke [wf_step]: "wf_store st \<Longrightarrow> wf_store (fst (revoke_api_key f st u i))"
  by (auto simp: revoke_api_key_def wf_store_def distinct_map_filter)

lemma wf_validate [wf_step]: "wf_store st \<Longrightarrow> wf_store (fst (validate_api_key f n st p))"
  by (auto simp: validate_api_key_def wf_store_def comp_def if_distrib cong: if_cong split: option.split)

lemma wf_connect [wf_step]: "wf_store st \<Longrightarrow> wf_store (fst (record_connect f b n st u s h p r))"
  by (auto simp: record_connect_def Let_def wf_store_def list_ex_iff)

lemma wf_disconnect [wf_step]: "wf_store st \<Longrightarrow> wf_store (fst (record_disconnect f n st i))"
  by (auto simp: record_disconnect_def wf_store_def comp_def if_distrib cong: if_cong)

end
