(* ===== verification/StoreProps.thy ===== *)
theory StoreProps
  imports Store
begin

text \<open>
  The contract of the key store as the server's handlers use it, the runs of the database, and
  the properties of accounts and API keys.
\<close>

section \<open>Who owns a key\<close>

text \<open>The abstraction: the owner of each stored key hash.\<close>

definition key_owner :: "store \<Rightarrow> string \<Rightarrow> string option" where
  "key_owner st h = map_option k_user_id (find (\<lambda>r. k_hash r = h) (st_keys st))"

locale key_store =
  fixes valid :: "'s \<Rightarrow> bool"
    and owner :: "'s \<Rightarrow> string \<Rightarrow> string option"
    and digest :: "string \<Rightarrow> string"
    and create :: "'c \<Rightarrow> 's \<Rightarrow> string \<Rightarrow> string \<Rightarrow> 's \<times> ('err, string \<times> 'k) res"
    and validate :: "'v \<Rightarrow> 's \<Rightarrow> string \<Rightarrow> 's \<times> string option"
    and healthy :: "'v \<Rightarrow> bool"
  assumes create_owner: "valid s \<Longrightarrow> create c s u l = (s', Ok (plain, k)) \<Longrightarrow>
        plain \<noteq> [] \<and> owner s (digest plain) = None \<and> owner s' = (owner s)(digest plain \<mapsto> u)"
    and create_refused: "create c s u l = (s', Err e) \<Longrightarrow> s' = s"
    and validate_sound: "snd (validate v s plain) = Some u \<Longrightarrow> owner s (digest plain) = Some u"
    and validate_complete: "healthy v \<Longrightarrow> plain \<noteq> [] \<Longrightarrow> snd (validate v s plain) = owner s (digest plain)"
    and validate_frame: "valid s \<Longrightarrow> owner (fst (validate v s plain)) = owner s"
begin

lemma created_key_valid:
  "valid s \<Longrightarrow> create c s u l = (s', Ok (plain, k)) \<Longrightarrow> healthy v \<Longrightarrow> snd (validate v s' plain) = Some u"
  using create_owner [of s c u l s' plain k] validate_complete [of v plain s'] by simp

lemma others_keep_owner:
  assumes "valid s" "owner s h = Some u"
  shows "owner (fst (create c s w l)) h = Some u"
proof (cases "create c s w l")
  case (Pair s' r)
  show ?thesis
  proof (cases r)
    case (Inl e)
    then show ?thesis using create_refused [of c s w l s' e] Pair assms(2) by simp
  next
    case (Inr pk)
    then obtain plain k where "create c s w l = (s', Ok (plain, k))" using Pair by (cases pk) auto
    from create_owner [OF assms(1) this] show ?thesis using Pair assms(2) by auto
  qed
qed

lemma no_forged_key: "owner s (digest plain) = None \<Longrightarrow> snd (validate v s plain) = None"
  using validate_sound [of v s plain] by (cases "snd (validate v s plain)") auto

end

lemma key_owner_append:
  "key_owner (st\<lparr>st_keys := st_keys st @ [k]\<rparr>) h =
     (case key_owner st h of None \<Rightarrow> if k_hash k = h then Some (k_user_id k) else None | Some u \<Rightarrow> Some u)"
proof -
  have "find P (xs @ [y]) = (case find P xs of None \<Rightarrow> if P y then Some y else None | Some x \<Rightarrow> Some x)" for P xs and y :: key_row
    by (induction xs) auto
  then show ?thesis by (simp add: key_owner_def split: option.split)
qed

lemma key_owner_None: "key_owner st h = None \<longleftrightarrow> h \<notin> k_hash ` set (st_keys st)"
  by (auto simp: key_owner_def find_None_iff)

lemma key_owner_map:
  assumes "\<And>r. k_hash (g r) = k_hash r \<and> k_user_id (g r) = k_user_id r"
  shows "map_option k_user_id (find (\<lambda>r. k_hash r = h) (map g xs)) = map_option k_user_id (find (\<lambda>r. k_hash r = h) xs)"
  by (induction xs) (use assms in auto)

lemma key_owner_validate [simp]: "key_owner (fst (validate_api_key f n st p)) h = key_owner st h"
  by (auto simp: validate_api_key_def key_owner_def key_owner_map split: option.split)

lemma keys_create_user [simp]: "st_keys (fst (create_user f b n st e p)) = st_keys st"
  by (simp add: create_user_def Let_def)

lemma keys_seed [simp]: "st_keys (fst (seed_single_user f b n st e p)) = st_keys st"
  using keys_create_user [of "snd f" b n st e p]
  by (auto simp: seed_single_user_def Let_def case_prod_unfold split: sum.split option.split)

lemma keys_events [simp]:
  "st_keys (fst (record_connect f b n st u s h p r)) = st_keys st"
  "st_keys (fst (record_disconnect f n st i)) = st_keys st"
  by (simp_all add: record_connect_def record_disconnect_def Let_def)

lemma key_owner_frame [simp]:
  "key_owner (fst (create_user f b n st e p)) x = key_owner st x"
  "key_owner (fst (seed_single_user g b n st e p)) x = key_owner st x"
  "key_owner (fst (record_connect f b n st u s h q r)) x = key_owner st x"
  "key_owner (fst (record_disconnect f n st i)) x = key_owner st x"
  by (simp_all add: key_owner_def)

lemma key_owner_Some: "wf_store st \<Longrightarrow> key_owner st h = Some u \<longleftrightarrow> (\<exists>r\<in>set (st_keys st). k_hash r = h \<and> k_user_id r = u)"
proof -
  have "map_option k_user_id (find (\<lambda>r. k_hash r = h) xs) = Some u \<longleftrightarrow> (\<exists>r\<in>set xs. k_hash r = h \<and> k_user_id r = u)"
    if "distinct (map k_hash xs)" for xs
    using that by (induction xs) (auto simp: image_iff)
  then show "wf_store st \<Longrightarrow> ?thesis" unfolding key_owner_def wf_store_def by blast
qed

lemma create_api_key_Ok:
  assumes "create_api_key f kb ib n s u l = (s', Ok (plain, k))"
  shows "\<not> list_ex (\<lambda>r. k_id r = k_id k \<or> k_hash r = k_hash k) (st_keys s)"
    and "s' = s\<lparr>st_keys := st_keys s @ [k]\<rparr>" and "k_hash k = hash_key plain" and "k_user_id k = u" and "plain \<noteq> []"
  using assms unfolding create_api_key_def Let_def by (auto split: if_splits)

interpretation keys: key_store wf_store key_owner hash_key
  "\<lambda>c st u l. create_api_key (fst c) (fst (snd c)) (fst (snd (snd c))) (snd (snd (snd c))) st u l"
  "\<lambda>v st p. validate_api_key (fst v) (snd v) st p" "\<lambda>v. fst v = (False, False)"
proof (unfold_locales, goal_cases)
  case (1 s c u l s' plain k)
  note created = create_api_key_Ok [OF 1(2)]
  have f: "key_owner s (hash_key plain) = None" using created(1,3) by (fastforce simp: key_owner_None list_ex_iff)
  show ?case using created(3-5) f by (auto simp: fun_eq_iff created(2) key_owner_append split: option.split)
next
  case (2 c s u l s' e)
  then show ?case by (auto simp: create_api_key_def Let_def split: if_splits)
next
  case (3 v s plain u)
  then show ?case by (auto simp: validate_api_key_def key_owner_def split: if_splits option.splits)
next
  case (4 v plain s)
  then show ?case by (auto simp: validate_api_key_def key_owner_def split: option.splits)
next
  case (5 s v plain)
  then show ?case by (simp add: fun_eq_iff)
qed

section \<open>Runs\<close>

inductive store_step :: "string option \<Rightarrow> store \<Rightarrow> store \<Rightarrow> bool" where
  st_user: "store_step None st (fst (create_user f b n st e p))"
| st_seed: "store_step None st (fst (seed_single_user g b n st e p))"
| st_key: "store_step None st (fst (create_api_key f kb ib n st u l))"
| st_revoke: "store_step (Some u) st (fst (revoke_api_key f st u i))"
| st_validate: "store_step None st (fst (validate_api_key g n st k))"
| st_connect: "store_step None st (fst (record_connect f b n st u s h p r))"
| st_disconnect: "store_step None st (fst (record_disconnect f n st i))"

text \<open>One call of a store method; the label names the user of a revocation.\<close>

abbreviation any_store_step :: "store \<Rightarrow> store \<Rightarrow> bool" where
  "any_store_step st st' \<equiv> \<exists>l. store_step l st st'"

interpretation store_runs: invariant_system "\<lambda>st. st = empty_store" any_store_step wf_store
  by unfold_locales
    (auto simp: wf_empty_store elim!: store_step.cases
      intro: wf_create_user wf_seed wf_create_key wf_revoke wf_validate wf_connect wf_disconnect)

abbreviation reachable_store :: "store \<Rightarrow> bool" where
  "reachable_store st \<equiv> any_store_step\<^sup>*\<^sup>* empty_store st"

lemma reachable_store_wf: "reachable_store st \<Longrightarrow> wf_store st"
  using store_runs.inv_reachable by simp

lemma revoke_owner:
  assumes "wf_store st"
  shows "key_owner (fst (revoke_api_key f st w i)) h = Some u \<longleftrightarrow>
    (\<exists>r\<in>set (st_keys st). k_hash r = h \<and> k_user_id r = u \<and> (f \<or> k_id r \<noteq> i \<or> w \<noteq> u))"
  unfolding key_owner_Some [OF wf_revoke [OF assms]] by (auto simp: revoke_api_key_def)

lemma step_keeps_owner:
  assumes "store_step l st st'" "wf_store st" "l \<noteq> Some u" "key_owner st h = Some u"
  shows "key_owner st' h = Some u"
  using assms
proof cases
  case (st_key f kb ib n w lb)
  then show ?thesis using keys.others_keep_owner [OF assms(2,4), of "(f, kb, ib, n)"] by simp
next
  case (st_revoke w f i)
  then have "w \<noteq> u" using assms(3) by simp
  then show ?thesis
    using assms(4) by (auto simp: st_revoke revoke_owner [OF assms(2)] key_owner_Some [OF assms(2)])
qed simp_all

abbreviation step_sparing :: "string \<Rightarrow> store \<Rightarrow> store \<Rightarrow> bool" where
  "step_sparing u st st' \<equiv> \<exists>l. l \<noteq> Some u \<and> store_step l st st'"

lemma run_keeps_owner:
  "(step_sparing u)\<^sup>*\<^sup>* st st' \<Longrightarrow> wf_store st \<Longrightarrow> key_owner st h = Some u \<Longrightarrow>
     wf_store st' \<and> key_owner st' h = Some u"
proof (induction rule: rtranclp_induct)
  case (step y z)
  then show ?case using step_keeps_owner store_runs.inv_step by blast
qed simp

section \<open>Properties\<close>


definition key_store1 :: store where
  "key_store1 = fst (create_api_key False ''a'' ''i'' ''t0'' empty_store ''u1'' [])"

lemma create_first_key:
  "create_api_key False ''a'' ''i'' ''t0'' empty_store ''u1'' [] =
     (key_store1, Ok (''rxy_61'', \<lparr>k_id = ''69'', k_user_id = ''u1'', k_label = ''unnamed'',
        k_hash = hash_key ''rxy_61'', k_created_at = ''t0'', k_last_used_at = None\<rparr>))"
proof -
  have "hex_encode ''a'' = ''61''" "hex_encode ''i'' = ''69''" by code_simp+
  then show ?thesis by (simp add: key_store1_def create_api_key_def empty_store_def random_hex_def Let_def)
qed


text \<open>
  C29: \<open>RevokeAPIKey\<close> tells the truth and touches nothing else: it reports whether the user has a
  key of that id, afterwards no such key is accepted, and every key of another user or
  another id keeps its owner.
\<close>

theorem revoke_exact:
  assumes "reachable_store st"
    and "revoke_api_key False st userID i = (st', Ok found)"
  shows "found = (\<exists>r\<in>set (st_keys st). k_id r = i \<and> k_user_id r = userID) \<and>
    (\<forall>h u. key_owner st' h = Some u \<longleftrightarrow>
       (\<exists>r\<in>set (st_keys st). k_hash r = h \<and> k_user_id r = u \<and> (k_id r = i \<longrightarrow> u \<noteq> userID)))"
  using assms revoke_owner [OF reachable_store_wf [OF assms(1)], of False userID i]
  by (auto simp: revoke_api_key_def list_ex_iff)

theorem revoke_exact_witness:
  "snd (revoke_api_key False key_store1 ''u1'' ''69'') = Ok True \<and>
   key_owner (fst (revoke_api_key False key_store1 ''u1'' ''69'')) (hash_key ''rxy_61'') = None"
proof -
  let ?k = "\<lparr>k_id = ''69'', k_user_id = ''u1'', k_label = ''unnamed'',
        k_hash = hash_key ''rxy_61'', k_created_at = ''t0'', k_last_used_at = None\<rparr>"
  have k: "st_keys key_store1 = [?k]"
    by (simp add: create_api_key_Ok(2) [OF create_first_key] empty_store_def)
  have r: "reachable_store key_store1"
    unfolding key_store1_def by (rule r_into_rtranclp) (auto intro: st_key)
  obtain st' found where e: "revoke_api_key False key_store1 ''u1'' ''69'' = (st', Ok found)"
    by (simp add: revoke_api_key_def)
  from revoke_exact [OF r e] have "found" "\<forall>u. key_owner st' (hash_key ''rxy_61'') \<noteq> Some u"
    by (auto simp: k)
  then show ?thesis using e by (cases "key_owner st' (hash_key ''rxy_61'')") auto
qed

lemma length_filter_map_same: "(\<And>r. P (g r) = P r) \<Longrightarrow> length (filter P (map g xs)) = length (filter P xs)"
  by (induction xs) auto

lemma length_filter_distinct:
  "distinct (map f xs) \<Longrightarrow> x \<in> set xs \<Longrightarrow> length (filter (\<lambda>r. f r = f x) xs) = 1"
proof (induction xs)
  case (Cons y ys)
  show ?case
  proof (cases "f y = f x")
    case True
    then have "f r \<noteq> f x" if "r \<in> set ys" for r using Cons.prems(1) that by (metis distinct.simps(2) image_eqI list.set_map list.simps(9))
    then show ?thesis using True by simp
  next
    case False
    then show ?thesis using Cons by auto
  qed
qed simp

text \<open>
  C19: \<open>SeedSingleUser\<close> makes the environment the source of truth: after it succeeds the account
  of that email has the given password hash, under the id it had before if it existed, every
  other account is as it was, and the email has one account only.
\<close>

theorem seed_sets_password:
  assumes "reachable_store st"
    and "seed_single_user (False, False) b n st email hash = (st', Ok ())"
  shows "\<exists>u. get_user_by_email False st' email = Ok (Some u) \<and> u_password_hash u = hash \<and>
    (\<forall>u0. get_user_by_email False st email = Ok (Some u0) \<longrightarrow> u_id u = u_id u0) \<and>
    filter (\<lambda>r. u_email r \<noteq> email) (st_users st') = filter (\<lambda>r. u_email r \<noteq> email) (st_users st) \<and>
    length (filter (\<lambda>r. u_email r = email) (st_users st')) = 1"
proof -
  have w: "wf_store st" using reachable_store_wf [OF assms(1)] .
  then have d: "distinct (map u_email (st_users st))" and di: "distinct (map u_id (st_users st))" by (simp_all add: wf_store_def)
  show ?thesis
  proof (cases "find (\<lambda>r. u_email r = email) (st_users st)")
    case None
    then have no: "\<forall>r\<in>set (st_users st). u_email r \<noteq> email" by (auto simp: find_None_iff)
    have st': "st' = fst (create_user False b n st email hash)" and ok: "is_ok (snd (create_user False b n st email hash))"
      using assms(2) None
      by (auto simp: seed_single_user_def get_user_by_email_def case_prod_unfold Let_def split: sum.splits)
    define u where "u = \<lparr>u_id = random_hex b, u_email = email, u_password_hash = hash, u_created_at = n\<rparr>"
    have users: "st_users st' = st_users st @ [u]"
      using ok by (auto simp: st' create_user_def Let_def u_def split: if_splits)
    have "find (\<lambda>r. u_email r = email) (xs @ [u]) = Some u" if "\<forall>r\<in>set xs. u_email r \<noteq> email" for xs
      using that by (induction xs) (auto simp: u_def)
    with no users None show ?thesis
      by (auto simp: get_user_by_email_def u_def filter_empty_conv)
  next
    case (Some u0)
    then have u0: "u0 \<in> set (st_users st)" "u_email u0 = email"
      by (auto simp: find_Some_iff)
    let ?g = "\<lambda>r. if u_id r = u_id u0 then r\<lparr>u_password_hash := hash\<rparr> else r"
    have users: "st_users st' = map ?g (st_users st)"
      using assms(2) Some by (auto simp: seed_single_user_def get_user_by_email_def)
    have fm: "find (\<lambda>r. u_email r = email) (map ?g xs) = map_option ?g (find (\<lambda>r. u_email r = email) xs)" for xs
      by (induction xs) auto
    have f: "find (\<lambda>r. u_email r = email) (st_users st') = Some (?g u0)"
      unfolding users fm Some option.map by (rule refl)
    have other: "?g r = r" if "r \<in> set (st_users st)" "u_email r \<noteq> email" for r
    proof -
      have "r \<noteq> u0" using that u0 by auto
      then have "u_id r \<noteq> u_id u0" using di that(1) u0(1) by (auto simp: distinct_map dest: inj_onD)
      then show ?thesis by simp
    qed
    have "filter (\<lambda>r. u_email r \<noteq> email) (map ?g xs) = filter (\<lambda>r. u_email r \<noteq> email) xs" if "set xs \<subseteq> set (st_users st)" for xs
      using that other by (induction xs) auto
    then have rest: "filter (\<lambda>r. u_email r \<noteq> email) (st_users st') = filter (\<lambda>r. u_email r \<noteq> email) (st_users st)"
      by (simp add: users)
    have "length (filter (\<lambda>r. u_email r = email) (map ?g (st_users st))) = length (filter (\<lambda>r. u_email r = email) (st_users st))"
      by (rule length_filter_map_same) simp
    then have "length (filter (\<lambda>r. u_email r = email) (st_users st')) = 1"
      unfolding users using length_filter_distinct [OF d u0(1)] u0(2) by metis
    with f rest Some show ?thesis by (auto simp: get_user_by_email_def)
  qed
qed

theorem seed_sets_password_witness:
  "\<exists>u st'. seed_single_user (False, False) ''b'' ''t1'' (fst (create_user False ''a'' ''t0'' empty_store ''x@y.z'' ''h1'')) ''x@y.z'' ''h2'' = (st', Ok ()) \<and>
     get_user_by_email False st' ''x@y.z'' = Ok (Some u) \<and> u_password_hash u = ''h2''"
proof -
  let ?st = "fst (create_user False ''a'' ''t0'' empty_store ''x@y.z'' ''h1'')"
  have r: "reachable_store ?st" by (rule r_into_rtranclp) (auto intro: st_user)
  have e: "seed_single_user (False, False) ''b'' ''t1'' ?st ''x@y.z'' ''h2'' =
      (fst (seed_single_user (False, False) ''b'' ''t1'' ?st ''x@y.z'' ''h2''), Ok ())"
    by (simp add: seed_single_user_def get_user_by_email_def create_user_def empty_store_def Let_def)
  show ?thesis using seed_sets_password [OF r e] e by blast
qed

end
