(* ===== verification/Regex.thy ===== *)
theory Regex
  imports GoStrings
begin

text \<open>
  The fragment of Go's \<open>regexp\<close> that the program's patterns use: classes of characters, bounded
  and unbounded repetition of a class, sequence and option. A pattern gives the list of the
  rests it can leave; an anchored pattern matches when it can leave nothing.
\<close>

datatype rx =
    Cls "char \<Rightarrow> bool"
  | Rep "char \<Rightarrow> bool" nat "nat option"
  | Seq rx rx
  | Opt rx

text \<open>\<open>Rep P m n\<close> is the class repeated at least \<open>m\<close> and at most \<open>n\<close> times.\<close>

fun rests :: "rx \<Rightarrow> string \<Rightarrow> string list" where
  "rests (Cls P) s = (case s of [] \<Rightarrow> [] | c # t \<Rightarrow> if P c then [t] else [])"
| "rests (Rep P m n) s =
     (let run = length (takeWhile P s);
          top = (case n of None \<Rightarrow> run | Some k \<Rightarrow> min k run)
      in map (\<lambda>k. drop k s) [m..<Suc top])"
| "rests (Seq a b) s = concat (map (rests b) (rests a s))"
| "rests (Opt r) s = s # rests r s"

definition rx_match :: "rx \<Rightarrow> string \<Rightarrow> bool" where
  "rx_match r s = list_ex (\<lambda>t. t = []) (rests r s)"

definition rx_char :: "char \<Rightarrow> rx" where
  "rx_char c = Cls (\<lambda>d. d = c)"

lemma rests_Cls: "t \<in> set (rests (Cls P) s) \<longleftrightarrow> (\<exists>c. P c \<and> s = c # t)"
  by (cases s) auto

lemma takeWhile_run: "\<forall>c\<in>set u. P c \<Longrightarrow> length u \<le> length (takeWhile P (u @ t))"
  by (induction u) auto

lemma rests_Rep:
  "t \<in> set (rests (Rep P m n) s) \<longleftrightarrow>
     (\<exists>u. s = u @ t \<and> (\<forall>c\<in>set u. P c) \<and> m \<le> length u \<and> (case n of None \<Rightarrow> True | Some k \<Rightarrow> length u \<le> k))"
proof
  assume "t \<in> set (rests (Rep P m n) s)"
  then obtain k where k: "t = drop k s" "m \<le> k" "k \<le> length (takeWhile P s)" "case n of None \<Rightarrow> True | Some j \<Rightarrow> k \<le> j"
    by (auto simp: Let_def split: option.splits)
  have "k \<le> length s" using k(3) length_takeWhile_le le_trans by blast
  moreover have "\<forall>c\<in>set (take k s). P c"
  proof
    fix c
    assume "c \<in> set (take k s)"
    moreover have "take k s = take k (takeWhile P s)"
      using k(3) by (metis append_take_drop_id take_append takeWhile_eq_take take_take min.absorb1)
    ultimately show "P c" by (metis in_set_takeD set_takeWhileD)
  qed
  ultimately show "\<exists>u. s = u @ t \<and> (\<forall>c\<in>set u. P c) \<and> m \<le> length u \<and> (case n of None \<Rightarrow> True | Some k \<Rightarrow> length u \<le> k)"
    using k by (intro exI [of _ "take k s"]) (auto split: option.splits)
next
  assume "\<exists>u. s = u @ t \<and> (\<forall>c\<in>set u. P c) \<and> m \<le> length u \<and> (case n of None \<Rightarrow> True | Some k \<Rightarrow> length u \<le> k)"
  then obtain u where u: "s = u @ t" "\<forall>c\<in>set u. P c" "m \<le> length u" "case n of None \<Rightarrow> True | Some k \<Rightarrow> length u \<le> k"
    by blast
  have "length u \<le> length (takeWhile P s)" using takeWhile_run [OF u(2)] u(1) by simp
  then have "length u \<in> set [m..<Suc (case n of None \<Rightarrow> length (takeWhile P s) | Some k \<Rightarrow> min k (length (takeWhile P s)))]"
    using u by (simp only: set_upt atLeastLessThan_iff less_Suc_eq_le) (simp split: option.splits)
  moreover have "t = drop (length u) s" using u(1) by simp
  ultimately show "t \<in> set (rests (Rep P m n) s)"
    unfolding rests.simps Let_def set_map by (rule image_eqI [rotated])
qed

lemma rests_Seq: "t \<in> set (rests (Seq a b) s) \<longleftrightarrow> (\<exists>v\<in>set (rests a s). t \<in> set (rests b v))"
  by auto

lemma rests_Opt: "t \<in> set (rests (Opt r) s) \<longleftrightarrow> t = s \<or> t \<in> set (rests r s)"
  by auto

lemma rx_match_rests: "rx_match r s \<longleftrightarrow> [] \<in> set (rests r s)"
  by (auto simp: rx_match_def list_ex_iff)

declare rests.simps [simp del]

lemmas rx_sets = rx_match_rests rests_Cls rests_Rep rests_Seq rests_Opt

section \<open>Labels\<close>

text \<open>The shape of all the program's name patterns: \<open>[edge]([inner]{0,n}[edge])?\<close>.\<close>

definition label_rx :: "(char \<Rightarrow> bool) \<Rightarrow> (char \<Rightarrow> bool) \<Rightarrow> nat option \<Rightarrow> rx" where
  "label_rx edge inner n = Seq (Cls edge) (Opt (Seq (Rep inner 0 n) (Cls edge)))"

lemma label_rx_match:
  assumes "\<And>c. edge c \<Longrightarrow> inner c"
  shows "rx_match (label_rx edge inner n) s \<longleftrightarrow>
    s \<noteq> [] \<and> edge (hd s) \<and> edge (last s) \<and> (\<forall>c\<in>set s. inner c) \<and>
    (case n of None \<Rightarrow> True | Some k \<Rightarrow> length s \<le> k + 2)" (is "?L = ?R")
proof
  assume ?L
  then obtain c v where s: "s = c # v" "edge c" and v: "v = [] \<or> (\<exists>u d. v = u @ [d] \<and> (\<forall>x\<in>set u. inner x) \<and> edge d \<and>
      (case n of None \<Rightarrow> True | Some k \<Rightarrow> length u \<le> k))"
    by (auto simp: label_rx_def rx_sets)
  from v show ?R
  proof
    assume "v = []"
    then show ?R using s assms by (auto split: option.split)
  next
    assume "\<exists>u d. v = u @ [d] \<and> (\<forall>x\<in>set u. inner x) \<and> edge d \<and> (case n of None \<Rightarrow> True | Some k \<Rightarrow> length u \<le> k)"
    then show ?R using s assms by (auto split: option.splits)
  qed
next
  assume R: ?R
  then obtain c v where s: "s = c # v" by (cases s) auto
  show ?L
  proof (cases v rule: rev_cases)
    case Nil
    then show ?thesis using R s by (auto simp: label_rx_def rx_sets)
  next
    case (snoc u d)
    then have "[] \<in> set (rests (Seq (Rep inner 0 n) (Cls edge)) v)"
      unfolding rx_sets using R s by (intro bexI [of _ "[d]"]) (auto simp: rx_sets split: option.splits)
    then have "[] \<in> set (rests (Opt (Seq (Rep inner 0 n) (Cls edge))) v)" by (simp add: rests_Opt)
    moreover have "v \<in> set (rests (Cls edge) s)" using R s by (simp add: rests_Cls)
    ultimately show ?thesis unfolding label_rx_def rx_match_rests rests_Seq by (rule bexI)
  qed
qed

definition is_label_char :: "char \<Rightarrow> bool" where
  "is_label_char c = (is_alnum c \<or> c = CHR ''-'')"

definition is_dotted_char :: "char \<Rightarrow> bool" where
  "is_dotted_char c = (is_alnum c \<or> c = CHR ''-'' \<or> c = CHR ''.'')"

lemma label_char_facts [simp]:
  "is_alnum c \<Longrightarrow> is_label_char c" "is_alnum c \<Longrightarrow> is_dotted_char c" "is_label_char c \<Longrightarrow> is_dotted_char c"
  by (auto simp: is_label_char_def is_dotted_char_def)

text \<open>What a DNS label is made of, whatever its length limit.\<close>

definition dns_label :: "string \<Rightarrow> bool" where
  "dns_label s \<longleftrightarrow> s \<noteq> [] \<and> is_alnum (hd s) \<and> is_alnum (last s) \<and> (\<forall>c\<in>set s. is_label_char c)"

lemma label_rx_dns:
  "rx_match (label_rx is_alnum is_label_char n) s \<longleftrightarrow>
     dns_label s \<and> (case n of None \<Rightarrow> True | Some k \<Rightarrow> length s \<le> k + 2)"
  by (subst label_rx_match) (auto simp: dns_label_def)

lemma dns_label_no_dot: "dns_label s \<Longrightarrow> CHR ''.'' \<notin> set s"
  by (auto simp: dns_label_def is_label_char_def is_alnum_def is_lower_def is_digit_def)

lemma label_char_not_upper: "is_dotted_char c \<Longrightarrow> \<not> is_upper c"
  by (auto simp: is_dotted_char_def is_alnum_def is_lower_def is_digit_def is_upper_def)

end
