(* ===== verification/RelayServer.thy ===== *)
theory RelayServer
  imports Gate Store Regex
begin

text \<open>
  The admin host of the relay, \<open>buildMux\<close> and its helpers in \<open>backend/main.go\<close>: accounts, API
  keys, host lookup and the tunnel lists. The handlers thread the database and the signup limiter; the
  rest of what a request meets is its environment: the clocks, random bytes, bcrypt's result and
  whether the database driver fails. bcrypt's comparison, code outside the repository, is the
  parameter \<open>check_pw\<close>.
\<close>

section \<open>Names\<close>

definition service_rx :: rx where
  "service_rx = label_rx is_alnum is_label_char (Some 38)"

definition validate_service :: "string \<Rightarrow> bool" where
  "validate_service service = rx_match service_rx service"

definition loose_service_rx :: rx where
  "loose_service_rx = label_rx is_alnum is_dotted_char (Some 58)"

text \<open>Go's \<open>\s\<close> is tab, newline, form feed, return and blank.\<close>

definition email_char :: "char \<Rightarrow> bool" where
  "email_char c = (c \<noteq> CHR ''@'' \<and> code_of c \<notin> {9, 10, 12, 13, 32})"

definition email_rx :: rx where
  "email_rx = Seq (Rep email_char 1 None) (Seq (rx_char CHR ''@'') (Seq (Rep email_char 1 None)
     (Seq (rx_char CHR ''.'') (Rep email_char 1 None))))"

definition valid_email :: "string \<Rightarrow> bool" where
  "valid_email s = rx_match email_rx s"

definition tunnel_host :: "bool \<Rightarrow> string \<Rightarrow> string \<Rightarrow> string" where
  "tunnel_host singleUser userID service =
     (if singleUser then service
      else service @ ''-'' @ take 6 (hex_encode (sha256 (userID @ ''|'' @ service))))"

text \<open>The service check shared by \<open>handleWSUpgrade\<close> and \<open>/api/lookup\<close>.\<close>

definition service_ok :: "bool \<Rightarrow> string \<Rightarrow> bool" where
  "service_ok singleUser service =
     (if singleUser then rx_match loose_service_rx service else validate_service service)"

section \<open>Requests and replies\<close>

record api_request = request +
  ar_accept :: string
  ar_credentials :: "(string \<times> string) option"
  ar_label :: string

text \<open>
  \<open>ar_credentials\<close> is the email and password of the decoded JSON body, \<open>None\<close> when it does not
  decode; \<open>ar_label\<close> is what the key handler decodes, empty on any error.
\<close>

record api_env =
  en_unix :: int
  en_mono :: int
  en_stamp :: string
  en_bytes :: string
  en_bytes2 :: string
  en_bcrypt :: "string option"
  en_fail :: bool
  en_fail2 :: bool

datatype reply_body =
    PlainText string
  | HtmlPage string
  | StaticFile string
  | UserJson string string
  | KeysJson "key_row list"
  | NewKeyJson key_row string
  | LookupJson "(string \<times> string) list"
  | TunnelsJson "active_tunnel list"
  | EventsJson "event_row list"
  | NoBody

record reply =
  rp_status :: nat
  rp_location :: string
  rp_cookies :: "cookie list"
  rp_body :: reply_body

definition http_error :: "nat \<Rightarrow> string \<Rightarrow> reply" where
  "http_error status msg = \<lparr>rp_status = status, rp_location = [], rp_cookies = [], rp_body = PlainText msg\<rparr>"

definition see_other :: "string \<Rightarrow> reply" where
  "see_other loc = \<lparr>rp_status = 303, rp_location = loc, rp_cookies = [], rp_body = NoBody\<rparr>"

definition write_json :: "nat \<Rightarrow> reply_body \<Rightarrow> reply" where
  "write_json status v = \<lparr>rp_status = status, rp_location = [], rp_cookies = [], rp_body = v\<rparr>"

definition add_cookie :: "cookie \<Rightarrow> reply \<Rightarrow> reply" where
  "add_cookie c r = r\<lparr>rp_cookies := c # rp_cookies r\<rparr>"

definition wants_html :: "api_request \<Rightarrow> bool" where
  "wants_html r = (if has_prefix (rq_path r) ''/api/'' then False else str_contains (ar_accept r) ''text/html'')"

definition unauthorized :: "api_request \<Rightarrow> reply" where
  "unauthorized r = (if wants_html r then see_other ''/login'' else http_error 401 ''unauthorized'')"

text \<open>The state the handlers share, and the relay's configuration.\<close>

record relay_state =
  rl_store :: store
  rl_signup :: limiter

record relay_config =
  rc_sessions :: sessions
  rc_domain :: string
  rc_single :: bool

definition store_msg :: "store_error \<Rightarrow> string" where
  "store_msg e = (case e of DriverError \<Rightarrow> ''database error'' | UniqueViolation \<Rightarrow> ''constraint failed'')"

definition bearer :: "api_request \<Rightarrow> string" where
  "bearer r = trim_prefix (rq_authorization r) ''Bearer ''"

section \<open>Sessions\<close>

text \<open>\<open>sessioned\<close>: the user of the session cookie, or the reply that turns the request away.\<close>

definition session_user :: "relay_config \<Rightarrow> api_request \<Rightarrow> api_env \<Rightarrow> (reply, string) res" where
  "session_user cf r en =
     (case cookie_get (rq_cookies r) session_cookie of
        None \<Rightarrow> Err (unauthorized r)
      | Some v \<Rightarrow>
          (case verify (rc_sessions cf) v (en_unix en) of
             Inl _ \<Rightarrow> Err (add_cookie clear_session_cookie (unauthorized r))
           | Inr userID \<Rightarrow> Ok userID))"

definition serve_root :: "relay_config \<Rightarrow> api_request \<Rightarrow> api_env \<Rightarrow> reply" where
  "serve_root cf r en =
     (if rq_path r \<noteq> ''/'' \<and> rq_path r \<noteq> ''/index.html'' then write_json 200 (StaticFile (rq_path r))
      else case session_user cf r en of
          Inl e \<Rightarrow> e
        | Inr _ \<Rightarrow> write_json 200 (HtmlPage ''index.html''))"

definition auth_page :: "relay_config \<Rightarrow> string \<Rightarrow> api_request \<Rightarrow> api_env \<Rightarrow> reply" where
  "auth_page cf name r en =
     (case cookie_get (rq_cookies r) session_cookie of
        None \<Rightarrow> write_json 200 (HtmlPage name)
      | Some v \<Rightarrow> (case verify (rc_sessions cf) v (en_unix en) of
            Inl _ \<Rightarrow> write_json 200 (HtmlPage name)
          | Inr _ \<Rightarrow> see_other ''/''))"

section \<open>Accounts\<close>

definition api_signup :: "relay_config \<Rightarrow> relay_state \<Rightarrow> api_request \<Rightarrow> api_env \<Rightarrow> relay_state \<times> reply" where
  "api_signup cf s r en =
     (if rc_single cf then (s, http_error 403 ''signup is disabled on this relay; ask the operator for an account'')
      else if rq_method r \<noteq> ''POST'' then (s, http_error 405 ''method not allowed'')
      else
        let (lim, ok) = allow (rl_signup s) (client_ip (rq_cf_ip r) (rq_forwarded_for r) (rq_remote r)) (en_mono en);
            s1 = s\<lparr>rl_signup := lim\<rparr>
        in if \<not> ok then (s1, http_error 429 ''too many attempts, slow down'')
           else case ar_credentials r of
               None \<Rightarrow> (s1, http_error 400 ''invalid request body'')
             | Some (rawEmail, password) \<Rightarrow>
                 let email = to_lower (trim_space rawEmail)
                 in if \<not> valid_email email then (s1, http_error 400 ''enter a valid email address'')
                    else if length password < 8 then (s1, http_error 400 ''password must be at least 8 characters'')
                    else case get_user_by_email (en_fail en) (rl_store s1) email of
                        Inl e \<Rightarrow> (s1, http_error 500 (store_msg e))
                      | Inr (Some _) \<Rightarrow> (s1, http_error 409 ''an account with this email already exists'')
                      | Inr None \<Rightarrow>
                          (case en_bcrypt en of
                             None \<Rightarrow> (s1, http_error 500 ''bcrypt'')
                           | Some hash \<Rightarrow>
                               (let (st, res) = create_user (en_fail2 en) (en_bytes en) (en_stamp en) (rl_store s1) email hash
                                in case res of
                                     Inl e \<Rightarrow> (s1, http_error 500 (store_msg e))
                                   | Inr user \<Rightarrow>
                                       (s1\<lparr>rl_store := st\<rparr>,
                                        add_cookie (set_session_cookie (issue (rc_sessions cf) (u_id user) (en_unix en)))
                                          (write_json 200 (UserJson (u_id user) email))))))"

definition api_login :: "(string \<Rightarrow> string \<Rightarrow> bool) \<Rightarrow> relay_config \<Rightarrow> relay_state \<Rightarrow> api_request \<Rightarrow> api_env \<Rightarrow> reply" where
  "api_login check_pw cf s r en =
     (if rq_method r \<noteq> ''POST'' then http_error 405 ''method not allowed''
      else case ar_credentials r of
          None \<Rightarrow> http_error 400 ''invalid request body''
        | Some (rawEmail, password) \<Rightarrow>
            (case get_user_by_email (en_fail en) (rl_store s) (to_lower (trim_space rawEmail)) of
               Inl e \<Rightarrow> http_error 500 (store_msg e)
             | Inr None \<Rightarrow> http_error 401 ''wrong email or password''
             | Inr (Some user) \<Rightarrow>
                 if \<not> check_pw (u_password_hash user) password then http_error 401 ''wrong email or password''
                 else add_cookie (set_session_cookie (issue (rc_sessions cf) (u_id user) (en_unix en)))
                        (write_json 200 (UserJson (u_id user) (u_email user)))))"

definition api_logout :: reply where
  "api_logout = add_cookie clear_session_cookie (write_json 204 NoBody)"

definition api_me :: "relay_config \<Rightarrow> relay_state \<Rightarrow> api_request \<Rightarrow> api_env \<Rightarrow> reply" where
  "api_me cf s r en =
     (case session_user cf r en of
        Inl e \<Rightarrow> e
      | Inr userID \<Rightarrow>
          (case get_user_by_id (en_fail en) (rl_store s) userID of
             Inl e \<Rightarrow> http_error 500 (store_msg e)
           | Inr None \<Rightarrow> add_cookie clear_session_cookie (unauthorized r)
           | Inr (Some u) \<Rightarrow> write_json 200 (UserJson (u_id u) (u_email u))))"

section \<open>Keys\<close>

definition api_keys :: "relay_config \<Rightarrow> relay_state \<Rightarrow> api_request \<Rightarrow> api_env \<Rightarrow> relay_state \<times> reply" where
  "api_keys cf s r en =
     (case session_user cf r en of
        Inl e \<Rightarrow> (s, e)
      | Inr userID \<Rightarrow>
          if rq_method r = ''GET'' then
            (case list_api_keys (en_fail en) (rl_store s) userID of
               Inl e \<Rightarrow> (s, http_error 500 (store_msg e))
             | Inr ks \<Rightarrow> (s, write_json 200 (KeysJson ks)))
          else if rq_method r = ''POST'' then
            (let (st, res) = create_api_key (en_fail en) (en_bytes en) (en_bytes2 en) (en_stamp en) (rl_store s) userID (ar_label r)
             in case res of
                  Inl e \<Rightarrow> (s, http_error 500 (store_msg e))
                | Inr (plain, k) \<Rightarrow> (s\<lparr>rl_store := st\<rparr>, write_json 200 (NewKeyJson k plain)))
          else (s, http_error 405 ''method not allowed''))"

definition api_key_delete :: "relay_config \<Rightarrow> relay_state \<Rightarrow> api_request \<Rightarrow> api_env \<Rightarrow> relay_state \<times> reply" where
  "api_key_delete cf s r en =
     (case session_user cf r en of
        Inl e \<Rightarrow> (s, e)
      | Inr userID \<Rightarrow>
          if rq_method r \<noteq> ''DELETE'' then (s, http_error 405 ''method not allowed'')
          else
            let (st, res) = revoke_api_key (en_fail en) (rl_store s) userID (trim_prefix (rq_path r) ''/api/keys/'')
            in case res of
                 Inl e \<Rightarrow> (s, http_error 500 (store_msg e))
               | Inr ok \<Rightarrow> (s\<lparr>rl_store := st\<rparr>, if ok then write_json 204 NoBody else http_error 404 ''not found''))"

section \<open>Lookup and lists\<close>

definition lookup_hosts :: "relay_config \<Rightarrow> string \<Rightarrow> string list \<Rightarrow> (string, string) gomap" where
  "lookup_hosts cf userID services =
     fold (\<lambda>s out. if service_ok (rc_single cf) (trim_space s)
        then gput (trim_space s) (tunnel_host (rc_single cf) userID (trim_space s)) out else out) services []"

definition api_lookup :: "relay_config \<Rightarrow> relay_state \<Rightarrow> api_request \<Rightarrow> api_env \<Rightarrow> relay_state \<times> reply" where
  "api_lookup cf s r en =
     (let (st, owner) = validate_api_key (en_fail en, en_fail2 en) (en_stamp en) (rl_store s) (bearer r)
      in case owner of
           None \<Rightarrow> (s\<lparr>rl_store := st\<rparr>, http_error 401 ''unauthorized'')
         | Some userID \<Rightarrow> (s\<lparr>rl_store := st\<rparr>,
             write_json 200 (LookupJson (lookup_hosts cf userID (str_split CHR '','' (query_get (rq_raw_query r) ''services''))))))"

definition api_tunnels :: "relay_config \<Rightarrow> registry \<Rightarrow> api_request \<Rightarrow> api_env \<Rightarrow> reply" where
  "api_tunnels cf reg r en =
     (case session_user cf r en of
        Inl e \<Rightarrow> e
      | Inr userID \<Rightarrow> write_json 200 (TunnelsJson (list_active reg userID)))"

definition api_tunnel_events :: "relay_config \<Rightarrow> relay_state \<Rightarrow> api_request \<Rightarrow> api_env \<Rightarrow> reply" where
  "api_tunnel_events cf s r en =
     (case session_user cf r en of
        Inl e \<Rightarrow> e
      | Inr userID \<Rightarrow>
          (case list_tunnel_events (en_fail en) (rl_store s) userID 100 of
             Inl e \<Rightarrow> http_error 500 (store_msg e)
           | Inr evs \<Rightarrow> write_json 200 (EventsJson evs)))"

section \<open>Dispatch\<close>

text \<open>\<open>http.ServeMux\<close> on a cleaned path: the exact patterns, the one subtree, and the catch-all.\<close>

definition serve_mux ::
  "(string \<Rightarrow> string \<Rightarrow> bool) \<Rightarrow> relay_config \<Rightarrow> registry \<Rightarrow> relay_state \<Rightarrow> api_request \<Rightarrow> api_env \<Rightarrow> relay_state \<times> reply"
where
  "serve_mux check_pw cf reg s r en =
     (let p = rq_path r in
      if p = ''/login'' then (s, auth_page cf ''login.html'' r en)
      else if p = ''/signup'' then (s, if rc_single cf then see_other ''/login'' else auth_page cf ''signup.html'' r en)
      else if p = ''/api/auth/signup'' then api_signup cf s r en
      else if p = ''/api/auth/login'' then (s, api_login check_pw cf s r en)
      else if p = ''/api/auth/logout'' then (s, api_logout)
      else if p = ''/api/me'' then (s, api_me cf s r en)
      else if p = ''/api/keys'' then api_keys cf s r en
      else if has_prefix p ''/api/keys/'' then api_key_delete cf s r en
      else if p = ''/api/lookup'' then api_lookup cf s r en
      else if p = ''/api/tunnels'' then (s, api_tunnels cf reg r en)
      else if p = ''/api/tunnel-events'' then (s, api_tunnel_events cf s r en)
      else (s, serve_root cf r en))"

text \<open>The handler of \<open>main\<close>: where a request goes by its path and host.\<close>

datatype dispatch = Healthz | TunnelUpgrade | AdminMux | UnknownHost | TunnelLabel string

definition dispatch_request :: "string \<Rightarrow> string \<Rightarrow> string \<Rightarrow> string \<Rightarrow> dispatch" where
  "dispatch_request adminHost domain rawHost path =
     (let host = strip_port rawHost in
      if path = ''/healthz'' then Healthz
      else if host = adminHost then (if path = ''/_ws'' then TunnelUpgrade else AdminMux)
      else if \<not> has_suffix host (''.'' @ domain) then UnknownHost
      else TunnelLabel (trim_suffix host (''.'' @ domain)))"

text \<open>
  \<open>loadSessionSecret\<close>: the secret, and what is written to the file next to the database (\<open>None\<close>:
  nothing). A failed write ends the program.
\<close>

definition load_session_secret :: "string \<Rightarrow> string option \<Rightarrow> string \<Rightarrow> string \<times> string option" where
  "load_session_secret env_secret file bytes =
     (if env_secret \<noteq> [] then (env_secret, None)
      else case file of
          Some b \<Rightarrow> if 32 \<le> length b then (b, None) else (random_secret bytes, Some (random_secret bytes))
        | None \<Rightarrow> (random_secret bytes, Some (random_secret bytes)))"

text \<open>
  \<open>certLoader.GetCertificate\<close>. \<open>stat\<close> is the file's modification time (\<open>None\<close> on error) and
  \<open>load\<close> the parsed key pair. A nil \<open>FileInfo\<close> after a successful load is a nil dereference:
  the outer \<open>None\<close>.
\<close>

record 'cert cert_loader =
  cl_cached :: "'cert option"
  cl_mod_time :: int

definition get_certificate :: "'cert cert_loader \<Rightarrow> int option \<Rightarrow> 'cert option \<Rightarrow> ('cert cert_loader \<times> 'cert option) option" where
  "get_certificate c stat load =
     (if stat = Some (cl_mod_time c) \<and> cl_cached c \<noteq> None then Some (c, cl_cached c)
      else case load of
          None \<Rightarrow> Some (c, cl_cached c)
        | Some cert \<Rightarrow>
            (case stat of
               None \<Rightarrow> None
             | Some t \<Rightarrow> Some (\<lparr>cl_cached = Some cert, cl_mod_time = t\<rparr>, Some cert)))"

end
