(* ===== verification/ServerProps.thy ===== *)
theory ServerProps
  imports RelayServer GateProps StoreProps
begin

text \<open>
  The properties of the admin host: what each caller can do to the API keys, that looked-up
  hosts are the ones tunnels get, and the names the relay hands out.
\<close>

section \<open>Names\<close>

lemma validate_service_iff: "validate_service s \<longleftrightarrow> dns_label s \<and> length s \<le> 40"
  by (simp add: validate_service_def service_rx_def label_rx_dns)

lemma loose_service_iff:
  "rx_match loose_service_rx s \<longleftrightarrow>
     s \<noteq> [] \<and> is_alnum (hd s) \<and> is_alnum (last s) \<and> (\<forall>c\<in>set s. is_dotted_char c) \<and> length s \<le> 60"
  unfolding loose_service_rx_def by (subst label_rx_match) auto

lemma hex_digit_alnum: "is_hex_digit c \<Longrightarrow> is_alnum c"
  by (auto simp: is_hex_digit_def is_alnum_def is_digit_def is_lower_def)

lemma length_suffix [simp]: "length (take 6 (hex_encode (sha256 m))) = 6"
  by simp

text \<open>
  On a hosted relay the host of every accepted service is one DNS label of at most 47
  characters, so the wildcard certificate of the domain covers it, and two tunnels, of
  whatever accounts, can only collide on it if they asked for the same service name.
\<close>

theorem tunnel_host_label:
  assumes "validate_service s"
  shows "dns_label (tunnel_host False u s) \<and> length (tunnel_host False u s) \<le> 47 \<and>
    (\<forall>u' s'. tunnel_host False u' s' = tunnel_host False u s \<longrightarrow> s' = s)"
proof -
  let ?x = "take 6 (hex_encode (sha256 (u @ ''|'' @ s)))"
  have s: "dns_label s" "length s \<le> 40" using assms by (simp_all add: validate_service_iff)
  have x: "is_alnum c" if "c \<in> set ?x" for c
    using that hex_encode_chars [of "sha256 (u @ ''|'' @ s)"] hex_digit_alnum
    by (auto simp: list_all_iff dest: in_set_takeD)
  have ne: "?x \<noteq> []" by (metis length_suffix length_0_conv zero_neq_numeral)
  then have "is_alnum (last ?x)" using x last_in_set by blast
  then have "dns_label (s @ ''-'' @ ?x)"
    using s(1) x ne by (auto simp: dns_label_def is_label_char_def hd_append last_append)
  moreover have "s' = s" if "tunnel_host False u' s' = tunnel_host False u s" for u' s'
  proof -
    let ?y = "''-'' @ take 6 (hex_encode (sha256 (u' @ ''|'' @ s')))"
    have "s' @ ?y = s @ (''-'' @ ?x)" using that by (simp only: tunnel_host_def if_False)
    moreover have "length ?y = length (''-'' @ ?x)" by simp
    ultimately show ?thesis by (metis append_eq_append_conv)
  qed
  moreover have "tunnel_host False u s = s @ ''-'' @ ?x" by (simp add: tunnel_host_def)
  moreover have "length (s @ ''-'' @ ?x) \<le> 47" using s(2) by simp
  ultimately show ?thesis by metis
qed

theorem tunnel_host_label_witness:
  "dns_label (tunnel_host False ''u1'' ''shop'') \<and> length (tunnel_host False ''u1'' ''shop'') \<le> 47"
proof -
  have "validate_service ''shop''" by code_simp
  then show ?thesis using tunnel_host_label by blast
qed

lemma lookup_hosts_snoc:
  "lookup_hosts cf u (ss @ [s]) =
     (if service_ok (rc_single cf) (trim_space s)
      then gput (trim_space s) (tunnel_host (rc_single cf) u (trim_space s)) (lookup_hosts cf u ss)
      else lookup_hosts cf u ss)"
  by (simp add: lookup_hosts_def)

lemma lookup_hosts_exact:
  "map_of (lookup_hosts cf u services) s =
    (if s \<in> trim_space ` set services \<and> service_ok (rc_single cf) s then Some (tunnel_host (rc_single cf) u s) else None)"
  by (induction services rule: rev_induct) (auto simp: lookup_hosts_snoc lookup_hosts_def)

text \<open>
  C30: \<open>/api/lookup\<close> answers with exactly the requested services that the tunnel handshake would
  accept, each with the host that the handshake would register.
\<close>

theorem lookup_mirrors_handshake:
  "map_of (lookup_hosts cf u services) s =
    (if s \<in> trim_space ` set services \<and> service_ok (rc_single cf) s
     then Some (tunnel_host (rc_single cf) u s) else None)"
  by (rule lookup_hosts_exact)

section \<open>Keys\<close>

lemma session_user_keys:
  "snd (validate_api_key g n st k) = Some u \<Longrightarrow> key_owner st (hash_key k) = Some u"
  using keys.validate_sound [of "(g, n)" st k u] by simp

lemma key_owner_created:
  assumes "wf_store st" "create_api_key f kb ib n st u l = (st', Ok (plain, k))"
  shows "key_owner st' = (key_owner st)(hash_key plain \<mapsto> u)" "key_owner st (hash_key plain) = None"
  using keys.create_owner [OF assms(1), of "(f, kb, ib, n)" u l st' plain k] assms(2) by simp_all

lemma mux_other_keys:
  assumes w: "wf_store (rl_store s)" and m: "serve_mux chk cf reg s r en = (s', rep)"
    and o: "key_owner (rl_store s') h \<noteq> key_owner (rl_store s) h"
  shows "\<exists>u. session_user cf r en = Ok u \<and>
    ((key_owner (rl_store s) h = None \<and> key_owner (rl_store s') h = Some u \<and> rq_method r = ''POST'') \<or>
     (key_owner (rl_store s) h = Some u \<and> key_owner (rl_store s') h = None \<and> rq_method r = ''DELETE''))"
proof -
  have signup: "key_owner (rl_store (fst (api_signup cf s r en))) h = key_owner (rl_store s) h"
    using key_owner_frame(1) [of "en_fail2 en" "en_bytes en" "en_stamp en" "rl_store s"]
    by (auto simp: api_signup_def Let_def case_prod_unfold split: option.split sum.split prod.split)
  have lookup: "key_owner (rl_store (fst (api_lookup cf s r en))) h = key_owner (rl_store s) h"
    by (auto simp: api_lookup_def Let_def case_prod_unfold split: option.split)
  have "s' = fst (api_keys cf s r en) \<or> s' = fst (api_key_delete cf s r en)"
    using m o signup lookup by (auto simp: serve_mux_def Let_def split: if_splits)
  then show ?thesis
  proof
    assume s': "s' = fst (api_keys cf s r en)"
    then obtain u where u: "session_user cf r en = Ok u" using o by (auto simp: api_keys_def split: sum.splits)
    let ?c = "create_api_key (en_fail en) (en_bytes en) (en_bytes2 en) (en_stamp en) (rl_store s) u (ar_label r)"
    have p: "rq_method r = ''POST''" and ok: "is_ok (snd ?c)"
      using s' o u by (auto simp: api_keys_def case_prod_unfold Let_def split: if_splits sum.splits)
    then obtain plain k where c: "?c = (fst ?c, Ok (plain, k))"
      by (cases ?c) (auto simp: is_ok_iff)
    have "snd ?c = Ok (plain, k)" by (subst c) simp
    then have "rl_store s' = fst ?c" using s' u p by (simp add: api_keys_def case_prod_unfold Let_def)
    then have "key_owner (rl_store s') = (key_owner (rl_store s))(hash_key plain \<mapsto> u)"
      using key_owner_created(1) [OF w c] by simp
    moreover have "h = hash_key plain" using calculation o by (auto split: if_splits)
    ultimately show ?thesis using u p key_owner_created(2) [OF w c] by simp
  next
    assume s': "s' = fst (api_key_delete cf s r en)"
    then obtain u where u: "session_user cf r en = Ok u" using o by (auto simp: api_key_delete_def split: sum.splits)
    let ?i = "trim_prefix (rq_path r) ''/api/keys/''"
    let ?c = "revoke_api_key (en_fail en) (rl_store s) u ?i"
    have p: "rq_method r = ''DELETE''" and st: "rl_store s' = fst ?c"
      using s' o u by (auto simp: api_key_delete_def case_prod_unfold Let_def split: if_splits sum.splits)
    have ow: "key_owner (rl_store s') h = Some v \<longleftrightarrow>
        (\<exists>x\<in>set (st_keys (rl_store s)). k_hash x = h \<and> k_user_id x = v \<and> (en_fail en \<or> k_id x \<noteq> ?i \<or> u \<noteq> v))" for v
      unfolding st by (rule revoke_owner [OF w])
    have old: "key_owner (rl_store s) h = Some v \<longleftrightarrow> (\<exists>x\<in>set (st_keys (rl_store s)). k_hash x = h \<and> k_user_id x = v)" for v
      by (rule key_owner_Some [OF w])
    have sub: "key_owner (rl_store s) h = Some v" if "key_owner (rl_store s') h = Some v" for v
      using that ow old by blast
    have "key_owner (rl_store s') h = None" using sub o by (cases "key_owner (rl_store s') h") auto
    moreover from this o obtain v where v: "key_owner (rl_store s) h = Some v"
      by (cases "key_owner (rl_store s) h") auto
    moreover have "v = u" using v ow [of v] old [of v] calculation(1) by auto
    ultimately show ?thesis using u p by auto
  qed
qed

text \<open>
  C16: no request to the admin host changes who owns an API key except in two ways: a session of
  a user adds a key of that user, or removes a key that is the user's own. A request without
  a valid session changes no key, whatever its method, path and body.
\<close>

theorem keys_change_by_owner_only:
  assumes "reachable_store (rl_store s)" "serve_mux chk cf reg s r en = (s', rep)"
  shows "key_owner (rl_store s') h = key_owner (rl_store s) h \<or>
    (\<exists>u. session_user cf r en = Ok u \<and>
       ((key_owner (rl_store s) h = None \<and> key_owner (rl_store s') h = Some u \<and> rq_method r = ''POST'') \<or>
        (key_owner (rl_store s) h = Some u \<and> key_owner (rl_store s') h = None \<and> rq_method r = ''DELETE'')))"
  using mux_other_keys [OF reachable_store_wf [OF assms(1)] assms(2)] by blast

definition api_config :: "bool \<Rightarrow> relay_config" where
  "api_config single = \<lparr>rc_sessions = new_sessions ''k'', rc_domain = ''f43.run'', rc_single = single\<rparr>"

definition quiet_env :: "int \<Rightarrow> api_env" where
  "quiet_env now = \<lparr>en_unix = now, en_mono = 5, en_stamp = ''t1'', en_bytes = ''b'', en_bytes2 = ''c'',
     en_bcrypt = Some ''hash'', en_fail = False, en_fail2 = False\<rparr>"

definition api_get :: "string \<Rightarrow> api_request" where
  "api_get path = \<lparr>rq_method = ''GET'', rq_host = ''roxey.f43.run'', rq_path = path, rq_raw_query = [],
     rq_cookies = [], rq_authorization = [], rq_cf_ip = [], rq_forwarded_for = [],
     rq_remote = ''9.9.9.9:1'', rq_form_password = None, ar_accept = [], ar_credentials = None, ar_label = []\<rparr>"

definition demo_state :: relay_state where
  "demo_state = \<lparr>rl_store = key_store1, rl_signup = new_limiter 60 10 0\<rparr>"

theorem keys_change_by_owner_only_witness:
  "\<forall>chk reg h. key_owner (rl_store (fst (serve_mux chk (api_config True) reg demo_state
     (api_get ''/api/keys/69''\<lparr>rq_method := ''DELETE''\<rparr>) (quiet_env 5)))) h = key_owner key_store1 h"
proof (intro allI)
  fix chk reg h
  have r: "reachable_store (rl_store demo_state)"
    unfolding demo_state_def key_store1_def by (auto intro!: r_into_rtranclp intro: st_key)
  let ?r = "api_get ''/api/keys/69''\<lparr>rq_method := ''DELETE''\<rparr>"
  have "session_user cf ?r en \<noteq> Ok u" for cf en u
    by (simp add: session_user_def api_get_def cookie_get_def read_cookies_def)
  then show "key_owner (rl_store (fst (serve_mux chk (api_config True) reg demo_state ?r (quiet_env 5)))) h = key_owner key_store1 h"
    using keys_change_by_owner_only [OF r, of chk "api_config True" reg ?r "quiet_env 5" _ _ h]
    by (cases "serve_mux chk (api_config True) reg demo_state ?r (quiet_env 5)") (simp add: demo_state_def)
qed


definition stolen_token :: "string" where
  "stolen_token = issue_gate (new_sessions ''k'') ''shop'' 0"

definition mint_request :: api_request where
  "mint_request = api_get ''/api/keys''\<lparr>rq_method := ''POST'', rq_cookies := [cookie_line (set_session_cookie stolen_token)]\<rparr>"

definition no_accounts :: relay_state where
  "no_accounts = \<lparr>rl_store = empty_store, rl_signup = new_limiter 60 10 0\<rparr>"


section \<open>Signup\<close>

text \<open>
  C34: a signup that succeeds on a hosted relay has created the account of the trimmed,
  lower-cased email with the hash of the password, has set a cookie that is a session of the
  new user for a week, and the same email and password log in afterwards as that user.
\<close>

theorem signup_then_login:
  assumes "reachable_store (rl_store s)" "api_signup cf s r en = (s', rep)" "rp_status rep = 200"
    and "ar_credentials r = Some (rawEmail, password)"
    and "\<And>hash. en_bcrypt en = Some hash \<Longrightarrow> chk hash password"
    and "rq_method login = ''POST''" "ar_credentials login = Some (rawEmail, password)" "\<not> en_fail later"
    and "in_int64 (en_unix en + session_ttl)" "now \<le> en_unix en + session_ttl"
  shows "\<exists>(u::user_row) c. rp_cookies rep = [c] \<and> verify (rc_sessions cf) (ck_value c) now = Ok (u_id u) \<and>
    u_email u = to_lower (trim_space rawEmail) \<and> en_bcrypt en = Some (u_password_hash u) \<and>
    rp_body (api_login chk cf s' login later) = UserJson (u_id u) (u_email u)"
proof -
  have w: "wf_store (rl_store s)" using reachable_store_wf [OF assms(1)] .
  define email where "email = to_lower (trim_space rawEmail)"
  let ?s1 = "s\<lparr>rl_signup := fst (allow (rl_signup s) (client_ip (rq_cf_ip r) (rq_forwarded_for r) (rq_remote r)) (en_mono en))\<rparr>"
  obtain hash where hash: "en_bcrypt en = Some hash" and nf: "find (\<lambda>x. u_email x = email) (st_users (rl_store s)) = None"
    and res: "snd (create_user (en_fail2 en) (en_bytes en) (en_stamp en) (rl_store s) email hash) \<noteq> Err DriverError \<and>
      snd (create_user (en_fail2 en) (en_bytes en) (en_stamp en) (rl_store s) email hash) \<noteq> Err UniqueViolation"
    using assms(2,3,4)
    by (auto simp: api_signup_def email_def [symmetric] Let_def case_prod_unfold http_error_def get_user_by_email_def
        split: if_splits option.splits sum.splits)
  define u where "u = \<lparr>u_id = random_hex (en_bytes en), u_email = email, u_password_hash = hash, u_created_at = en_stamp en\<rparr>"
  have cr: "create_user (en_fail2 en) (en_bytes en) (en_stamp en) (rl_store s) email hash =
      ((rl_store s)\<lparr>st_users := st_users (rl_store s) @ [u]\<rparr>, Ok u)"
    using res by (auto simp: create_user_def u_def Let_def split: if_splits)
  have s': "s' = ?s1\<lparr>rl_store := (rl_store s)\<lparr>st_users := st_users (rl_store s) @ [u]\<rparr>\<rparr>"
    and rep: "rep = add_cookie (set_session_cookie (issue (rc_sessions cf) (u_id u) (en_unix en))) (write_json 200 (UserJson (u_id u) email))"
    using assms(2,3,4) hash nf cr
    by (auto simp: api_signup_def email_def [symmetric] Let_def case_prod_unfold http_error_def get_user_by_email_def
        split: if_splits option.splits sum.splits)
  have "find (\<lambda>x. u_email x = email) (xs @ [u]) = Some u" if "find (\<lambda>x. u_email x = email) xs = None" for xs
    using that by (induction xs) (auto simp: u_def split: if_splits)
  then have f: "find (\<lambda>x. u_email x = email) (st_users (rl_store s')) = Some u" using nf by (simp add: s')
  have "rp_body (api_login chk cf s' login later) = UserJson (u_id u) (u_email u)"
    using assms(5) [OF hash] assms(6-8) f
    by (simp add: api_login_def get_user_by_email_def email_def [symmetric] u_def add_cookie_def write_json_def)
  moreover have "CHR ''|'' \<notin> set (u_id u)"
    by (simp add: u_def random_hex_def hex_encode_no is_hex_digit_def is_digit_def)
  then have "verify (rc_sessions cf) (issue (rc_sessions cf) (u_id u) (en_unix en)) now = Ok (u_id u)"
    using verify_grant [of "SessionGrant (u_id u) (en_unix en)" "rc_sessions cf" now] assms(9,10)
    by (simp add: plain_grant_def fresh_def)
  ultimately show ?thesis
    using hash
    by (intro exI [of _ u] exI [of _ "set_session_cookie (issue (rc_sessions cf) (u_id u) (en_unix en))"])
      (simp add: rep add_cookie_def write_json_def set_session_cookie_def u_def email_def)
qed

definition join_request :: api_request where
  "join_request = api_get ''/api/auth/signup''\<lparr>rq_method := ''POST'', ar_credentials := Some ('' Jo@x.io'', ''longsecret'')\<rparr>"

lemma join_email: "to_lower (trim_space '' Jo@x.io'') = ''jo@x.io''" "valid_email ''jo@x.io''"
  by code_simp+

theorem signup_then_login_witness:
  "\<exists>s' rep (u::user_row). api_signup (api_config False) no_accounts join_request (quiet_env 5) = (s', rep) \<and> rp_status rep = 200 \<and>
     u_email u = ''jo@x.io'' \<and>
     rp_body (api_login (\<lambda>h p. h = ''hash'' \<and> p = ''longsecret'') (api_config False) s' join_request (quiet_env 9)) = UserJson (u_id u) (u_email u)"
proof -
  let ?p = "api_signup (api_config False) no_accounts join_request (quiet_env 5)"
  have a: "snd (allow (new_limiter 60 10 0) ip 5)" for ip
    by (simp add: allow_def new_limiter_def hits_of_def keep_after_def minute_def Let_def)
  have st: "rp_status (snd ?p) = 200"
    by (simp add: api_signup_def api_config_def join_request_def api_get_def no_accounts_def quiet_env_def
        get_user_by_email_def create_user_def empty_store_def add_cookie_def write_json_def Let_def case_prod_unfold
        a join_email [simplified])
  have r: "reachable_store (rl_store no_accounts)" by (simp add: no_accounts_def)
  have i: "in_int64 (en_unix (quiet_env 5) + session_ttl)" "9 \<le> en_unix (quiet_env 5) + session_ttl"
    by (simp_all add: in_int64_def session_ttl_def max_int64_def min_int64_def quiet_env_def)
  have j: "ar_credentials join_request = Some ('' Jo@x.io'', ''longsecret'')" "rq_method join_request = ''POST''"
    by (simp_all add: join_request_def)
  show ?thesis
    using signup_then_login [OF r prod.collapse [symmetric, of ?p] st j(1) _ j(2) j(1) _ i,
        of "\<lambda>h p. h = ''hash'' \<and> p = ''longsecret''" "quiet_env 9"] st join_email
    by (auto simp: quiet_env_def intro!: exI [of _ "fst ?p"] exI [of _ "snd ?p"])
qed

end
