(* ===== verification/TunnelConn.thy ===== *)
theory TunnelConn
  imports RelayServer RelayProps StoreProps
begin

text \<open>
  \<open>handleWSUpgrade\<close> in \<open>backend/main.go\<close>: the life of one tunnel connection, as a transition
  system in which any number of connections and visitors interleave. A connection is checked
  and upgraded, registers its route as pending, sends the CLI its host, is released for
  streams, and unregisters when the session drops. The database log of connections is
  threaded through; a connection is named by the number of its session.
\<close>

section \<open>The handshake\<close>

record handshake =
  hs_user :: string
  hs_service :: string
  hs_host :: string
  hs_path :: string
  hs_template :: entry_template

definition protect_hash_of :: "string \<Rightarrow> string" where
  "protect_hash_of secret = (if secret \<noteq> [] then hex_encode (sha256 secret) else [])"

definition reg_msg :: "reg_error \<Rightarrow> string" where
  "reg_msg e = (case e of ServiceInUse \<Rightarrow> ''service already in use'' | PathInUse \<Rightarrow> ''path already in use'')"

text \<open>Everything before the websocket upgrade: the plain HTTP errors, or the template to register.\<close>

definition ws_handshake ::
  "relay_config \<Rightarrow> registry \<Rightarrow> store \<Rightarrow> api_request \<Rightarrow> api_env \<Rightarrow> store \<times> (reply, handshake) res"
where
  "ws_handshake cf reg st r en =
     (let (st1, owner) = validate_api_key (en_fail en, en_fail2 en) (en_stamp en) st (bearer r)
      in case owner of
           None \<Rightarrow> (st1, Err (http_error 401 ''unauthorized''))
         | Some userID \<Rightarrow>
             let service = query_get (rq_raw_query r) ''service'';
                 pathPrefix = query_get (rq_raw_query r) ''path''
             in if \<not> service_ok (rc_single cf) service then (st1, Err (http_error 400 ''invalid service name''))
                else
                  let host = tunnel_host (rc_single cf) userID service;
                      ph = protect_hash_of (query_get (rq_raw_query r) ''protect'')
                  in case check reg host pathPrefix of
                       Inl e \<Rightarrow> (st1, Err (http_error 409 (reg_msg e)))
                     | Inr _ \<Rightarrow> (st1, Ok \<lparr>hs_user = userID, hs_service = service, hs_host = host, hs_path = pathPrefix,
                           hs_template = \<lparr>t_service = service, t_host = host, t_user = userID,
                             t_gate_group = query_get (rq_raw_query r) ''gate_group'',
                             t_protect_hash = ph, t_pending = True\<rparr>\<rparr>))"

section \<open>The connections\<close>

text \<open>What the CLI receives: its greeting, a refusal (close code 4000), or a stream being opened.\<close>

datatype frame = Greeting string | CloseFrame string | StreamOpen

datatype phase =
    Upgraded handshake
  | Pending handshake entry
  | Greeted handshake entry
  | Live handshake entry string
  | Ended

record conn =
  cn_phase :: phase
  cn_sent :: "frame list"

record relay_world =
  rw_reg :: registry
  rw_store :: store
  rw_conns :: "nat \<Rightarrow> conn option"
  rw_visitors :: "entry list"

definition new_world :: "store \<Rightarrow> relay_world" where
  "new_world st = \<lparr>rw_reg = new_registry, rw_store = st, rw_conns = \<lambda>_. None, rw_visitors = []\<rparr>"

definition set_conn :: "relay_world \<Rightarrow> nat \<Rightarrow> phase \<Rightarrow> frame list \<Rightarrow> relay_world" where
  "set_conn w i ph fs = w\<lparr>rw_conns := (rw_conns w)(i \<mapsto> \<lparr>cn_phase = ph, cn_sent = fs\<rparr>)\<rparr>"

text \<open>
  The steps of \<open>handleWSUpgrade\<close> in the order of the code, each on one connection. A visitor's
  request first resolves to an entry (\<open>world_resolve\<close>) and opens its stream in a later step,
  once the entry is released and while the session is open (\<open>world_stream\<close>: \<open>OpenStream\<close>);
  \<open>world_http\<close> is whatever else changes the database.
\<close>

inductive world_step :: "relay_world \<Rightarrow> relay_world \<Rightarrow> bool" where
  world_accept:
    "\<lbrakk> ws_handshake cf (rw_reg w) (rw_store w) r en = (st, Ok h); rw_conns w i = None \<rbrakk> \<Longrightarrow>
       world_step w (set_conn (w\<lparr>rw_store := st\<rparr>) i (Upgraded h) [])"
| world_refuse:
    "ws_handshake cf (rw_reg w) (rw_store w) r en = (st, Err e) \<Longrightarrow> world_step w (w\<lparr>rw_store := st\<rparr>)"
| world_register:
    "\<lbrakk> rw_conns w i = Some \<lparr>cn_phase = Upgraded h, cn_sent = fs\<rparr>;
       register (rw_reg w) (hs_template h) (hs_path h) i remote now = (reg, Ok e) \<rbrakk> \<Longrightarrow>
       world_step w (set_conn (w\<lparr>rw_reg := reg\<rparr>) i (Pending h e) fs)"
| world_taken:
    "\<lbrakk> rw_conns w i = Some \<lparr>cn_phase = Upgraded h, cn_sent = fs\<rparr>;
       register (rw_reg w) (hs_template h) (hs_path h) i remote now = (reg, Err err) \<rbrakk> \<Longrightarrow>
       world_step w (set_conn (w\<lparr>rw_reg := reg\<rparr>) i Ended (fs @ [CloseFrame (reg_msg err)]))"
| world_greet:
    "rw_conns w i = Some \<lparr>cn_phase = Pending h e, cn_sent = fs\<rparr> \<Longrightarrow>
       world_step w (set_conn w i (Greeted h e) (fs @ [Greeting (hs_host h)]))"
| world_greet_failed:
    "rw_conns w i = Some \<lparr>cn_phase = Pending h e, cn_sent = fs\<rparr> \<Longrightarrow>
       world_step w (set_conn (w\<lparr>rw_reg := unregister (rw_reg w) (hs_host h) (hs_path h) e\<rparr>) i Ended fs)"
| world_ready:
    "\<lbrakk> rw_conns w i = Some \<lparr>cn_phase = Greeted h e, cn_sent = fs\<rparr>;
       record_connect failed bytes stamp (rw_store w) (hs_user h) (hs_service h) (hs_host h) (hs_path h) remote = (st, ev, res) \<rbrakk> \<Longrightarrow>
       world_step w (set_conn (w\<lparr>rw_reg := mark_ready (rw_reg w) e, rw_store := st\<rparr>) i (Live h e ev) fs)"
| world_resolve:
    "resolve (rw_reg w) host path = Some e \<Longrightarrow> world_step w (w\<lparr>rw_visitors := e # rw_visitors w\<rparr>)"
| world_stream:
    "\<lbrakk> e \<in> set (rw_visitors w); open_stream (is_ready (rw_reg w) e) (ph = Ended) (Some ()) = Ok ();
       rw_conns w (e_session e) = Some \<lparr>cn_phase = ph, cn_sent = fs\<rparr> \<rbrakk> \<Longrightarrow>
       world_step w (set_conn w (e_session e) ph (fs @ [StreamOpen]))"
| world_drop:
    "\<lbrakk> rw_conns w i = Some \<lparr>cn_phase = Live h e ev, cn_sent = fs\<rparr>;
       (if ev \<noteq> [] then st = fst (record_disconnect failed stamp (rw_store w) ev) else st = rw_store w) \<rbrakk> \<Longrightarrow>
       world_step w (set_conn (w\<lparr>rw_reg := unregister (rw_reg w) (hs_host h) (hs_path h) e, rw_store := st\<rparr>) i Ended fs)"
| world_http:
    "any_store_step (rw_store w) st \<Longrightarrow> world_step w (w\<lparr>rw_store := st\<rparr>)"

section \<open>The invariant\<close>

text \<open>The entry a connection holds in the registry, with its route.\<close>

fun held_entry :: "phase \<Rightarrow> ((string \<times> string) \<times> entry) option" where
  "held_entry (Pending h e) = Some ((hs_host h, hs_path h), e)"
| "held_entry (Greeted h e) = Some ((hs_host h, hs_path h), e)"
| "held_entry (Live h e ev) = Some ((hs_host h, hs_path h), e)"
| "held_entry _ = None"

fun released :: "phase \<Rightarrow> bool" where
  "released (Live h e ev) = True"
| "released _ = False"

fun unheard :: "phase \<Rightarrow> bool" where
  "unheard (Upgraded h) = True"
| "unheard (Pending h e) = True"
| "unheard _ = False"

text \<open>The frames of a connection: nothing yet, a refusal alone, or the greeting of its host first.\<close>

fun frames_ok :: "frame list \<Rightarrow> bool" where
  "frames_ok [] = True"
| "frames_ok [CloseFrame m] = True"
| "frames_ok (Greeting h # fs) = (\<forall>f\<in>set fs. f = StreamOpen)"
| "frames_ok _ = False"

fun phase_handshake :: "phase \<Rightarrow> handshake option" where
  "phase_handshake (Upgraded h) = Some h"
| "phase_handshake (Pending h e) = Some h"
| "phase_handshake (Greeted h e) = Some h"
| "phase_handshake (Live h e ev) = Some h"
| "phase_handshake Ended = None"

definition conn_ok :: "registry \<Rightarrow> nat \<Rightarrow> conn \<Rightarrow> bool" where
  "conn_ok reg i c \<longleftrightarrow>
     frames_ok (cn_sent c) \<and>
     (unheard (cn_phase c) \<longrightarrow> cn_sent c = []) \<and>
     (held_entry (cn_phase c) \<noteq> None \<longrightarrow> \<not> unheard (cn_phase c) \<longrightarrow> (\<exists>h fs. cn_sent c = Greeting h # fs)) \<and>
     (\<forall>h. phase_handshake (cn_phase c) = Some h \<longrightarrow> t_host (hs_template h) = hs_host h \<and> t_pending (hs_template h)) \<and>
     (\<forall>r e. held_entry (cn_phase c) = Some (r, e) \<longrightarrow>
        routes reg r = Some e \<and> e_session e = i \<and> (is_ready reg e \<longrightarrow> released (cn_phase c)))"

definition routes_by_ptr :: "registry \<Rightarrow> bool" where
  "routes_by_ptr reg \<longleftrightarrow> (\<forall>r e r' e'. routes reg r = Some e \<longrightarrow> routes reg r' = Some e' \<longrightarrow> e_ptr e = e_ptr e' \<longrightarrow> r = r')"

definition visitor_ok :: "(nat \<Rightarrow> conn option) \<Rightarrow> entry \<Rightarrow> bool" where
  "visitor_ok conns e \<longleftrightarrow> (\<exists>c. conns (e_session e) = Some c \<and> (cn_phase c = Ended \<or> (\<exists>r. held_entry (cn_phase c) = Some (r, e))))"

definition world_inv :: "relay_world \<Rightarrow> bool" where
  "world_inv w \<longleftrightarrow> wf_registry (rw_reg w) \<and> routes_by_ptr (rw_reg w) \<and>
     (\<forall>i c. rw_conns w i = Some c \<longrightarrow> conn_ok (rw_reg w) i c) \<and>
     (\<forall>r e. routes (rw_reg w) r = Some e \<longrightarrow>
        (\<exists>c. rw_conns w (e_session e) = Some c \<and> held_entry (cn_phase c) = Some (r, e))) \<and>
     (\<forall>e\<in>set (rw_visitors w). visitor_ok (rw_conns w) e)"

lemma world_invD:
  assumes "world_inv w"
  shows "wf_registry (rw_reg w)" "routes_by_ptr (rw_reg w)"
    "rw_conns w i = Some c \<Longrightarrow> conn_ok (rw_reg w) i c"
    "routes (rw_reg w) r = Some e \<Longrightarrow> \<exists>c. rw_conns w (e_session e) = Some c \<and> held_entry (cn_phase c) = Some (r, e)"
    "e \<in> set (rw_visitors w) \<Longrightarrow> visitor_ok (rw_conns w) e"
  using assms unfolding world_inv_def by blast+

text \<open>One connection moves and the registry with it: what has to be shown of the step.\<close>

lemma world_inv_update:
  assumes I: "world_inv w" and w': "w' = set_conn (w\<lparr>rw_reg := reg, rw_store := st\<rparr>) i ph fs"
    and wf: "wf_registry reg" "routes_by_ptr reg"
    and others: "\<And>j c r e. j \<noteq> i \<Longrightarrow> rw_conns w j = Some c \<Longrightarrow> held_entry (cn_phase c) = Some (r, e) \<Longrightarrow>
          routes reg r = Some e \<and> (is_ready reg e \<longrightarrow> is_ready (rw_reg w) e)"
    and own: "conn_ok reg i \<lparr>cn_phase = ph, cn_sent = fs\<rparr>"
    and came: "\<And>r e. routes reg r = Some e \<Longrightarrow> (routes (rw_reg w) r = Some e \<and> e_session e \<noteq> i) \<or> held_entry ph = Some (r, e)"
    and keep: "\<And>c r e. rw_conns w i = Some c \<Longrightarrow> held_entry (cn_phase c) = Some (r, e) \<Longrightarrow> ph = Ended \<or> held_entry ph = Some (r, e)"
    and ended: "\<And>c. rw_conns w i = Some c \<Longrightarrow> cn_phase c = Ended \<Longrightarrow> ph = Ended"
  shows "world_inv w'"
proof -
  have conns: "rw_conns w' = (rw_conns w)(i \<mapsto> \<lparr>cn_phase = ph, cn_sent = fs\<rparr>)" and reg': "rw_reg w' = reg"
    and vis: "rw_visitors w' = rw_visitors w"
    by (simp_all add: w' set_conn_def)
  have ok: "conn_ok reg j c" if "rw_conns w' j = Some c" for j c
  proof (cases "j = i")
    case True
    then show ?thesis using that own by (simp add: conns)
  next
    case False
    then have c: "rw_conns w j = Some c" using that by (simp add: conns)
    have "conn_ok (rw_reg w) j c" using world_invD(3) [OF I c] .
    then show ?thesis using others [OF False c] unfolding conn_ok_def by blast
  qed
  have held: "\<exists>c. rw_conns w' (e_session e) = Some c \<and> held_entry (cn_phase c) = Some (r, e)" if "routes reg r = Some e" for r e
  proof (cases "held_entry ph = Some (r, e)")
    case True
    then have "e_session e = i" using own by (simp add: conn_ok_def)
    then show ?thesis using True by (simp add: conns)
  next
    case False
    then show ?thesis using came [OF that] world_invD(4) [OF I, of r e] by (auto simp: conns)
  qed
  have "visitor_ok (rw_conns w') e" if e: "visitor_ok (rw_conns w) e" for e
  proof (cases "e_session e = i")
    case True
    then show ?thesis using e keep ended unfolding visitor_ok_def conns by fastforce
  next
    case False
    then show ?thesis using e unfolding visitor_ok_def conns by simp
  qed
  then show ?thesis
    using wf ok held world_invD(5) [OF I] unfolding world_inv_def reg' vis by blast
qed

section \<open>The registry under the steps\<close>

lemma closed_ready_register: "t_pending t \<Longrightarrow> closed_ready (fst (register r t p s m n)) = closed_ready r"
  by (simp add: register_def Let_def)

lemma closed_ready_unregister [simp]: "closed_ready (unregister r h p e) = closed_ready r"
  by (simp add: unregister_unfold put_table_def split: option.split)

lemma is_ready_unregister [simp]: "is_ready (unregister r h p e) x = is_ready r x"
  by (simp add: is_ready_def)

lemma routes_mark_ready [simp]: "routes (mark_ready r e) = routes r"
  by (auto simp: mark_ready_def routes_def fun_eq_iff)

lemma is_ready_mark [simp]: "is_ready (mark_ready r e) x \<longleftrightarrow> is_ready r x \<or> e_ptr x = e_ptr e"
  by (auto simp: mark_ready_def is_ready_def)

lemma world_inv_store: "world_inv w \<Longrightarrow> world_inv (w\<lparr>rw_store := st\<rparr>)"
  by (simp add: world_inv_def)

text \<open>A step that changes the registry by adding the route of connection \<open>i\<close>.\<close>

lemma inv_register:
  assumes I: "world_inv w" and c: "rw_conns w i = Some \<lparr>cn_phase = Upgraded h, cn_sent = fs\<rparr>"
    and reg: "register (rw_reg w) (hs_template h) (hs_path h) i remote now = (reg, Ok e)"
  shows "world_inv (set_conn (w\<lparr>rw_reg := reg\<rparr>) i (Pending h e) fs)"
proof -
  have wf: "wf_registry (rw_reg w)" and ok: "conn_ok (rw_reg w) i \<lparr>cn_phase = Upgraded h, cn_sent = fs\<rparr>"
    using world_invD(1) [OF I] world_invD(3) [OF I c] by simp_all
  then have th: "t_host (hs_template h) = hs_host h" "t_pending (hs_template h)" and fs: "fs = []"
    by (simp_all add: conn_ok_def)
  note E = register_Ok_entry [OF wf reg]
  have rt: "routes reg = (routes (rw_reg w))((hs_host h, hs_path h) \<mapsto> e)"
    using register_result(1) [OF wf E(3), of i remote now] reg th by auto
  have cl: "closed_ready reg = closed_ready (rw_reg w)"
    using closed_ready_register [OF th(2), of "rw_reg w" "hs_path h" i remote now] reg by simp
  have fresh: "e_ptr d < e_ptr e" if "routes (rw_reg w) r = Some d" for r d
    using routes_ptr(1) [OF wf, of "fst r" "snd r"] that by (simp add: E(1) new_entry_def)
  have nr: "\<not> is_ready reg e"
    using wf by (auto simp: is_ready_def cl wf_registry_def E(1) new_entry_def)
  have s: "e_session e = i" by (simp add: E(1) new_entry_def)
  show ?thesis
  proof (rule world_inv_update [where st = "rw_store w", OF I])
    show "set_conn (w\<lparr>rw_reg := reg\<rparr>) i (Pending h e) fs = set_conn (w\<lparr>rw_reg := reg, rw_store := rw_store w\<rparr>) i (Pending h e) fs"
      by simp
    show "wf_registry reg" using register_wf [OF wf, of "hs_template h" "hs_path h" i remote now] reg by simp
    show "routes_by_ptr reg"
      using world_invD(2) [OF I] fresh unfolding routes_by_ptr_def rt
      by (auto simp: less_imp_neq split: if_splits dest: less_imp_neq) (metis less_irrefl)+
    show "routes reg r = Some d \<and> (is_ready reg d \<longrightarrow> is_ready (rw_reg w) d)"
      if "j \<noteq> i" "rw_conns w j = Some c'" "held_entry (cn_phase c') = Some (r, d)" for j c' r d
    proof -
      have "routes (rw_reg w) r = Some d" using world_invD(3) [OF I that(2)] that(3) by (simp add: conn_ok_def)
      moreover from this have "r \<noteq> (hs_host h, hs_path h)" using E(3) th by auto
      ultimately show ?thesis by (simp add: rt is_ready_def cl)
    qed
    show "conn_ok reg i \<lparr>cn_phase = Pending h e, cn_sent = fs\<rparr>"
      using th nr s by (simp add: conn_ok_def fs rt)
    show "routes (rw_reg w) r = Some d \<and> e_session d \<noteq> i \<or> held_entry (Pending h e) = Some (r, d)"
      if "routes reg r = Some d" for r d
    proof (cases "r = (hs_host h, hs_path h)")
      case True
      with that show ?thesis by (simp add: rt)
    next
      case False
      with that have "routes (rw_reg w) r = Some d" by (simp add: rt)
      moreover from world_invD(4) [OF I this] c have "e_session d \<noteq> i" by auto
      ultimately show ?thesis by simp
    qed
  qed (use c in auto)
qed

text \<open>A step that moves connection \<open>i\<close> and leaves its route alone.\<close>

lemma inv_same_registry:
  assumes I: "world_inv w" and c: "rw_conns w i = Some \<lparr>cn_phase = ph0, cn_sent = fs0\<rparr>"
    and own: "conn_ok (rw_reg w) i \<lparr>cn_phase = ph, cn_sent = fs\<rparr>"
    and held: "held_entry ph = held_entry ph0" and e: "ph0 = Ended \<Longrightarrow> ph = Ended"
  shows "world_inv (set_conn w i ph fs)"
proof (rule world_inv_update [where st = "rw_store w" and reg = "rw_reg w", OF I])
  show "set_conn w i ph fs = set_conn (w\<lparr>rw_reg := rw_reg w, rw_store := rw_store w\<rparr>) i ph fs" by simp
  show "routes (rw_reg w) r = Some d \<and> (is_ready (rw_reg w) d \<longrightarrow> is_ready (rw_reg w) d)"
    if "j \<noteq> i" "rw_conns w j = Some c'" "held_entry (cn_phase c') = Some (r, d)" for j c' r d
    using world_invD(3) [OF I that(2)] that(3) by (simp add: conn_ok_def)
  show "routes (rw_reg w) r = Some d \<and> e_session d \<noteq> i \<or> held_entry ph = Some (r, d)"
    if "routes (rw_reg w) r = Some d" for r d
    using world_invD(4) [OF I that] c held that by auto
qed (use c own held e world_invD(1,2) [OF I] in auto)

text \<open>A step that ends connection \<open>i\<close> and takes its route away.\<close>

lemma inv_unregister:
  assumes I: "world_inv w" and c: "rw_conns w i = Some \<lparr>cn_phase = ph, cn_sent = fs\<rparr>"
    and h: "held_entry ph = Some ((hs_host h, hs_path h), e)"
  shows "world_inv (set_conn (w\<lparr>rw_reg := unregister (rw_reg w) (hs_host h) (hs_path h) e, rw_store := st\<rparr>) i Ended fs)"
proof -
  let ?reg = "unregister (rw_reg w) (hs_host h) (hs_path h) e"
  have wf: "wf_registry (rw_reg w)" and ok: "conn_ok (rw_reg w) i \<lparr>cn_phase = ph, cn_sent = fs\<rparr>"
    using world_invD(1) [OF I] world_invD(3) [OF I c] by simp_all
  then have r: "routes (rw_reg w) (hs_host h, hs_path h) = Some e" and s: "e_session e = i" and f: "frames_ok fs"
    using h by (simp_all add: conn_ok_def)
  have rt: "routes ?reg = (routes (rw_reg w))((hs_host h, hs_path h) := None)"
    using relay.remove_present [OF wf r] .
  show ?thesis
  proof (rule world_inv_update [OF I refl])
    show "wf_registry ?reg" using wf by (rule unregister_wf)
    show "routes_by_ptr ?reg" using world_invD(2) [OF I] unfolding routes_by_ptr_def rt by (auto split: if_splits)
    show "routes ?reg r' = Some d \<and> (is_ready ?reg d \<longrightarrow> is_ready (rw_reg w) d)"
      if "j \<noteq> i" "rw_conns w j = Some c'" "held_entry (cn_phase c') = Some (r', d)" for j c' r' d
    proof -
      have "routes (rw_reg w) r' = Some d" "e_session d = j"
        using world_invD(3) [OF I that(2)] that(3) by (simp_all add: conn_ok_def)
      moreover from this have "r' \<noteq> (hs_host h, hs_path h)" using r s that(1) by auto
      ultimately show ?thesis by (simp add: rt)
    qed
    show "conn_ok ?reg i \<lparr>cn_phase = Ended, cn_sent = fs\<rparr>" using f by (simp add: conn_ok_def)
    show "routes (rw_reg w) r' = Some d \<and> e_session d \<noteq> i \<or> held_entry Ended = Some (r', d)"
      if "routes ?reg r' = Some d" for r' d
    proof -
      have a: "routes (rw_reg w) r' = Some d" and n: "r' \<noteq> (hs_host h, hs_path h)" using that by (auto simp: rt split: if_splits)
      have "e_session d \<noteq> i" using world_invD(4) [OF I a] c h n by auto
      with a show ?thesis by simp
    qed
  qed (use c h in auto)
qed

lemma inv_ready:
  assumes I: "world_inv w" and c: "rw_conns w i = Some \<lparr>cn_phase = Greeted h e, cn_sent = fs\<rparr>"
  shows "world_inv (set_conn (w\<lparr>rw_reg := mark_ready (rw_reg w) e, rw_store := st\<rparr>) i (Live h e ev) fs)"
proof -
  have wf: "wf_registry (rw_reg w)" and ok: "conn_ok (rw_reg w) i \<lparr>cn_phase = Greeted h e, cn_sent = fs\<rparr>"
    using world_invD(1) [OF I] world_invD(3) [OF I c] by simp_all
  then have r: "routes (rw_reg w) (hs_host h, hs_path h) = Some e" and s: "e_session e = i" by (simp_all add: conn_ok_def)
  show ?thesis
  proof (rule world_inv_update [OF I refl])
    show "wf_registry (mark_ready (rw_reg w) e)" using wf routes_ptr(1) [OF wf r] by (rule mark_ready_wf)
    show "routes_by_ptr (mark_ready (rw_reg w) e)" using world_invD(2) [OF I] by (simp add: routes_by_ptr_def)
    show "routes (mark_ready (rw_reg w) e) r' = Some d \<and> (is_ready (mark_ready (rw_reg w) e) d \<longrightarrow> is_ready (rw_reg w) d)"
      if "j \<noteq> i" "rw_conns w j = Some c'" "held_entry (cn_phase c') = Some (r', d)" for j c' r' d
    proof -
      have d: "routes (rw_reg w) r' = Some d" "e_session d = j"
        using world_invD(3) [OF I that(2)] that(3) by (simp_all add: conn_ok_def)
      have "e_ptr d \<noteq> e_ptr e"
      proof
        assume "e_ptr d = e_ptr e"
        then have "r' = (hs_host h, hs_path h)" using world_invD(2) [OF I] d(1) r unfolding routes_by_ptr_def by blast
        then show False using d r s that(1) by simp
      qed
      with d show ?thesis by simp
    qed
    show "conn_ok (mark_ready (rw_reg w) e) i \<lparr>cn_phase = Live h e ev, cn_sent = fs\<rparr>"
      using ok by (simp add: conn_ok_def)
    show "routes (rw_reg w) r' = Some d \<and> e_session d \<noteq> i \<or> held_entry (Live h e ev) = Some (r', d)"
      if "routes (mark_ready (rw_reg w) e) r' = Some d" for r' d
      using world_invD(4) [OF I, of r' d] that c by auto
  qed (use c in auto)
qed

lemma frames_ok_stream: "frames_ok (Greeting h # fs) \<Longrightarrow> frames_ok (Greeting h # fs @ [StreamOpen])"
  by auto

lemma inv_stream:
  assumes I: "world_inv w" and v: "e \<in> set (rw_visitors w)" and o: "open_stream (is_ready (rw_reg w) e) (ph = Ended) (Some ()) = Ok ()"
    and c: "rw_conns w (e_session e) = Some \<lparr>cn_phase = ph, cn_sent = fs\<rparr>"
  shows "world_inv (set_conn w (e_session e) ph (fs @ [StreamOpen]))"
proof -
  have rd: "is_ready (rw_reg w) e" and ne: "ph \<noteq> Ended" using o by (auto simp: open_stream_def split: if_splits)
  have ok: "conn_ok (rw_reg w) (e_session e) \<lparr>cn_phase = ph, cn_sent = fs\<rparr>" using world_invD(3) [OF I c] .
  obtain r where h: "held_entry ph = Some (r, e)" using world_invD(5) [OF I v] c ne by (auto simp: visitor_ok_def)
  then have rel: "released ph" using ok rd by (simp add: conn_ok_def)
  then have nu: "\<not> unheard ph" by (cases ph) auto
  then obtain g gs where fs: "fs = Greeting g # gs" using ok h by (auto simp: conn_ok_def)
  show ?thesis
  proof (rule inv_same_registry [OF I c])
    show "conn_ok (rw_reg w) (e_session e) \<lparr>cn_phase = ph, cn_sent = fs @ [StreamOpen]\<rparr>"
      using ok nu by (auto simp: conn_ok_def fs)
  qed simp_all
qed

lemma inv_taken:
  assumes I: "world_inv w" and c: "rw_conns w i = Some \<lparr>cn_phase = Upgraded h, cn_sent = fs\<rparr>"
    and reg: "register (rw_reg w) (hs_template h) (hs_path h) i remote now = (reg, Err err)"
  shows "world_inv (set_conn (w\<lparr>rw_reg := reg\<rparr>) i Ended (fs @ [CloseFrame (reg_msg err)]))"
proof -
  have wf: "wf_registry (rw_reg w)" and ok: "conn_ok (rw_reg w) i \<lparr>cn_phase = Upgraded h, cn_sent = fs\<rparr>"
    using world_invD(1) [OF I] world_invD(3) [OF I c] by simp_all
  then have th: "t_pending (hs_template h)" and fs: "fs = []" by (simp_all add: conn_ok_def)
  have rt: "routes reg = routes (rw_reg w)"
    using register_result [OF wf, of "hs_template h" "hs_path h" i remote now] reg
    by (cases "routes (rw_reg w) (t_host (hs_template h), hs_path h)") auto
  have cl: "closed_ready reg = closed_ready (rw_reg w)"
    using closed_ready_register [OF th(1), of "rw_reg w" "hs_path h" i remote now] reg by simp
  show ?thesis
  proof (rule world_inv_update [where st = "rw_store w", OF I])
    show "set_conn (w\<lparr>rw_reg := reg\<rparr>) i Ended (fs @ [CloseFrame (reg_msg err)]) =
        set_conn (w\<lparr>rw_reg := reg, rw_store := rw_store w\<rparr>) i Ended (fs @ [CloseFrame (reg_msg err)])" by simp
    show "wf_registry reg" using register_wf [OF wf, of "hs_template h" "hs_path h" i remote now] reg by simp
    show "routes_by_ptr reg" using world_invD(2) [OF I] by (simp add: routes_by_ptr_def rt)
    show "routes reg r = Some d \<and> (is_ready reg d \<longrightarrow> is_ready (rw_reg w) d)"
      if "j \<noteq> i" "rw_conns w j = Some c'" "held_entry (cn_phase c') = Some (r, d)" for j c' r d
      using world_invD(3) [OF I that(2)] that(3) by (simp add: conn_ok_def rt is_ready_def cl)
    show "routes (rw_reg w) r = Some d \<and> e_session d \<noteq> i \<or> held_entry Ended = Some (r, d)"
      if "routes reg r = Some d" for r d
      using world_invD(4) [OF I, of r d] that c rt by auto
  qed (use c fs in \<open>auto simp: conn_ok_def\<close>)
qed

lemma ws_handshake_Ok:
  "ws_handshake cf reg st r en = (st', Ok h) \<Longrightarrow> t_host (hs_template h) = hs_host h \<and> t_pending (hs_template h)"
  by (auto simp: ws_handshake_def Let_def case_prod_unfold split: option.splits if_splits sum.splits)

lemma inv_accept:
  assumes I: "world_inv w" and n: "rw_conns w i = None"
    and h: "t_host (hs_template h) = hs_host h" "t_pending (hs_template h)"
  shows "world_inv (set_conn (w\<lparr>rw_store := st\<rparr>) i (Upgraded h) [])"
proof (rule world_inv_update [where st = st and reg = "rw_reg w", OF I])
  show "set_conn (w\<lparr>rw_store := st\<rparr>) i (Upgraded h) [] = set_conn (w\<lparr>rw_reg := rw_reg w, rw_store := st\<rparr>) i (Upgraded h) []"
    by simp
  show "routes (rw_reg w) r = Some d \<and> (is_ready (rw_reg w) d \<longrightarrow> is_ready (rw_reg w) d)"
    if "j \<noteq> i" "rw_conns w j = Some c'" "held_entry (cn_phase c') = Some (r, d)" for j c' r d
    using world_invD(3) [OF I that(2)] that(3) by (simp add: conn_ok_def)
  show "routes (rw_reg w) r = Some d \<and> e_session d \<noteq> i \<or> held_entry (Upgraded h) = Some (r, d)"
    if "routes (rw_reg w) r = Some d" for r d
    using world_invD(4) [OF I that] n that by auto
qed (use n h world_invD(1,2) [OF I] in \<open>auto simp: conn_ok_def\<close>)

lemma inv_greet:
  assumes I: "world_inv w" and c: "rw_conns w i = Some \<lparr>cn_phase = Pending h e, cn_sent = fs\<rparr>"
  shows "world_inv (set_conn w i (Greeted h e) (fs @ [Greeting (hs_host h)]))"
proof -
  have ok: "conn_ok (rw_reg w) i \<lparr>cn_phase = Pending h e, cn_sent = fs\<rparr>" using world_invD(3) [OF I c] .
  then have "fs = []" by (simp add: conn_ok_def)
  then have "conn_ok (rw_reg w) i \<lparr>cn_phase = Greeted h e, cn_sent = fs @ [Greeting (hs_host h)]\<rparr>"
    using ok by (auto simp: conn_ok_def)
  then show ?thesis by (rule inv_same_registry [OF I c]) auto
qed

lemma resolve_route: "wf_registry reg \<Longrightarrow> resolve reg host path = Some e \<Longrightarrow> \<exists>p. routes reg (host, p) = Some e"
  using relay.lookup_longest by blast

lemma inv_resolve:
  assumes I: "world_inv w" and r: "resolve (rw_reg w) host path = Some e"
  shows "world_inv (w\<lparr>rw_visitors := e # rw_visitors w\<rparr>)"
proof -
  obtain p where "routes (rw_reg w) (host, p) = Some e" using resolve_route [OF world_invD(1) [OF I] r] by blast
  then have "visitor_ok (rw_conns w) e" using world_invD(4) [OF I] unfolding visitor_ok_def by blast
  then show ?thesis using I by (simp add: world_inv_def)
qed

lemma world_step_inv: "world_inv w \<Longrightarrow> world_step w w' \<Longrightarrow> world_inv w'"
proof (erule world_step.cases, goal_cases)
  case (1 cf v r en st h i)
  then show ?case using inv_accept ws_handshake_Ok by blast
next
  case (2 cf v r en st e)
  then show ?case by (simp add: world_inv_store)
next
  case (3 v i h fs remote now reg e)
  then show ?case using inv_register by blast
next
  case (4 v i h fs remote now reg err)
  then show ?case using inv_taken by blast
next
  case (5 v i h e fs)
  then show ?case using inv_greet by blast
next
  case (6 v i h e fs)
  then show ?case using inv_unregister [of v i "Pending h e" fs h e "rw_store v"] by simp
next
  case (7 v i h e fs failed bytes stamp remote st ev res)
  then show ?case using inv_ready by blast
next
  case (8 v host path e)
  then show ?case using inv_resolve by blast
next
  case (9 e v ph fs)
  then show ?case using inv_stream by blast
next
  case (10 v i h e ev fs st failed stamp)
  then show ?case using inv_unregister [of v i "Live h e ev" fs h e st] by simp
next
  case (11 v st)
  then show ?case by (simp add: world_inv_store)
qed

lemma routes_new_registry [simp]: "routes new_registry r = None"
  by (simp add: routes_def new_registry_def)

lemma world_inv_new: "world_inv (new_world st)"
  by (simp add: world_inv_def new_world_def wf_new_registry routes_by_ptr_def)

interpretation world_runs: invariant_system "\<lambda>w. \<exists>st. w = new_world st" world_step world_inv
  by unfold_locales (use world_inv_new world_step_inv in blast)+

abbreviation reachable_world :: "relay_world \<Rightarrow> bool" where
  "reachable_world w \<equiv> \<exists>st. world_step\<^sup>*\<^sup>* (new_world st) w"

lemma reachable_world_inv: "reachable_world w \<Longrightarrow> world_inv w"
  using world_runs.inv_reachable by blast

section \<open>Properties\<close>

definition is_live :: "relay_world \<Rightarrow> nat \<Rightarrow> bool" where
  "is_live w i = (case rw_conns w i of None \<Rightarrow> False | Some c \<Rightarrow> held_entry (cn_phase c) \<noteq> None)"

definition demo_config :: relay_config where
  "demo_config = \<lparr>rc_sessions = new_sessions ''k'', rc_domain = ''dev'', rc_single = True\<rparr>"

definition demo_env :: api_env where
  "demo_env = \<lparr>en_unix = 5, en_mono = 5, en_stamp = ''t1'', en_bytes = ''b'', en_bytes2 = ''c'',
     en_bcrypt = None, en_fail = False, en_fail2 = False\<rparr>"

definition ws_request :: api_request where
  "ws_request = \<lparr>rq_method = ''GET'', rq_host = ''roxey.dev'', rq_path = ''/_ws'', rq_raw_query = ''service=shop'',
     rq_cookies = [], rq_authorization = ''Bearer rxy_61'', rq_cf_ip = [], rq_forwarded_for = [],
     rq_remote = ''9.9.9.9:1'', rq_form_password = None, ar_accept = [], ar_credentials = None, ar_label = []\<rparr>"

definition shop_hs :: handshake where
  "shop_hs = \<lparr>hs_user = ''u1'', hs_service = ''shop'', hs_host = ''shop'', hs_path = [],
     hs_template = \<lparr>t_service = ''shop'', t_host = ''shop'', t_user = ''u1'', t_gate_group = [],
       t_protect_hash = [], t_pending = True\<rparr>\<rparr>"

definition shop_entry :: entry where
  "shop_entry = new_entry 0 (hs_template shop_hs) 1 ''9.9.9.9:1'' 0"

lemma shop_handshake: "\<exists>st. ws_handshake demo_config new_registry key_store1 ws_request demo_env = (st, Ok shop_hs)"
proof -
  have v: "snd (validate_api_key (False, False) ''t1'' key_store1 ''rxy_61'') = Some ''u1''"
    using keys.created_key_valid [OF wf_empty_store, of "(False, ''a'', ''i'', ''t0'')" "''u1''" "[]" key_store1 "''rxy_61''" _
        "((False, False), ''t1'')"] create_first_key by simp
  have q: "query_get ''service=shop'' ''service'' = ''shop''" "query_get ''service=shop'' ''path'' = []"
    "query_get ''service=shop'' ''protect'' = []" "query_get ''service=shop'' ''gate_group'' = []"
    "trim_prefix ''Bearer rxy_61'' ''Bearer '' = ''rxy_61''" "service_ok True ''shop''"
    by code_simp+
  show ?thesis
    by (simp add: ws_handshake_def demo_config_def ws_request_def demo_env_def bearer_def q v case_prod_unfold Let_def
        tunnel_host_def protect_hash_of_def check_def new_registry_def shop_hs_def)
qed

text \<open>One tunnel from handshake to its first stream.\<close>

lemma demo_run:
  "\<exists>w ev. reachable_world w \<and>
     rw_conns w 1 = Some \<lparr>cn_phase = Live shop_hs shop_entry ev, cn_sent = [Greeting ''shop'', StreamOpen]\<rparr>"
proof -
  obtain st where hs: "ws_handshake demo_config new_registry key_store1 ws_request demo_env = (st, Ok shop_hs)"
    using shop_handshake by blast
  let ?w0 = "new_world key_store1"
  let ?w1 = "set_conn (?w0\<lparr>rw_store := st\<rparr>) 1 (Upgraded shop_hs) []"
  have 1: "world_step ?w0 ?w1" by (rule world_accept) (use hs in \<open>simp_all add: new_world_def\<close>)
  let ?r = "register new_registry (hs_template shop_hs) [] 1 ''9.9.9.9:1'' 0"
  have "snd ?r = Ok shop_entry" by code_simp
  then have r: "?r = (fst ?r, Ok shop_entry)" by (metis prod.collapse)
  let ?w2 = "set_conn (?w1\<lparr>rw_reg := fst ?r\<rparr>) 1 (Pending shop_hs shop_entry) []"
  have 2: "world_step ?w1 ?w2"
    by (rule world_register) (use r in \<open>simp_all add: new_world_def set_conn_def shop_hs_def\<close>)
  let ?w3 = "set_conn ?w2 1 (Greeted shop_hs shop_entry) ([] @ [Greeting (hs_host shop_hs)])"
  have 3: "world_step ?w2 ?w3" by (rule world_greet) (simp add: set_conn_def)
  let ?c = "record_connect False ''b'' ''t1'' (rw_store ?w3) (hs_user shop_hs) (hs_service shop_hs) (hs_host shop_hs) (hs_path shop_hs) ''x''"
  obtain st' ev res where c: "?c = (st', ev, res)" by (cases ?c)
  let ?w4 = "set_conn (?w3\<lparr>rw_reg := mark_ready (rw_reg ?w3) shop_entry, rw_store := st'\<rparr>) 1 (Live shop_hs shop_entry ev) ([] @ [Greeting (hs_host shop_hs)])"
  have 4: "world_step ?w3 ?w4" by (rule world_ready [OF _ c]) (simp add: set_conn_def)
  have reg4: "rw_reg ?w4 = mark_ready (fst ?r) shop_entry" by (simp add: set_conn_def)
  have "resolve (mark_ready (fst ?r) shop_entry) ''shop'' ''/'' = Some shop_entry" by code_simp
  then have 5: "world_step ?w4 (?w4\<lparr>rw_visitors := shop_entry # rw_visitors ?w4\<rparr>)"
    using world_resolve [of ?w4 "''shop''" "''/''" shop_entry] unfolding reg4 by blast
  let ?w5 = "?w4\<lparr>rw_visitors := shop_entry # rw_visitors ?w4\<rparr>"
  have s: "e_session shop_entry = 1" by (simp add: shop_entry_def new_entry_def)
  have "world_step ?w5 (set_conn ?w5 (e_session shop_entry) (Live shop_hs shop_entry ev) (([] @ [Greeting (hs_host shop_hs)]) @ [StreamOpen]))"
    by (rule world_stream) (simp_all add: s set_conn_def open_stream_def)
  then have 6: "world_step ?w5 (set_conn ?w5 1 (Live shop_hs shop_entry ev) [Greeting ''shop'', StreamOpen])"
    by (simp add: s shop_hs_def)
  have "world_step\<^sup>*\<^sup>* ?w0 (set_conn ?w5 1 (Live shop_hs shop_entry ev) [Greeting ''shop'', StreamOpen])"
    using 1 2 3 4 5 6 by (meson rtranclp.rtrancl_into_rtrancl rtranclp.rtrancl_refl)
  moreover have "rw_conns (set_conn ?w5 1 (Live shop_hs shop_entry ev) [Greeting ''shop'', StreamOpen]) 1 =
      Some \<lparr>cn_phase = Live shop_hs shop_entry ev, cn_sent = [Greeting ''shop'', StreamOpen]\<rparr>"
    by (simp add: set_conn_def)
  ultimately show ?thesis by blast
qed

text \<open>
  C31: however connections, visitors and database calls interleave, the first frame a CLI gets
  is the greeting with its host or the refusal that closes it: no stream reaches a CLI ahead of
  its greeting, and after the greeting come streams only.
\<close>

theorem greeting_before_streams:
  assumes "reachable_world w" "rw_conns w i = Some c"
  shows "cn_sent c = [] \<or> (\<exists>m. cn_sent c = [CloseFrame m]) \<or>
    (\<exists>host fs. cn_sent c = Greeting host # fs \<and> set fs \<subseteq> {StreamOpen})"
proof -
  have "frames_ok (cn_sent c)"
    using world_invD(3) [OF reachable_world_inv [OF assms(1)] assms(2)] by (simp add: conn_ok_def)
  then show ?thesis by (cases "cn_sent c" rule: frames_ok.cases) auto
qed

theorem greeting_before_streams_witness:
  "\<exists>w c host fs. reachable_world w \<and> rw_conns w 1 = Some c \<and> cn_sent c = Greeting host # fs \<and> fs = [StreamOpen]"
proof -
  obtain w ev where w: "reachable_world w"
    "rw_conns w 1 = Some \<lparr>cn_phase = Live shop_hs shop_entry ev, cn_sent = [Greeting ''shop'', StreamOpen]\<rparr>"
    using demo_run by blast
  with greeting_before_streams [OF w] show ?thesis by auto
qed

text \<open>
  C3: the routing table is the set of connections: in every reachable state each route leads to
  the session of a connection that holds it, no two connections share a route, and a
  connection that ended holds none, so a closed tunnel leaves nothing behind.
\<close>

theorem routes_are_connections:
  assumes "reachable_world w"
  shows "(\<forall>r e. routes (rw_reg w) r = Some e \<longrightarrow>
      (\<exists>c. rw_conns w (e_session e) = Some c \<and> held_entry (cn_phase c) = Some (r, e))) \<and>
    (\<forall>i c r e. rw_conns w i = Some c \<longrightarrow> held_entry (cn_phase c) = Some (r, e) \<longrightarrow>
      routes (rw_reg w) r = Some e \<and> e_session e = i)"
  using world_invD(3,4) [OF reachable_world_inv [OF assms]] unfolding conn_ok_def by blast

theorem routes_are_connections_witness:
  "\<exists>w r. reachable_world w \<and> routes (rw_reg w) r = Some shop_entry"
proof -
  obtain w ev where "reachable_world w"
    "rw_conns w 1 = Some \<lparr>cn_phase = Live shop_hs shop_entry ev, cn_sent = [Greeting ''shop'', StreamOpen]\<rparr>"
    using demo_run by blast
  with routes_are_connections [OF this(1)] show ?thesis by force
qed

end
