(* ===== verification/WsNet.thy ===== *)
theory WsNet
  imports GoStrings
begin

text \<open>
  \<open>wsnet.go\<close> (the same adapter in \<open>backend/relay\<close> and \<open>cli/tunnel\<close>): a websocket as a byte
  stream. One side's \<open>Write\<close> sends a binary message; the other side's \<open>Read\<close> drains the current
  message and then asks for the next. How many bytes a message reader hands over, and whether it
  reports the end together with them, is its choice: an input of the model.
\<close>

record ws_conn =
  ws_reader :: "string option"
  ws_incoming :: "string list"

definition ws_write :: "string \<Rightarrow> ws_conn \<Rightarrow> ws_conn \<times> nat" where
  "ws_write p peer = (peer\<lparr>ws_incoming := ws_incoming peer @ [p]\<rparr>, length p)"

text \<open>
  \<open>io.Reader.Read\<close> of one message: at its end \<open>(0, EOF)\<close>; otherwise between one byte and the
  size of the buffer, with \<open>EOF\<close> only if nothing is left.
\<close>

definition reader_read :: "nat \<Rightarrow> nat \<Rightarrow> bool \<Rightarrow> string \<Rightarrow> string \<times> string \<times> bool" where
  "reader_read buf want early rest =
     (let n = min buf (max 1 want) in
      if rest = [] then ([], [], True) else (take n rest, drop n rest, early \<and> drop n rest = []))"

datatype read_result = Blocked | Got string

text \<open>\<open>Read\<close>: \<open>Blocked\<close> when \<open>NextReader\<close> has no message to give yet.\<close>

function ws_read :: "nat \<Rightarrow> nat \<Rightarrow> bool \<Rightarrow> ws_conn \<Rightarrow> ws_conn \<times> read_result" where
  "ws_read buf want early w =
     (case ws_reader w of
        None \<Rightarrow>
          (case ws_incoming w of
             [] \<Rightarrow> (w, Blocked)
           | m # ms \<Rightarrow> ws_read buf want early (w\<lparr>ws_reader := Some m, ws_incoming := ms\<rparr>))
      | Some r \<Rightarrow>
          (let (bytes, rest, eof) = reader_read buf want early r in
           if eof then
             if bytes = [] then ws_read buf want early (w\<lparr>ws_reader := None\<rparr>)
             else (w\<lparr>ws_reader := None\<rparr>, Got bytes)
           else (w\<lparr>ws_reader := Some rest\<rparr>, Got bytes)))"
  by pat_completeness auto
termination
  by (relation "measure (\<lambda>(_, _, _, w). 2 * length (ws_incoming w) + (if ws_reader w = None then 0 else 1))") auto

declare ws_read.simps [simp del]

definition unread :: "ws_conn \<Rightarrow> string" where
  "unread w = (case ws_reader w of None \<Rightarrow> [] | Some r \<Rightarrow> r) @ concat (ws_incoming w)"

lemma reader_read_split: "reader_read buf want early r = (bytes, rest, eof) \<Longrightarrow> r = bytes @ rest \<and> (eof \<longrightarrow> rest = []) \<and> (\<not> eof \<longrightarrow> r \<noteq> [])"
  by (auto simp: reader_read_def Let_def split: if_splits)

lemma reader_read_some: "reader_read buf want early r = (bytes, rest, eof) \<Longrightarrow> 0 < buf \<Longrightarrow> r \<noteq> [] \<Longrightarrow> bytes \<noteq> [] \<and> length bytes \<le> buf"
  by (cases r) (auto simp: reader_read_def Let_def split: if_splits)

lemma ws_read_spec:
  "0 < buf \<Longrightarrow>
     (case ws_read buf want early w of
        (w', Blocked) \<Rightarrow> unread w = [] \<and> w' = \<lparr>ws_reader = None, ws_incoming = []\<rparr>
      | (w', Got bytes) \<Rightarrow> bytes \<noteq> [] \<and> length bytes \<le> buf \<and> unread w = bytes @ unread w')"
proof (induction buf want early w rule: ws_read.induct)
  case (1 buf want early w)
  show ?case
  proof (cases "ws_reader w")
    case None
    show ?thesis
    proof (cases "ws_incoming w")
      case Nil
      then show ?thesis using None by (simp add: ws_read.simps [of buf want early w] unread_def)
    next
      case (Cons m ms)
      have "unread (w\<lparr>ws_reader := Some m, ws_incoming := ms\<rparr>) = unread w" using None Cons by (simp add: unread_def)
      then show ?thesis using "1.IH"(1) [OF None Cons] "1.prems" None Cons
        by (simp add: ws_read.simps [of buf want early w])
    qed
  next
    case (Some r)
    obtain bytes rest eof where rr: "reader_read buf want early r = (bytes, rest, eof)" by (metis prod_cases3)
    note sp = reader_read_split [OF rr] and so = reader_read_some [OF rr "1.prems"]
    show ?thesis
    proof (cases "eof \<and> bytes = []")
      case True
      then have "unread (w\<lparr>ws_reader := None\<rparr>) = unread w" using Some sp by (simp add: unread_def)
      moreover have "ws_read buf want early w = ws_read buf want early (w\<lparr>ws_reader := None\<rparr>)"
        using Some rr True by (subst ws_read.simps) simp
      ultimately show ?thesis using "1.IH"(2) [OF Some rr [symmetric] refl] True "1.prems" by simp
    next
      case False
      have "ws_read buf want early w = (if eof then w\<lparr>ws_reader := None\<rparr> else w\<lparr>ws_reader := Some rest\<rparr>, Got bytes)"
        using Some rr False by (subst ws_read.simps) auto
      then show ?thesis using Some sp so False by (auto simp: unread_def)
    qed
  qed
qed

text \<open>A run of the stream: one side writes, the other reads; what was read is kept in order.\<close>

datatype stream_op = Send string | Recv nat nat bool

fun stream_run :: "stream_op list \<Rightarrow> ws_conn \<Rightarrow> string \<Rightarrow> ws_conn \<times> string" where
  "stream_run [] w got = (w, got)"
| "stream_run (Send p # ops) w got = stream_run ops (fst (ws_write p w)) got"
| "stream_run (Recv buf want early # ops) w got =
     (case ws_read buf want early w of
        (w', Blocked) \<Rightarrow> stream_run ops w' got
      | (w', Got bytes) \<Rightarrow> stream_run ops w' (got @ bytes))"

definition sent :: "stream_op list \<Rightarrow> string" where
  "sent ops = concat (List.map_filter (\<lambda>x. case x of Send p \<Rightarrow> Some p | Recv _ _ _ \<Rightarrow> None) ops)"

lemma unread_write: "unread (fst (ws_write p w)) = unread w @ p"
  by (simp add: unread_def ws_write_def)

lemma sent_simps: "sent [] = []" "sent (Send p # ops) = p @ sent ops" "sent (Recv a b c # ops) = sent ops"
  by (simp_all add: sent_def List.map_filter_def)

lemma stream_run_bytes:
  "\<forall>x\<in>set ops. case x of Send _ \<Rightarrow> True | Recv buf _ _ \<Rightarrow> 0 < buf \<Longrightarrow> stream_run ops w got = (w', got') \<Longrightarrow>
     got @ unread w @ sent ops = got' @ unread w'"
proof (induction ops arbitrary: w got)
  case Nil
  then show ?case by (simp add: sent_simps)
next
  case (Cons x ops)
  show ?case
  proof (cases x)
    case (Send p)
    then show ?thesis using Cons.prems Cons.IH [of "fst (ws_write p w)" got] by (simp add: sent_simps unread_write)
  next
    case (Recv buf want early)
    obtain w1 res where r: "ws_read buf want early w = (w1, res)" by (metis surj_pair)
    have "0 < buf" using Cons.prems(1) Recv by simp
    note spec = ws_read_spec [OF this, of w want early, unfolded r]
    show ?thesis
    proof (cases res)
      case Blocked
      then have "unread w1 = unread w" using spec by (simp add: unread_def)
      then show ?thesis using Cons.prems Cons.IH [of w1 got] Recv r Blocked by (simp add: sent_simps)
    next
      case (Got bytes)
      then show ?thesis using Cons.prems Cons.IH [of w1 "got @ bytes"] Recv r spec by (simp add: sent_simps)
    qed
  qed
qed



end
