(* ===== verification/Paths.thy ===== *)
theory Paths
  imports GoStrings
begin

text \<open>
  What the CLI uses of \<open>path/filepath\<close> on Unix: \<open>Clean\<close>, \<open>Join\<close>, \<open>IsAbs\<close>, \<open>Base\<close>, \<open>Dir\<close> and \<open>Abs\<close>
  with the working directory as an argument.
\<close>

definition is_abs :: "string \<Rightarrow> bool" where
  "is_abs p = has_prefix p ''/''"

text \<open>The elements of the cleaned path, last first.\<close>

fun clean_step :: "bool \<Rightarrow> string list \<Rightarrow> string \<Rightarrow> string list" where
  "clean_step rooted stack w =
     (if w = [] \<or> w = ''.'' then stack
      else if w = ''..'' then
        (case stack of
           [] \<Rightarrow> if rooted then [] else [''..'']
         | x # xs \<Rightarrow> if x = ''..'' then ''..'' # stack else xs)
      else w # stack)"

definition clean_elems :: "bool \<Rightarrow> string list \<Rightarrow> string list" where
  "clean_elems rooted ws = rev (foldl (clean_step rooted) [] ws)"

definition path_clean :: "string \<Rightarrow> string" where
  "path_clean p =
     (if p = [] then ''.''
      else
        let es = clean_elems (is_abs p) (str_split CHR ''/'' p)
        in if is_abs p then ''/'' @ str_join ''/'' es
           else if es = [] then ''.'' else str_join ''/'' es)"

definition path_join :: "string list \<Rightarrow> string" where
  "path_join elems = (let es = filter (\<lambda>e. e \<noteq> []) elems
     in if es = [] then [] else path_clean (str_join ''/'' es))"

definition path_abs :: "string \<Rightarrow> string \<Rightarrow> string" where
  "path_abs cwd p = (if is_abs p then path_clean p else path_join [cwd, p])"

definition is_slash :: "char \<Rightarrow> bool" where "is_slash c = (c = CHR ''/'')"

definition path_base :: "string \<Rightarrow> string" where
  "path_base p =
     (if p = [] then ''.''
      else
        let q = trim_right is_slash p
        in if q = [] then ''/''
           else (case cut_last q CHR ''/'' of None \<Rightarrow> q | Some (_, b) \<Rightarrow> b))"

definition path_dir :: "string \<Rightarrow> string" where
  "path_dir p = path_clean (case cut_last p CHR ''/'' of None \<Rightarrow> [] | Some (d, _) \<Rightarrow> d @ ''/'')"

section \<open>Cleaning is idempotent\<close>

text \<open>A stack in normal form: proper elements on top of the \<open>..\<close> of a relative path.\<close>

definition normal_stack :: "bool \<Rightarrow> string list \<Rightarrow> bool" where
  "normal_stack rooted st \<longleftrightarrow>
     (\<exists>xs n. st = xs @ replicate n ''..'' \<and> (rooted \<longrightarrow> n = 0) \<and>
        (\<forall>x\<in>set xs. x \<noteq> [] \<and> x \<noteq> ''.'' \<and> x \<noteq> ''..'' \<and> CHR ''/'' \<notin> set x))"

lemma normal_stack_Nil: "normal_stack rooted []"
  by (auto simp: normal_stack_def intro: exI [of _ 0])

lemma normal_stack_step:
  assumes "normal_stack rooted st" "CHR ''/'' \<notin> set w"
  shows "normal_stack rooted (clean_step rooted st w)"
proof -
  obtain xs n where st: "st = xs @ replicate n ''..''" "rooted \<longrightarrow> n = 0"
    and xs: "\<forall>x\<in>set xs. x \<noteq> [] \<and> x \<noteq> ''.'' \<and> x \<noteq> ''..'' \<and> CHR ''/'' \<notin> set x"
    using assms(1) unfolding normal_stack_def by blast
  consider "w = [] \<or> w = ''.''" | "w = ''..''" "xs = []" | "w = ''..''" "xs \<noteq> []" | "w \<noteq> []" "w \<noteq> ''.''" "w \<noteq> ''..''"
    by blast
  then show ?thesis
  proof cases
    case 1
    then show ?thesis using assms(1) by auto
  next
    case 2
    show ?thesis
    proof (cases n)
      case 0
      with 2 st show ?thesis
        by (auto simp: normal_stack_def intro!: exI [of _ "[]"] exI [of _ "Suc 0"])
    next
      case (Suc m)
      with 2 st show ?thesis
        by (auto simp: normal_stack_def intro!: exI [of _ "[]"] exI [of _ "Suc (Suc m)"])
    qed
  next
    case 3
    then obtain y ys where "xs = y # ys" by (cases xs) auto
    with 3 st xs show ?thesis unfolding normal_stack_def by (intro exI [of _ ys] exI [of _ n]) auto
  next
    case 4
    with st xs assms(2) show ?thesis unfolding normal_stack_def by (intro exI [of _ "w # xs"] exI [of _ n]) auto
  qed
qed

lemma normal_stack_foldl:
  "normal_stack rooted st \<Longrightarrow> \<forall>w\<in>set ws. CHR ''/'' \<notin> set w \<Longrightarrow> normal_stack rooted (foldl (clean_step rooted) st ws)"
  by (induction ws arbitrary: st) (auto simp: normal_stack_step simp del: clean_step.simps)

lemma foldl_normal_dots: "foldl (clean_step False) (replicate m ''..'') (replicate n ''..'') = replicate (n + m) ''..''"
proof (induction n arbitrary: m)
  case (Suc n)
  have "clean_step False (replicate m ''..'') ''..'' = replicate (Suc m) ''..''" by (cases m) auto
  moreover have "foldl (clean_step False) (replicate m ''..'') (replicate (Suc n) ''..'') =
      foldl (clean_step False) (clean_step False (replicate m ''..'') ''..'') (replicate n ''..'')"
    by (simp only: replicate_Suc foldl.simps)
  ultimately show ?case using Suc.IH [of "Suc m"] by (simp only: add_Suc add_Suc_right)
qed simp

lemma foldl_normal_words:
  "\<forall>x\<in>set xs. x \<noteq> [] \<and> x \<noteq> ''.'' \<and> x \<noteq> ''..'' \<Longrightarrow> foldl (clean_step rooted) st xs = rev xs @ st"
  by (induction xs arbitrary: st) auto

lemma clean_normal:
  assumes "normal_stack rooted st"
  shows "foldl (clean_step rooted) [] (rev st) = st"
proof -
  obtain xs n where st: "st = xs @ replicate n ''..''" "rooted \<longrightarrow> n = 0"
    and xs: "\<forall>x\<in>set (rev xs). x \<noteq> [] \<and> x \<noteq> ''.'' \<and> x \<noteq> ''..''"
    using assms unfolding normal_stack_def by auto
  have d: "foldl (clean_step rooted) [] (replicate n ''..'') = replicate n ''..''"
    using st(2) foldl_normal_dots [of 0 n] by (cases rooted) simp_all
  show ?thesis
    by (simp add: st(1) foldl_normal_words [OF xs] d del: clean_step.simps)
qed

lemma clean_elems_idem: "\<forall>w\<in>set ws. CHR ''/'' \<notin> set w \<Longrightarrow> clean_elems rooted (clean_elems rooted ws) = clean_elems rooted ws"
  using clean_normal [OF normal_stack_foldl [OF normal_stack_Nil], of ws rooted] by (simp add: clean_elems_def)

lemma clean_elems_words:
  assumes "\<forall>w\<in>set ws. CHR ''/'' \<notin> set w" "x \<in> set (clean_elems rooted ws)"
  shows "x \<noteq> []" "CHR ''/'' \<notin> set x" "rooted \<Longrightarrow> x \<noteq> ''..''" "x \<noteq> ''.''"
proof -
  let ?st = "foldl (clean_step rooted) [] ws"
  obtain xs n where st: "?st = xs @ replicate n ''..''" "rooted \<longrightarrow> n = 0"
    and xs: "\<forall>x\<in>set xs. x \<noteq> [] \<and> x \<noteq> ''.'' \<and> x \<noteq> ''..'' \<and> CHR ''/'' \<notin> set x"
    using normal_stack_foldl [OF normal_stack_Nil assms(1), of rooted] unfolding normal_stack_def by blast
  have x: "x \<in> set xs \<or> (n \<noteq> 0 \<and> x = ''..'')" using assms(2) unfolding clean_elems_def set_rev st(1) by auto
  have "x \<noteq> [] \<and> CHR ''/'' \<notin> set x \<and> (rooted \<longrightarrow> x \<noteq> ''..'') \<and> x \<noteq> ''.''"
  proof (cases "x \<in> set xs")
    case True
    then show ?thesis using xs by blast
  next
    case False
    then have "n \<noteq> 0" "x = ''..''" using x by blast+
    then show ?thesis using st(2) by simp
  qed
  then show "x \<noteq> []" "CHR ''/'' \<notin> set x" "rooted \<Longrightarrow> x \<noteq> ''..''" "x \<noteq> ''.''" by blast+
qed

lemma split_slash_words: "\<forall>w\<in>set (str_split CHR ''/'' p). CHR ''/'' \<notin> set w"
  by (auto dest: str_split_no_sep)

lemma join_words_abs: "es \<noteq> [] \<Longrightarrow> \<forall>e\<in>set es. e \<noteq> [] \<and> CHR ''/'' \<notin> set e \<Longrightarrow> \<not> is_abs (str_join ''/'' es) \<and> str_join ''/'' es \<noteq> []"
proof (cases es)
  case (Cons e es')
  assume "\<forall>e\<in>set es. e \<noteq> [] \<and> CHR ''/'' \<notin> set e"
  with Cons have ne: "e \<noteq> []" "CHR ''/'' \<notin> set e" by simp_all
  obtain c e' where e: "e = c # e'" by (cases e) (use ne in simp_all)
  then have c: "c \<noteq> CHR ''/''" using ne(2) by auto
  have "\<exists>t. str_join ''/'' (e # es') = e @ t" by (cases es') auto
  then obtain t where "str_join ''/'' es = c # e' @ t" unfolding Cons e by auto
  with c show ?thesis by (simp add: is_abs_def)
qed simp

text \<open>\<open>Clean\<close> returns a path that \<open>Clean\<close> leaves alone.\<close>

lemma path_clean_idem: "path_clean (path_clean p) = path_clean p"
proof (cases "p = []")
  case True
  have "path_clean ''.'' = ''.''" by code_simp
  then show ?thesis using True by (simp add: path_clean_def)
next
  case False
  let ?r = "is_abs p" let ?es = "clean_elems ?r (str_split CHR ''/'' p)"
  have w: "\<forall>e\<in>set ?es. e \<noteq> [] \<and> CHR ''/'' \<notin> set e" using clean_elems_words [OF split_slash_words] by blast
  have idem: "clean_elems ?r ?es = ?es" by (rule clean_elems_idem [OF split_slash_words])
  have dot: "path_clean ''.'' = ''.''" and slash: "path_clean ''/'' = ''/''" by code_simp+
  have skip: "clean_elems True ([] # ws) = clean_elems True ws" for ws by (simp add: clean_elems_def)
  show ?thesis
  proof (cases ?r)
    case True
    show ?thesis
    proof (cases "?es = []")
      case True
      then show ?thesis using False \<open>?r\<close> slash by (simp add: path_clean_def Let_def)
    next
      case ne: False
      have q: "path_clean p = ''/'' @ str_join ''/'' ?es" using False True by (simp add: path_clean_def Let_def)
      have "str_split CHR ''/'' (''/'' @ str_join ''/'' ?es) = [] # ?es"
        using str_split_join [OF ne, of "CHR ''/''"] w by simp
      then have "clean_elems True (str_split CHR ''/'' (''/'' @ str_join ''/'' ?es)) = ?es"
        using skip [of ?es] idem True by simp
      then show ?thesis unfolding q by (simp add: path_clean_def is_abs_def)
    qed
  next
    case rel: False
    show ?thesis
    proof (cases "?es = []")
      case True
      then show ?thesis using False rel dot by (simp add: path_clean_def Let_def)
    next
      case ne: False
      have q: "path_clean p = str_join ''/'' ?es" using False rel ne by (simp add: path_clean_def Let_def)
      have s: "str_split CHR ''/'' (str_join ''/'' ?es) = ?es" using str_split_join [OF ne, of "CHR ''/''"] w by blast
      note j = join_words_abs [OF ne w]
      have "clean_elems False ?es = ?es" using idem rel by simp
      then show ?thesis unfolding q using j s ne by (simp add: path_clean_def Let_def)
    qed
  qed
qed

lemma path_clean_abs: "is_abs p \<Longrightarrow> is_abs (path_clean p)"
  by (auto simp: path_clean_def is_abs_def Let_def)

end
