(* ===== verification/Manifest.thy ===== *)
theory Manifest
  imports Paths Regex
begin

text \<open>
  \<open>cli/manifest/manifest.go\<close> and \<open>unmarshal.go\<close>: the data of a \<open>roxey.yaml\<close>, its decoding from
  YAML nodes, its validation and the resolution of its templates. The YAML library's scalar
  decoding and the file system's directory test are parameters.
\<close>

section \<open>Data\<close>

record relay_server =
  rs_tld :: string
  rs_api_key :: string
  rs_local :: bool

record route =
  rt_path :: string
  rt_name :: string
  rt_target :: string
  rt_command :: string
  rt_cwd :: string
  rt_port :: int
  rt_env :: "(string, string) gomap"

record environment =
  me_host :: string
  me_protect :: string
  me_routes :: "route list"

record manifest =
  mf_relay :: relay_server
  mf_envs :: "environment list"
  mf_dir :: string
  mf_host_map :: "(string, string) gomap"
  mf_assigned :: "(string, string) gomap"

definition is_run :: "route \<Rightarrow> bool" where
  "is_run r = (rt_command r \<noteq> [])"

definition default_local_tld :: string where "default_local_tld = ''dev''"

definition empty_route :: route where
  "empty_route = \<lparr>rt_path = [], rt_name = [], rt_target = [], rt_command = [], rt_cwd = [], rt_port = 0, rt_env = []\<rparr>"

definition empty_environment :: environment where
  "empty_environment = \<lparr>me_host = [], me_protect = [], me_routes = []\<rparr>"

section \<open>Decoding\<close>

text \<open>The node kinds the decoders tell apart; \<open>Content\<close> alternates keys and values.\<close>

datatype yaml_node = YScalar string | YMapping "yaml_node list" | YOther

datatype yaml_error = DecodeFailed | BadRouteValue | BadRoutes | BadEnvironment | UnknownField string

text \<open>\<open>Route.UnmarshalYAML\<close>; \<open>raw\<close> decodes a mapping into command, name, cwd, port and environment.\<close>

definition unmarshal_route ::
  "(yaml_node \<Rightarrow> string option) \<Rightarrow> (yaml_node \<Rightarrow> (string \<times> string \<times> string \<times> int \<times> (string, string) gomap) option) \<Rightarrow>
   yaml_node \<Rightarrow> (yaml_error, route) res"
where
  "unmarshal_route str raw node =
     (case node of
        YScalar _ \<Rightarrow>
          (case str node of None \<Rightarrow> Err DecodeFailed | Some target \<Rightarrow> Ok (empty_route\<lparr>rt_target := target\<rparr>))
      | YMapping _ \<Rightarrow>
          (case raw node of
             None \<Rightarrow> Err DecodeFailed
           | Some (command, name, cwd, port, env) \<Rightarrow>
               Ok (empty_route\<lparr>rt_command := command, rt_name := name, rt_cwd := cwd, rt_port := port, rt_env := env\<rparr>))
      | YOther \<Rightarrow> Err BadRouteValue)"

fun unmarshal_route_pairs ::
  "(yaml_node \<Rightarrow> string option) \<Rightarrow> (yaml_node \<Rightarrow> (string \<times> string \<times> string \<times> int \<times> (string, string) gomap) option) \<Rightarrow>
   yaml_node list \<Rightarrow> (yaml_error, route list) res"
where
  "unmarshal_route_pairs str raw (k # v # rest) =
     (case str k of
        None \<Rightarrow> Err DecodeFailed
      | Some path \<Rightarrow>
          res_bind (unmarshal_route str raw v) (\<lambda>r.
            res_bind (unmarshal_route_pairs str raw rest) (\<lambda>rs. Ok (r\<lparr>rt_path := path\<rparr> # rs))))"
| "unmarshal_route_pairs str raw _ = Ok []"

definition unmarshal_routes where
  "unmarshal_routes str raw node =
     (case node of
        YMapping content \<Rightarrow>
          if length content mod 2 \<noteq> 0 then Err BadRoutes else unmarshal_route_pairs str raw content
      | _ \<Rightarrow> Err BadRoutes)"

text \<open>\<open>keyNode.Value\<close>: the text of a scalar, empty for other nodes.\<close>

definition node_value :: "yaml_node \<Rightarrow> string" where
  "node_value n = (case n of YScalar s \<Rightarrow> s | _ \<Rightarrow> [])"

fun unmarshal_fields where
  "unmarshal_fields str raw e (k # v # rest) =
     (if node_value k = ''host'' then
        (case str v of None \<Rightarrow> Err DecodeFailed | Some h \<Rightarrow> unmarshal_fields str raw (e\<lparr>me_host := h\<rparr>) rest)
      else if node_value k = ''protect'' then
        (case str v of None \<Rightarrow> Err DecodeFailed | Some h \<Rightarrow> unmarshal_fields str raw (e\<lparr>me_protect := h\<rparr>) rest)
      else if node_value k = ''routes'' then
        res_bind (unmarshal_routes str raw v) (\<lambda>rs. unmarshal_fields str raw (e\<lparr>me_routes := rs\<rparr>) rest)
      else Err (UnknownField (node_value k)))"
| "unmarshal_fields str raw e _ = Ok e"

definition unmarshal_environment where
  "unmarshal_environment str raw node =
     (case node of
        YMapping content \<Rightarrow> unmarshal_fields str raw empty_environment content
      | _ \<Rightarrow> Err BadEnvironment)"

section \<open>Names\<close>

definition host_rx :: rx where
  "host_rx = label_rx is_alnum is_label_char None"

text \<open>
  \<open>net.ParseIP\<close> for dotted decimal addresses: four fields of one to three digits, none above
  255, no leading zero. An address with a colon fails the label pattern wherever the code asks,
  so only this form matters to it.
\<close>

definition ipv4_field :: "string \<Rightarrow> bool" where
  "ipv4_field s \<longleftrightarrow> s \<noteq> [] \<and> length s \<le> 3 \<and> list_all is_digit s \<and> digits_val s \<le> 255 \<and>
     (length s = 1 \<or> hd s \<noteq> CHR ''0'')"

definition is_ipv4 :: "string \<Rightarrow> bool" where
  "is_ipv4 s \<longleftrightarrow> length (str_split CHR ''.'' s) = 4 \<and> list_all ipv4_field (str_split CHR ''.'' s)"

definition valid_tld :: "string \<Rightarrow> bool" where
  "valid_tld tld =
     (let labels = str_split CHR ''.'' (trim_suffix tld ''.'')
      in if length labels < 1 \<or> tld \<noteq> to_lower tld then False
         else if \<not> list_all (rx_match host_rx) labels then False
         else \<not> is_ipv4 tld)"

definition valid_host :: "string \<Rightarrow> bool" where
  "valid_host host0 =
     (let host = trim_suffix host0 ''.''
      in if host = [] \<or> is_ipv4 host then False
         else list_all (rx_match host_rx) (str_split CHR ''.'' host))"

section \<open>Validation\<close>

datatype manifest_error =
    RelayRequired | TldRequired | BadTld | KeyWithLocal
  | NoEnvironments | BadHost nat | DuplicateHost nat
  | NoRoutes nat | BadPath nat nat | DuplicatePath nat nat | AddressAndCommand nat nat | BadPort nat nat
  | BadName nat nat | NameIsHost nat nat | NameUsed nat nat | NoSuchCwd nat nat
  | NameNeedsCommand nat nat | UnmappedRoute nat nat

fun check_hosts :: "nat \<Rightarrow> string list \<Rightarrow> environment list \<Rightarrow> (manifest_error, string list) res" where
  "check_hosts i hosts [] = Ok hosts"
| "check_hosts i hosts (e # es) =
     (if me_host e = [] \<or> \<not> valid_host (me_host e) then Err (BadHost i)
      else if me_host e \<in> set hosts then Err (DuplicateHost i)
      else check_hosts (Suc i) (me_host e # hosts) es)"

definition check_route_name :: "nat \<Rightarrow> nat \<Rightarrow> string \<Rightarrow> string list \<Rightarrow> string list \<Rightarrow> (manifest_error, string list) res" where
  "check_route_name i j name hosts names =
     (if name = [] then Ok names
      else if \<not> rx_match host_rx name then Err (BadName i j)
      else if name \<in> set hosts then Err (NameIsHost i j)
      else if name \<in> set names then Err (NameUsed i j)
      else Ok (name # names))"

text \<open>One route: the names seen so far and the route with its working directory, or the error.\<close>

definition check_route ::
  "(string \<Rightarrow> bool) \<Rightarrow> string \<Rightarrow> string list \<Rightarrow> nat \<Rightarrow> nat \<Rightarrow> string list \<Rightarrow> string list \<Rightarrow> route \<Rightarrow>
   (manifest_error, string list \<times> route) res"
where
  "check_route is_dir dir hosts i j seenPaths names r =
     (if \<not> has_prefix (rt_path r) ''/'' then Err (BadPath i j)
      else if rt_path r \<in> set seenPaths then Err (DuplicatePath i j)
      else if rt_command r \<noteq> [] then
        (if rt_target r \<noteq> [] then Err (AddressAndCommand i j)
         else if rt_port r < 0 \<or> 65535 < rt_port r then Err (BadPort i j)
         else case check_route_name i j (rt_name r) hosts names of
             Inl e \<Rightarrow> Err e
           | Inr names' \<Rightarrow>
               if rt_cwd r \<noteq> [] then
                 (let cwd = (if is_abs (rt_cwd r) then rt_cwd r else path_join [dir, rt_cwd r])
                  in if is_dir cwd then Ok (names', r\<lparr>rt_cwd := cwd\<rparr>) else Err (NoSuchCwd i j))
               else Ok (names', r\<lparr>rt_cwd := dir\<rparr>))
      else if rt_name r \<noteq> [] then Err (NameNeedsCommand i j)
      else if rt_target r = [] then Err (UnmappedRoute i j)
      else Ok (names, r))"

fun check_routes ::
  "(string \<Rightarrow> bool) \<Rightarrow> string \<Rightarrow> string list \<Rightarrow> nat \<Rightarrow> nat \<Rightarrow> string list \<Rightarrow> string list \<Rightarrow> route list \<Rightarrow>
   (manifest_error, string list \<times> route list) res"
where
  "check_routes is_dir dir hosts i j seen names [] = Ok (names, [])"
| "check_routes is_dir dir hosts i j seen names (r # rs) =
     res_bind (check_route is_dir dir hosts i j seen names r) (\<lambda>(names', r').
       res_bind (check_routes is_dir dir hosts i (Suc j) (rt_path r # seen) names' rs) (\<lambda>(names'', rs').
         Ok (names'', r' # rs')))"

fun check_envs ::
  "(string \<Rightarrow> bool) \<Rightarrow> string \<Rightarrow> string list \<Rightarrow> nat \<Rightarrow> string list \<Rightarrow> environment list \<Rightarrow>
   (manifest_error, environment list) res"
where
  "check_envs is_dir dir hosts i names [] = Ok []"
| "check_envs is_dir dir hosts i names (e # es) =
     (if me_routes e = [] then Err (NoRoutes i)
      else res_bind (check_routes is_dir dir hosts i 0 [] names (me_routes e)) (\<lambda>(names', rs).
        res_bind (check_envs is_dir dir hosts (Suc i) names' es) (\<lambda>es'.
          Ok (e\<lparr>me_routes := rs\<rparr> # es'))))"

definition validate_environments :: "(string \<Rightarrow> bool) \<Rightarrow> manifest \<Rightarrow> (manifest_error, manifest) res" where
  "validate_environments is_dir mf =
     (if mf_envs mf = [] then Err NoEnvironments
      else res_bind (check_hosts 0 [] (mf_envs mf)) (\<lambda>hosts.
        res_bind (check_envs is_dir (mf_dir mf) hosts 0 [] (mf_envs mf)) (\<lambda>es.
          Ok (mf\<lparr>mf_envs := es\<rparr>))))"

definition validate_manifest :: "(string \<Rightarrow> bool) \<Rightarrow> manifest \<Rightarrow> (manifest_error, manifest) res" where
  "validate_manifest is_dir mf =
     (let rs = mf_relay mf in
      if rs_tld rs = [] \<and> \<not> rs_local rs \<and> rs_api_key rs = [] then Err RelayRequired
      else
        let rs1 = (if rs_tld rs = [] \<and> rs_local rs then rs\<lparr>rs_tld := default_local_tld\<rparr> else rs)
        in if rs_tld rs1 = [] then Err TldRequired
           else if \<not> valid_tld (rs_tld rs1) then Err BadTld
           else if rs_local rs1 \<and> rs_api_key rs1 \<noteq> [] then Err KeyWithLocal
           else validate_environments is_dir (mf\<lparr>mf_relay := rs1\<rparr>))"

text \<open>\<open>initHostMap\<close>: hosts that have no entry yet map to themselves.\<close>

definition init_host_map :: "manifest \<Rightarrow> manifest" where
  "init_host_map mf = mf\<lparr>mf_host_map := fold (\<lambda>e m. case map_of m (me_host e) of
       None \<Rightarrow> gput (me_host e) (me_host e) m | Some _ \<Rightarrow> m) (mf_envs mf) (mf_host_map mf)\<rparr>"

text \<open>\<open>LoadWith\<close> on the decoded manifest and the directory of its file.\<close>

definition load_with :: "(string \<Rightarrow> bool) \<Rightarrow> bool \<Rightarrow> string \<Rightarrow> manifest \<Rightarrow> (manifest_error, manifest) res" where
  "load_with is_dir relayOptional dir decoded =
     (let mf = decoded\<lparr>mf_dir := dir\<rparr>; rs = mf_relay mf
      in map_sum id init_host_map
           (if relayOptional \<and> rs_tld rs = [] \<and> \<not> rs_local rs \<and> rs_api_key rs = []
            then validate_environments is_dir mf else validate_manifest is_dir mf))"

definition public_url :: "manifest \<Rightarrow> string \<Rightarrow> string" where
  "public_url mf host = ''https://'' @ host @ ''.'' @ rs_tld (mf_relay mf)"

section \<open>Templates\<close>

definition is_rx_space :: "char \<Rightarrow> bool" where
  "is_rx_space c = (code_of c \<in> {9, 10, 12, 13, 32})"

text \<open>
  A template at the start of the string: two opening braces, optional space, the keyword, a name, optional
  space, two closing braces. It gives the name and the rest; the name's greedy match needs no
  backtracking, because neither space nor brace is a name character.
\<close>

definition match_template :: "string \<Rightarrow> string \<Rightarrow> (string \<times> string) option" where
  "match_template kw s =
     (case cut_prefix s ''{{'' of
        None \<Rightarrow> None
      | Some s1 \<Rightarrow>
          (case cut_prefix (dropWhile is_rx_space s1) kw of
             None \<Rightarrow> None
           | Some s2 \<Rightarrow>
               let name = takeWhile is_dotted_char s2
               in if name = [] then None
                  else (case cut_prefix (dropWhile is_rx_space (dropWhile is_dotted_char s2)) ''}}'' of
                      None \<Rightarrow> None
                    | Some rest \<Rightarrow> Some (name, rest))))"

lemma length_dropWhile_le': "length (dropWhile P s) \<le> length s"
  by (rule length_dropWhile_le)

lemma match_template_shorter: "match_template kw s = Some (name, rest) \<Longrightarrow> length rest < length s"
proof -
  assume a: "match_template kw s = Some (name, rest)"
  then obtain s1 s2 where s1: "s = ''{{'' @ s1" and s2: "dropWhile is_rx_space s1 = kw @ s2"
    and r: "dropWhile is_rx_space (dropWhile is_dotted_char s2) = ''}}'' @ rest"
    by (auto simp: match_template_def cut_prefix_Some Let_def split: option.splits if_splits)
  have "length (kw @ s2) \<le> length s1" using length_dropWhile_le [of is_rx_space s1] s2 by simp
  moreover have "length (''}}'' @ rest) \<le> length s2"
    using length_dropWhile_le [of is_rx_space "dropWhile is_dotted_char s2"] length_dropWhile_le [of is_dotted_char s2]
    unfolding r by simp
  ultimately show ?thesis by (simp add: s1)
qed

text \<open>
  \<open>ReplaceAllStringFunc\<close>, leftmost and without overlaps, with a replacement that may fail: the
  first failure is the result.
\<close>

function subst_templates :: "string \<Rightarrow> (string \<Rightarrow> ('e, string) res) \<Rightarrow> string \<Rightarrow> ('e, string) res" where
  "subst_templates kw f s =
     (case match_template kw s of
        Some (name, rest) \<Rightarrow>
          res_bind (f name) (\<lambda>v. res_bind (subst_templates kw f rest) (\<lambda>t. Ok (v @ t)))
      | None \<Rightarrow>
          (case s of [] \<Rightarrow> Ok [] | c # t \<Rightarrow> res_bind (subst_templates kw f t) (\<lambda>u. Ok (c # u))))"
  by pat_completeness auto
termination
  by (relation "measure (\<lambda>(kw, f, s). length s)") (auto dest: match_template_shorter)

declare subst_templates.simps [simp del]

datatype template_error = UnknownName string | NoRootRoute string | ManyRootRoutes string | NoPort string

text \<open>\<open>portIndex\<close>: later routes overwrite earlier ones of the same name.\<close>

definition named_ports :: "manifest \<Rightarrow> (string, int) gomap" where
  "named_ports mf = fold (\<lambda>r m. if is_run r \<and> rt_name r \<noteq> [] then gput (rt_name r) (rt_port r) m else m)
     (concat (map me_routes (mf_envs mf))) []"

definition index_host :: "manifest \<Rightarrow> string \<Rightarrow> string" where
  "index_host mf name =
     (case map_of (mf_assigned mf) name of
        Some assigned \<Rightarrow> assigned
      | None \<Rightarrow> (case map_of (mf_host_map mf) name of Some final \<Rightarrow> final | None \<Rightarrow> name))"

definition assigned_port :: "string \<Rightarrow> int \<Rightarrow> (template_error, int) res" where
  "assigned_port name port = (if port \<le> 0 then Err (NoPort name) else Ok port)"

definition root_ports :: "manifest \<Rightarrow> string \<Rightarrow> int list" where
  "root_ports mf effective =
     map rt_port (filter (\<lambda>r. rt_path r = ''/'' \<and> is_run r)
       (concat (map me_routes (filter (\<lambda>e. me_host e = effective) (mf_envs mf)))))"

definition index_port :: "manifest \<Rightarrow> string \<Rightarrow> (template_error, int) res" where
  "index_port mf name =
     (case map_of (named_ports mf) name of
        Some port \<Rightarrow> assigned_port name port
      | None \<Rightarrow>
          (case map_of (mf_host_map mf) name of
             None \<Rightarrow> Err (UnknownName name)
           | Some effective \<Rightarrow>
               let ports = root_ports mf effective
               in if length ports = 0 then Err (NoRootRoute name)
                  else if 1 < length ports then Err (ManyRootRoutes name)
                  else assigned_port name (last ports)))"

definition resolve_port_templates :: "manifest \<Rightarrow> string \<Rightarrow> (template_error, string) res" where
  "resolve_port_templates mf s =
     (if \<not> str_contains s ''{{'' then Ok s
      else subst_templates ''port:'' (\<lambda>name. map_sum id itoa (index_port mf name)) s)"

definition resolve_env_value :: "manifest \<Rightarrow> bool \<Rightarrow> string \<Rightarrow> (template_error, string) res" where
  "resolve_env_value mf online v =
     res_bind (subst_templates ''host:'' (\<lambda>name. Ok (index_host mf name @ ''.'' @ rs_tld (mf_relay mf))) v) (\<lambda>s.
       res_bind (resolve_port_templates mf s) (\<lambda>t.
         Ok (replace_all t ''{{online}}'' (if online then ''1'' else []))))"

text \<open>A loop that stops at the first error.\<close>

fun res_map :: "('a \<Rightarrow> ('e, 'b) res) \<Rightarrow> 'a list \<Rightarrow> ('e, 'b list) res" where
  "res_map f [] = Ok []"
| "res_map f (x # xs) = res_bind (f x) (\<lambda>y. res_bind (res_map f xs) (\<lambda>ys. Ok (y # ys)))"

definition resolve_route_env :: "manifest \<Rightarrow> bool \<Rightarrow> route \<Rightarrow> (template_error, route) res" where
  "resolve_route_env mf online r =
     res_bind (res_map (\<lambda>(k, v). res_bind (resolve_env_value mf online v) (\<lambda>w. Ok (k, w))) (rt_env r))
       (\<lambda>env. Ok (r\<lparr>rt_env := env\<rparr>))"

definition map_routes :: "(route \<Rightarrow> ('e, route) res) \<Rightarrow> manifest \<Rightarrow> ('e, manifest) res" where
  "map_routes f mf =
     res_bind (res_map (\<lambda>e. res_bind (res_map f (me_routes e)) (\<lambda>rs. Ok (e\<lparr>me_routes := rs\<rparr>))) (mf_envs mf))
       (\<lambda>es. Ok (mf\<lparr>mf_envs := es\<rparr>))"

definition resolve_env_templates :: "bool \<Rightarrow> manifest \<Rightarrow> (template_error, manifest) res" where
  "resolve_env_templates online mf = map_routes (resolve_route_env mf online) mf"

definition resolve_route_targets :: "manifest \<Rightarrow> (template_error, manifest) res" where
  "resolve_route_targets mf =
     map_routes (\<lambda>r. if is_run r then Ok r
       else res_bind (resolve_port_templates mf (rt_target r)) (\<lambda>t. Ok (r\<lparr>rt_target := t\<rparr>))) mf"

definition resolve_templates :: "bool \<Rightarrow> manifest \<Rightarrow> (template_error, manifest) res" where
  "resolve_templates online mf = res_bind (resolve_env_templates online mf) resolve_route_targets"

end
