(* ===== verification/Preview.thy ===== *)
theory Preview
  imports Manifest Sha256
begin

text \<open>
  \<open>cli/preview/preview.go\<close>: slugs, preview host names and the assignment of free ports. The
  outcomes of running git, and of asking the system for a free port, are arguments. For bytes
  above 127 \<open>strings.ToLower\<close> decodes runes, which is not modelled; \<open>Slugify\<close> turns what is left of
  them into dashes.
\<close>

section \<open>Slugs\<close>

definition short_hash :: "string \<Rightarrow> string" where
  "short_hash s = take 6 (hex_encode (sha256 s))"

text \<open>The loop over the characters: \<open>lastDash\<close>, and whether anything was written yet.\<close>

fun slug_chars :: "bool \<Rightarrow> bool \<Rightarrow> string \<Rightarrow> string" where
  "slug_chars lastDash started [] = []"
| "slug_chars lastDash started (c # s) =
     (if is_alnum c then c # slug_chars False True s
      else if \<not> lastDash \<and> started then CHR ''-'' # slug_chars True True s
      else slug_chars lastDash started s)"

definition slugify :: "string \<Rightarrow> string" where
  "slugify s =
     (let out0 = trim_both (\<lambda>c. c = CHR ''-'') (slug_chars False False (to_lower s));
          out = (if out0 = [] then ''preview'' else out0)
      in if 40 < length out then take 40 out @ ''-'' @ short_hash s else out)"

definition path_slug :: "string \<Rightarrow> string \<Rightarrow> string \<Rightarrow> string" where
  "path_slug cwd projectName dir = slugify (projectName @ ''-'' @ short_hash (path_abs cwd dir))"

definition detached_slug :: "string \<Rightarrow> string \<Rightarrow> string \<Rightarrow> string" where
  "detached_slug cwd commit dir =
     (let p = path_abs cwd dir in slugify (''detached-'' @ commit @ ''-'' @ path_base p @ ''-'' @ short_hash p))"

definition clean_git :: "string \<Rightarrow> string" where
  "clean_git p = trim_space (trim_prefix p ''./'')"

text \<open>\<open>Detect\<close> on the trimmed outputs of the git commands it runs.\<close>

definition detect :: "string \<Rightarrow> string \<Rightarrow> string \<Rightarrow> string \<Rightarrow> string \<Rightarrow> string \<Rightarrow> (string \<times> bool)" where
  "detect cwd dir gitDir common branch head =
     (if gitDir = [] \<or> common = [] \<or> clean_git gitDir = clean_git common then ([], False)
      else let b = (if branch = [] then detached_slug cwd head dir else branch) in (b, b \<noteq> []))"

section \<open>Preview hosts\<close>

datatype mode = ModeSubdomain | ModeFlatten

definition preview_host :: "string \<Rightarrow> string \<Rightarrow> mode \<Rightarrow> string" where
  "preview_host host slug mode =
     (if mode = ModeFlatten then slug @ ''-'' @ replace_all host ''.'' ''-''
      else case cut_at host ''.'' of
          Some (label, rest) \<Rightarrow> trim_suffix label ''-'' @ ''-'' @ slug @ ''.'' @ rest
        | None \<Rightarrow> trim_suffix host ''-'' @ ''-'' @ slug)"

definition apply_mode :: "manifest \<Rightarrow> string \<Rightarrow> string \<Rightarrow> mode \<Rightarrow> manifest \<times> string" where
  "apply_mode mf projectName slug mode =
     (mf\<lparr>mf_envs := map (\<lambda>e. e\<lparr>me_host := preview_host (me_host e) slug mode\<rparr>) (mf_envs mf),
         mf_host_map := map (\<lambda>(orig, _). (orig, preview_host orig slug mode)) (mf_host_map mf)\<rparr>,
      projectName @ ''--'' @ slug)"

definition apply_preview :: "manifest \<Rightarrow> string \<Rightarrow> string \<Rightarrow> manifest \<times> string" where
  "apply_preview mf projectName slug = apply_mode mf projectName slug ModeSubdomain"

section \<open>Targets\<close>

text \<open>\<open>net.SplitHostPort\<close>; \<open>None\<close> is its error.\<close>

definition split_host_port :: "string \<Rightarrow> (string \<times> string) option" where
  "split_host_port s =
     (case cut_last s CHR '':'' of
        None \<Rightarrow> None
      | Some (before, port) \<Rightarrow>
          if before \<noteq> [] \<and> hd before = CHR ''['' then
            (if last before = CHR '']'' \<and> CHR '']'' \<notin> set (butlast before) \<and> CHR ''['' \<notin> set (tl before) \<and>
                CHR ''['' \<notin> set port \<and> CHR '']'' \<notin> set port
             then Some (butlast (tl before), port) else None)
          else if CHR '':'' \<in> set before \<or> CHR ''['' \<in> set s \<or> CHR '']'' \<in> set s then None
          else Some (before, port))"

definition join_host_port :: "string \<Rightarrow> string \<Rightarrow> string" where
  "join_host_port host port =
     (if CHR '':'' \<in> set host then ''['' @ host @ '']:'' @ port else host @ '':'' @ port)"

text \<open>
  The absolute URLs a target can be, as \<open>url.Parse\<close> and \<open>String\<close> take them apart and put them together: a
  scheme, user information, host, and the rest from the first slash, question mark or hash on.
  The rest is kept as it is, which is what \<open>String\<close> does when it needs no escaping.
\<close>

record target_url =
  tu_scheme :: string
  tu_user :: string
  tu_host :: string
  tu_rest :: string

definition is_scheme :: "string \<Rightarrow> bool" where
  "is_scheme s \<longleftrightarrow> s \<noteq> [] \<and> (is_lower (hd s) \<or> is_upper (hd s)) \<and>
     list_all (\<lambda>c. is_lower c \<or> is_upper c \<or> is_digit c \<or> c = CHR ''+'' \<or> c = CHR ''-'' \<or> c = CHR ''.'') s"

definition is_host_char :: "char \<Rightarrow> bool" where
  "is_host_char c = (is_lower c \<or> is_upper c \<or> is_digit c \<or> c \<in> set ''-._~!$&()*+,;=:[]'' \<or> code_of c = 39)"

definition valid_port_part :: "string \<Rightarrow> bool" where
  "valid_port_part h = (case cut_last h CHR '':'' of None \<Rightarrow> True
     | Some (before, port) \<Rightarrow>
         list_all is_digit port \<or> (before \<noteq> [] \<and> hd h = CHR ''['' \<and> last h = CHR '']''))"

definition parse_target_url :: "string \<Rightarrow> target_url option" where
  "parse_target_url target =
     (case cut_at target ''://'' of
        None \<Rightarrow> None
      | Some (scheme, after) \<Rightarrow>
          let authority = takeWhile (\<lambda>c. c \<notin> set ''/?#'') after;
              rest = dropWhile (\<lambda>c. c \<notin> set ''/?#'') after;
              (user, host) = (case cut_last authority CHR ''@'' of None \<Rightarrow> ([], authority) | Some (u, h) \<Rightarrow> (u @ ''@'', h))
          in if \<not> is_scheme scheme \<or> list_ex (\<lambda>c. code_of c < 32 \<or> code_of c = 127) target \<or>
                \<not> list_all is_host_char host \<or> \<not> valid_port_part host then None
             else Some \<lparr>tu_scheme = to_lower scheme, tu_user = user, tu_host = host, tu_rest = rest\<rparr>)"

definition url_string :: "target_url \<Rightarrow> string" where
  "url_string u = tu_scheme u @ ''://'' @ tu_user u @ tu_host u @ tu_rest u"

text \<open>\<open>u.Hostname()\<close>: the host without port and brackets.\<close>

definition url_hostname :: "target_url \<Rightarrow> string" where
  "url_hostname u =
     (let h = tu_host u in
      if h \<noteq> [] \<and> hd h = CHR ''['' then takeWhile (\<lambda>c. c \<noteq> CHR '']'') (tl h)
      else case cut_last h CHR '':'' of Some (b, p) \<Rightarrow> if list_all is_digit p then b else h | None \<Rightarrow> h)"

definition local_target_port :: "string \<Rightarrow> int option" where
  "local_target_port target =
     (let hostport = (case parse_target_url target of Some u \<Rightarrow> tu_host u | None \<Rightarrow> target)
      in case split_host_port hostport of
           None \<Rightarrow> None
         | Some (host, rawPort) \<Rightarrow>
             if host \<noteq> ''localhost'' \<and> host \<noteq> ''127.0.0.1'' then None else parse_int rawPort)"

definition rewrite_target_port :: "string \<Rightarrow> int \<Rightarrow> string" where
  "rewrite_target_port target port =
     (case parse_target_url target of
        Some u \<Rightarrow> url_string (u\<lparr>tu_host := join_host_port (url_hostname u) (itoa port)\<rparr>)
      | None \<Rightarrow>
          (case split_host_port target of
             None \<Rightarrow> join_host_port [] (itoa port)
           | Some (host, _) \<Rightarrow> join_host_port host (itoa port)))"

section \<open>Ports\<close>

datatype port_error = AllocFailed | InvalidPort int | AmbiguousTarget string int

text \<open>
  The allocator is the list of its outcomes, \<open>None\<close> for an error. The loop asks until it gets a
  port that is not used yet; a result \<open>None\<close> means that it is still asking after the outcomes
  listed.
\<close>

fun distinct_port :: "int list \<Rightarrow> int option list \<Rightarrow> ((port_error, int) res \<times> int option list) option" where
  "distinct_port used [] = None"
| "distinct_port used (None # outs) = Some (Err AllocFailed, outs)"
| "distinct_port used (Some port # outs) =
     (if port \<le> 0 \<or> 65535 < port then Some (Err (InvalidPort port), outs)
      else if port \<in> set used then distinct_port used outs
      else Some (Ok port, outs))"

record port_state =
  ps_used :: "int list"
  ps_old :: "(int, int) gomap"
  ps_ambiguous :: "int list"

definition assign_route :: "bool \<Rightarrow> port_state \<Rightarrow> int option list \<Rightarrow> route \<Rightarrow>
   ((port_error, port_state \<times> route) res \<times> int option list) option" where
  "assign_route isPreview ps outs r =
     (if \<not> is_run r \<or> (\<not> isPreview \<and> 0 < rt_port r) then Some (Ok (ps, r), outs)
      else case distinct_port (ps_used ps) outs of
          None \<Rightarrow> None
        | Some (Inl e, outs') \<Rightarrow> Some (Err e, outs')
        | Some (Inr port, outs') \<Rightarrow>
            let ps1 = ps\<lparr>ps_used := port # ps_used ps\<rparr>;
                old = rt_port r;
                ps2 = (if isPreview \<and> 0 < old then
                         (case map_of (ps_old ps1) old of
                            Some _ \<Rightarrow> ps1\<lparr>ps_ambiguous := old # ps_ambiguous ps1\<rparr>
                          | None \<Rightarrow> ps1\<lparr>ps_old := gput old port (ps_old ps1)\<rparr>)
                       else ps1)
            in Some (Ok (ps2, r\<lparr>rt_port := port\<rparr>), outs'))"

fun assign_routes :: "bool \<Rightarrow> port_state \<Rightarrow> int option list \<Rightarrow> route list \<Rightarrow>
   ((port_error, port_state \<times> route list) res \<times> int option list) option" where
  "assign_routes isPreview ps outs [] = Some (Ok (ps, []), outs)"
| "assign_routes isPreview ps outs (r # rs) =
     (case assign_route isPreview ps outs r of
        None \<Rightarrow> None
      | Some (Inl e, outs') \<Rightarrow> Some (Err e, outs')
      | Some (Inr (ps', r'), outs') \<Rightarrow>
          (case assign_routes isPreview ps' outs' rs of
             None \<Rightarrow> None
           | Some (Inl e, outs'') \<Rightarrow> Some (Err e, outs'')
           | Some (Inr (ps'', rs'), outs'') \<Rightarrow> Some (Ok (ps'', r' # rs'), outs'')))"

fun assign_envs :: "bool \<Rightarrow> port_state \<Rightarrow> int option list \<Rightarrow> environment list \<Rightarrow>
   ((port_error, port_state \<times> environment list) res \<times> int option list) option" where
  "assign_envs isPreview ps outs [] = Some (Ok (ps, []), outs)"
| "assign_envs isPreview ps outs (e # es) =
     (case assign_routes isPreview ps outs (me_routes e) of
        None \<Rightarrow> None
      | Some (Inl x, outs') \<Rightarrow> Some (Err x, outs')
      | Some (Inr (ps', rs'), outs') \<Rightarrow>
          (case assign_envs isPreview ps' outs' es of
             None \<Rightarrow> None
           | Some (Inl x, outs'') \<Rightarrow> Some (Err x, outs'')
           | Some (Inr (ps'', es'), outs'') \<Rightarrow> Some (Ok (ps'', e\<lparr>me_routes := rs'\<rparr> # es'), outs'')))"

definition remap_target :: "port_state \<Rightarrow> route \<Rightarrow> (port_error, route) res" where
  "remap_target ps r =
     (if is_run r then Ok r
      else case local_target_port (rt_target r) of
          None \<Rightarrow> Ok r
        | Some old \<Rightarrow>
            (case map_of (ps_old ps) old of
               None \<Rightarrow> Ok r
             | Some port \<Rightarrow>
                 if old \<in> set (ps_ambiguous ps) then Err (AmbiguousTarget (rt_target r) old)
                 else Ok (r\<lparr>rt_target := rewrite_target_port (rt_target r) port\<rparr>)))"

definition declared_ports :: "environment list \<Rightarrow> int list" where
  "declared_ports es = map rt_port (filter (\<lambda>r. is_run r \<and> 0 < rt_port r) (concat (map me_routes es)))"

definition assign_ports :: "bool \<Rightarrow> int option list \<Rightarrow> manifest \<Rightarrow> (port_error, manifest) res option" where
  "assign_ports isPreview outs mf =
     (let ps0 = \<lparr>ps_used = (if isPreview then [] else declared_ports (mf_envs mf)), ps_old = [], ps_ambiguous = []\<rparr>
      in case assign_envs isPreview ps0 outs (mf_envs mf) of
           None \<Rightarrow> None
         | Some (Inl e, _) \<Rightarrow> Some (Err e)
         | Some (Inr (ps, es), _) \<Rightarrow>
             let mf' = mf\<lparr>mf_envs := es\<rparr>
             in if \<not> isPreview then Some (Ok mf') else Some (map_routes (remap_target ps) mf'))"

end
