(* ===== verification/Tunnel.thy ===== *)
theory Tunnel
  imports Http Preview
begin

text \<open>
  \<open>cli/tunnel/tunnel.go\<close>: the client side of a tunnel. The query of the websocket URL, the
  greeting, the local target, and the reconnect loop of \<open>Hold\<close> as a transition function over
  its events. Dialling, the multiplexed session and the byte pipes are the environment.
\<close>

section \<open>Query values\<close>

text \<open>\<open>url.Values\<close>, \<open>url.QueryEscape\<close>, \<open>Values.Encode\<close> and \<open>ParseQuery\<close> of the standard library.\<close>

type_synonym url_values = "(string, string list) gomap"

definition hex_upper :: "nat \<Rightarrow> char" where
  "hex_upper d = (if d < 10 then char_of (48 + d) else char_of (55 + d))"

definition is_unreserved :: "char \<Rightarrow> bool" where
  "is_unreserved c = (is_alnum c \<or> is_upper c \<or> c = CHR ''-'' \<or> c = CHR ''_'' \<or> c = CHR ''.'' \<or> c = CHR ''~'')"

definition escape_char :: "char \<Rightarrow> string" where
  "escape_char c =
     (if is_unreserved c then [c] else if c = CHR '' '' then ''+''
      else [CHR ''%'', hex_upper (code_of c div 16), hex_upper (code_of c mod 16)])"

definition query_escape :: "string \<Rightarrow> string" where
  "query_escape s = concat (map escape_char s)"

definition values_set :: "string \<Rightarrow> string \<Rightarrow> url_values \<Rightarrow> url_values" where
  "values_set k v vs = gput k [v] vs"

definition values_list :: "url_values \<Rightarrow> (string \<times> string) list" where
  "values_list vs = concat (map (\<lambda>(k, xs). map (\<lambda>x. (k, x)) xs) (sort_key fst vs))"

definition values_encode :: "url_values \<Rightarrow> string" where
  "values_encode vs = str_join ''&'' (map (\<lambda>(k, x). query_escape k @ ''='' @ query_escape x) (values_list vs))"

definition add_value :: "url_values \<Rightarrow> string \<times> string \<Rightarrow> url_values" where
  "add_value vs kv = gput (fst kv) ((case map_of vs (fst kv) of None \<Rightarrow> [] | Some xs \<Rightarrow> xs) @ [snd kv]) vs"

definition parse_query :: "string \<Rightarrow> url_values" where
  "parse_query raw = foldl add_value [] (query_pairs raw)"

section \<open>Dialling\<close>

record options =
  o_api_key :: string
  o_service :: string
  o_path :: string
  o_protect :: string
  o_gate_group :: string
  o_target :: string

definition set_route_query :: "url_values \<Rightarrow> string \<Rightarrow> string \<Rightarrow> string \<Rightarrow> string \<Rightarrow> url_values" where
  "set_route_query q service pathPrefix protect gateGroup =
     (let q1 = values_set ''service'' service q;
          q2 = values_set ''path'' pathPrefix q1;
          q3 = (if protect \<noteq> [] then values_set ''protect'' protect q2 else q2)
      in if gateGroup \<noteq> [] then values_set ''gate_group'' gateGroup q3 else q3)"

record ws_url =
  u_scheme :: string
  u_host :: string
  u_path :: string
  u_raw_query :: string

definition websocket_url :: "string \<Rightarrow> string \<Rightarrow> string \<Rightarrow> string \<Rightarrow> string \<Rightarrow> string \<Rightarrow> ws_url" where
  "websocket_url scheme relayHost service pathPrefix protect gateGroup =
     \<lparr>u_scheme = scheme, u_host = relayHost, u_path = ''/_ws'',
      u_raw_query = values_encode (set_route_query [] service pathPrefix protect gateGroup)\<rparr>"

datatype dial_error = InvalidUrl | ConnectFailed | NoGreeting | UnexpectedGreeting string | MuxFailed

text \<open>What \<open>Dial\<close> asks for: the URL it connects to and its Authorization header.\<close>

definition dial_request :: "ws_url \<Rightarrow> options \<Rightarrow> (dial_error, ws_url \<times> string) res" where
  "dial_request u opt =
     (if u_scheme u \<noteq> ''wss'' \<and> u_scheme u \<noteq> ''ws'' then Err InvalidUrl
      else Ok (u\<lparr>u_raw_query := values_encode (set_route_query (parse_query (u_raw_query u)) (o_service opt) (o_path opt) (o_protect opt) (o_gate_group opt))\<rparr>,
           ''Bearer '' @ o_api_key opt))"

text \<open>
  The reason appended to a failed handshake, from the body of the relay's answer (\<open>None\<close>: no
  answer, or a body that cannot be read), of which 512 bytes are read.
\<close>

definition handshake_reason :: "string option \<Rightarrow> string" where
  "handshake_reason body =
     (case body of None \<Rightarrow> []
      | Some b \<Rightarrow> let got = take 512 b in if got = [] then [] else '' ('' @ trim_space got @ '')'')"

definition greeting_host :: "string \<Rightarrow> (dial_error, string) res" where
  "greeting_host greeting =
     (case cut_prefix greeting ''host:'' of
        None \<Rightarrow> Err (UnexpectedGreeting greeting)
      | Some host \<Rightarrow> if host = [] then Err (UnexpectedGreeting greeting) else Ok host)"

text \<open>\<open>Dial\<close> from the answers of its environment: the connection, the first message, the session.\<close>

definition dial :: "ws_url \<Rightarrow> options \<Rightarrow> bool \<Rightarrow> string option \<Rightarrow> bool \<Rightarrow> (dial_error, string) res" where
  "dial u opt connects first mux =
     res_bind (dial_request u opt) (\<lambda>_.
       if \<not> connects then Err ConnectFailed
       else case first of
         None \<Rightarrow> Err NoGreeting
       | Some greeting \<Rightarrow> res_bind (greeting_host greeting) (\<lambda>host. if mux then Ok host else Err MuxFailed))"

definition parse_target :: "string \<Rightarrow> string" where
  "parse_target target =
     (let t = fst (cut_or_all (trim_prefix (trim_prefix target ''http://'') ''https://'') CHR ''/'')
      in if \<not> str_contains t '':'' then join_host_port ''localhost'' t else t)"

section \<open>Holding a route\<close>

text \<open>
  The goroutine of \<open>Hold\<close>: connected, waiting to redial (with the pause in seconds that is due),
  dialling, or finished. An event is what the blocking operation it stands at returns; which of
  two ready events a \<open>select\<close> takes is the order of the list.
\<close>

datatype hold_state = Connected string nat | Waiting nat | Dialling nat | Finished

datatype hold_event = CtxDone | TunnelDone bool | TimerFired | DialFailed | DialDone string

fun hold_step :: "hold_state \<Rightarrow> hold_event \<Rightarrow> hold_state option" where
  "hold_step (Connected h b) CtxDone = Some Finished"
| "hold_step (Connected h b) (TunnelDone ctx_ended) = Some (if ctx_ended then Finished else Waiting b)"
| "hold_step (Waiting b) CtxDone = Some Finished"
| "hold_step (Waiting b) TimerFired = Some (Dialling b)"
| "hold_step (Dialling b) (DialDone h) = Some (Connected h 1)"
| "hold_step (Dialling b) DialFailed = Some (Waiting (min (b * 2) 30))"
| "hold_step _ _ = None"

fun hold_run :: "hold_state \<Rightarrow> hold_event list \<Rightarrow> hold_state option" where
  "hold_run s [] = Some s"
| "hold_run s (e # es) = (case hold_step s e of None \<Rightarrow> None | Some s' \<Rightarrow> hold_run s' es)"

text \<open>The seconds slept in a run.\<close>

fun hold_slept :: "hold_state \<Rightarrow> hold_event list \<Rightarrow> nat" where
  "hold_slept s [] = 0"
| "hold_slept s (e # es) =
     (case hold_step s e of None \<Rightarrow> 0
      | Some s' \<Rightarrow> (case (s, e) of (Waiting b, TimerFired) \<Rightarrow> b | _ \<Rightarrow> 0) + hold_slept s' es)"

definition hold_start :: "(dial_error, string) res \<Rightarrow> (dial_error, hold_state) res" where
  "hold_start first = res_bind first (\<lambda>host. Ok (Connected host 1))"

fun_cases hold_stepE: "hold_step s e = Some s'"

end
