(* ===== verification/TunnelProps.thy ===== *)
theory TunnelProps
  imports Tunnel TunnelConn ServerProps
begin

text \<open>
  The two ends of the handshake agree: what the CLI puts in the query of its websocket URL is
  what the relay reads out of it, and the relay's greeting is what the CLI takes as its host.
  Then the reconnect loop.
\<close>

section \<open>Query values\<close>

lemma hex_val_upper: "d < 16 \<Longrightarrow> hex_val (hex_upper d) = Some d"
  by (simp add: hex_val_def hex_upper_def is_digit_def)

lemma unreserved_plain: "is_unreserved c \<Longrightarrow> c \<noteq> CHR ''%'' \<and> c \<noteq> CHR ''+'' \<and> c \<noteq> CHR ''&'' \<and> c \<noteq> CHR '';'' \<and> c \<noteq> CHR ''=''"
  by (auto simp: is_unreserved_def is_alnum_def is_lower_def is_upper_def is_digit_def)

lemma unescape_char: "query_unescape (escape_char c @ s) = map_option ((#) c) (query_unescape s)"
proof -
  have b: "code_of c < 256" by simp
  then have h: "hex_val (hex_upper (code_of c div 16)) = Some (code_of c div 16)" "hex_val (hex_upper (code_of c mod 16)) = Some (code_of c mod 16)"
    by (simp_all add: hex_val_upper)
  have "char_of (16 * (code_of c div 16) + code_of c mod 16) = c" by (simp add: mult_div_mod_eq)
  then show ?thesis using unreserved_plain [of c] h
    by (auto simp: escape_char_def)
qed

lemma query_unescape_escape: "query_unescape (query_escape s) = Some s"
  by (induction s) (simp_all add: query_escape_def unescape_char)

lemma hex_upper_plain: "d < 16 \<Longrightarrow> hex_upper d \<notin> {CHR ''&'', CHR '';'', CHR ''=''}"
proof -
  assume d: "d < 16"
  then have "code_of (hex_upper d) \<in> {48..57} \<union> {65..70}" by (simp add: hex_upper_def)
  then show ?thesis by auto
qed

lemma escape_char_plain: "x \<in> set (escape_char c) \<Longrightarrow> x \<noteq> CHR ''&'' \<and> x \<noteq> CHR '';'' \<and> x \<noteq> CHR ''=''"
proof -
  have "code_of c < 256" by simp
  then show "x \<in> set (escape_char c) \<Longrightarrow> ?thesis"
    using unreserved_plain [of c] hex_upper_plain [of "code_of c div 16"] hex_upper_plain [of "code_of c mod 16"]
    by (auto simp: escape_char_def split: if_splits)
qed

lemma query_escape_plain: "CHR ''&'' \<notin> set (query_escape s)" "CHR '';'' \<notin> set (query_escape s)" "CHR ''='' \<notin> set (query_escape s)"
  using escape_char_plain by (fastforce simp: query_escape_def)+

lemma query_part_escaped: "query_part (query_escape k @ ''='' @ query_escape v) = Some (k, v)"
  using query_escape_plain
  by (simp add: query_part_def cut_or_all_def cut_at_char query_unescape_escape)

lemma query_pairs_encode: "query_pairs (values_encode vs) = values_list vs"
proof (cases "values_list vs = []")
  case True
  then show ?thesis by (simp add: values_encode_def query_pairs_def query_part_def List.map_filter_def)
next
  case False
  let ?f = "\<lambda>(k, x). query_escape k @ ''='' @ query_escape x"
  have "str_split CHR ''&'' (values_encode vs) = map ?f (values_list vs)"
    unfolding values_encode_def using False query_escape_plain(1) by (intro str_split_join) auto
  moreover have "List.map_filter query_part (map ?f xs) = xs" for xs
    by (induction xs) (auto simp: List.map_filter_def query_part_escaped simp del: append.simps)
  ultimately show ?thesis by (simp add: query_pairs_def)
qed

lemma map_of_values: "distinct (map fst xs) \<Longrightarrow>
   map_of (concat (map (\<lambda>(k, vs). map (\<lambda>x. (k, x)) vs) xs)) k =
     (case map_of xs k of None \<Rightarrow> None | Some vs \<Rightarrow> if vs = [] then None else Some (hd vs))"
proof (induction xs)
  case (Cons p xs)
  obtain k' vs where p: "p = (k', vs)" by (cases p)
  have "map_of (map (\<lambda>x. (k', x)) vs) k = (if k = k' \<and> vs \<noteq> [] then Some (hd vs) else None)" for vs :: "'b list"
    by (induction vs) auto
  then show ?case using Cons p map_of_eq_None_iff [of xs k'] by (auto simp: map_add_def split: option.splits)
qed simp

lemma map_of_sort_key: "distinct (map fst xs) \<Longrightarrow> map_of (sort_key fst xs) = map_of xs"
  by (rule map_of_inject_set [THEN iffD2]) (auto simp: distinct_map intro: inj_on_subset)

lemma query_get_encode:
  "wf_gomap vs \<Longrightarrow> query_get (values_encode vs) k = (case map_of vs k of None \<Rightarrow> [] | Some xs \<Rightarrow> if xs = [] then [] else hd xs)"
proof -
  assume wf: "wf_gomap vs"
  have d: "distinct (map fst (sort_key fst vs))" using wf by (simp add: wf_gomap_def distinct_map)
  have "map_of (values_list vs) k = (case map_of vs k of None \<Rightarrow> None | Some xs \<Rightarrow> if xs = [] then None else Some (hd xs))"
    using map_of_values [OF d, of k] map_of_sort_key [of vs] wf by (simp add: values_list_def wf_gomap_def)
  then show ?thesis by (simp add: query_get_def query_pairs_encode split: option.splits)
qed

lemma wf_set_route: "wf_gomap q \<Longrightarrow> wf_gomap (set_route_query q service pathPrefix protect gate)"
  by (simp add: set_route_query_def values_set_def Let_def)

lemma wf_parse_query: "wf_gomap (parse_query raw)"
proof -
  have "wf_gomap m \<Longrightarrow> wf_gomap (foldl add_value m ps)" for m ps by (induction ps arbitrary: m) (auto simp: add_value_def)
  then show ?thesis by (simp add: parse_query_def)
qed

lemma parse_query_get: "map_of (parse_query raw) k = (let xs = map snd (filter (\<lambda>p. fst p = k) (query_pairs raw)) in if xs = [] then None else Some xs)"
proof -
  have "map_of (foldl add_value m ps) k =
      (let xs = map snd (filter (\<lambda>p. fst p = k) ps) in
       case map_of m k of None \<Rightarrow> if xs = [] then None else Some xs | Some os \<Rightarrow> Some (os @ xs))" for m ps
    by (induction ps arbitrary: m) (auto simp: add_value_def Let_def split: option.splits if_splits)
  then show ?thesis by (simp add: parse_query_def)
qed

lemma map_of_filter_hd: "map_of ps k = (case filter (\<lambda>p. fst p = k) ps of [] \<Rightarrow> None | p # _ \<Rightarrow> Some (snd p))"
  by (induction ps) auto

lemma query_get_parse: "(case map_of (parse_query raw) k of None \<Rightarrow> [] | Some xs \<Rightarrow> if xs = [] then [] else hd xs) = query_get raw k"
  unfolding parse_query_get query_get_def map_of_filter_hd [of "query_pairs raw"] by (simp add: Let_def split: list.splits)

lemma dialled_query:
  assumes "raw' = values_encode (set_route_query (parse_query raw) service pathPrefix protect gate)"
  shows "query_get raw' ''service'' = service" "query_get raw' ''path'' = pathPrefix"
    "query_get raw' ''protect'' = (if protect \<noteq> [] then protect else query_get raw ''protect'')"
    "query_get raw' ''gate_group'' = (if gate \<noteq> [] then gate else query_get raw ''gate_group'')"
  using query_get_parse [of raw "''protect''"] query_get_parse [of raw "''gate_group''"]
  by (simp_all add: assms query_get_encode wf_set_route wf_parse_query)
     (simp_all add: set_route_query_def values_set_def Let_def)

section \<open>The handshake\<close>

lemma service_ok_ne: "service_ok single service \<Longrightarrow> service \<noteq> []"
  by (auto simp: service_ok_def validate_service_iff loose_service_iff dns_label_def split: if_splits)

lemma tunnel_host_ne: "service \<noteq> [] \<Longrightarrow> tunnel_host single user service \<noteq> []"
  by (simp add: tunnel_host_def)

lemma dialled_handshake:
  assumes dialled: "dial_request (websocket_url scheme relayHost (o_service opt) (o_path opt) (o_protect opt) (o_gate_group opt)) opt = Ok (u, auth)"
    and req: "rq_raw_query r = u_raw_query u" "rq_authorization r = auth"
    and accepted: "ws_handshake cf reg st r en = (st', Ok h)"
  shows "snd (validate_api_key (en_fail en, en_fail2 en) (en_stamp en) st (o_api_key opt)) = Some (hs_user h)"
    and "service_ok (rc_single cf) (o_service opt)"
    and "h = \<lparr>hs_user = hs_user h, hs_service = o_service opt, hs_host = tunnel_host (rc_single cf) (hs_user h) (o_service opt), hs_path = o_path opt,
      hs_template = \<lparr>t_service = o_service opt, t_host = tunnel_host (rc_single cf) (hs_user h) (o_service opt), t_user = hs_user h,
        t_gate_group = o_gate_group opt, t_protect_hash = protect_hash_of (o_protect opt), t_pending = True\<rparr>\<rparr>"
proof -
  let ?raw0 = "values_encode (set_route_query [] (o_service opt) (o_path opt) (o_protect opt) (o_gate_group opt))"
  have u: "u_raw_query u = values_encode (set_route_query (parse_query ?raw0) (o_service opt) (o_path opt) (o_protect opt) (o_gate_group opt))"
    and auth: "auth = ''Bearer '' @ o_api_key opt"
    using dialled by (auto simp: dial_request_def websocket_url_def split: if_splits)
  have raw0: "query_get ?raw0 ''protect'' = o_protect opt" "query_get ?raw0 ''gate_group'' = o_gate_group opt"
    by (simp_all add: query_get_encode wf_set_route) (simp_all add: set_route_query_def values_set_def Let_def)
  note q = dialled_query [OF u, unfolded raw0]
  have bearer: "bearer r = o_api_key opt" unfolding bearer_def req(2) auth by (rule trim_prefix_append)
  obtain st1 owner where v: "validate_api_key (en_fail en, en_fail2 en) (en_stamp en) st (o_api_key opt) = (st1, owner)" by (metis surj_pair)
  then obtain user where user: "owner = Some user" and ok: "service_ok (rc_single cf) (o_service opt)"
    and h: "h = \<lparr>hs_user = user, hs_service = o_service opt, hs_host = tunnel_host (rc_single cf) user (o_service opt), hs_path = o_path opt,
      hs_template = \<lparr>t_service = o_service opt, t_host = tunnel_host (rc_single cf) user (o_service opt), t_user = user,
        t_gate_group = o_gate_group opt, t_protect_hash = protect_hash_of (o_protect opt), t_pending = True\<rparr>\<rparr>"
    using accepted q by (auto simp: ws_handshake_def bearer req Let_def split: option.splits if_splits sum.splits)
  have user_h: "hs_user h = user" by (simp add: h)
  show "snd (validate_api_key (en_fail en, en_fail2 en) (en_stamp en) st (o_api_key opt)) = Some (hs_user h)"
    unfolding user_h v user by simp
  show "service_ok (rc_single cf) (o_service opt)" by (rule ok)
  show "h = \<lparr>hs_user = hs_user h, hs_service = o_service opt, hs_host = tunnel_host (rc_single cf) (hs_user h) (o_service opt), hs_path = o_path opt,
      hs_template = \<lparr>t_service = o_service opt, t_host = tunnel_host (rc_single cf) (hs_user h) (o_service opt), t_user = hs_user h,
        t_gate_group = o_gate_group opt, t_protect_hash = protect_hash_of (o_protect opt), t_pending = True\<rparr>\<rparr>"
    unfolding user_h by (rule h)
qed

text \<open>
  C15: the websocket URL and headers the CLI dials with make the relay see exactly the service,
  path, secret, gate group and key the tunnel was asked for: a request carrying them is accepted
  by the relay's handshake only as that tunnel, of the key's owner, and the greeting sent for it
  is taken by the CLI as the registered host.
\<close>

theorem cli_handshake_agrees:
  assumes dialled: "dial_request (websocket_url scheme relayHost (o_service opt) (o_path opt) (o_protect opt) (o_gate_group opt)) opt = Ok (u, auth)"
    and req: "rq_raw_query r = u_raw_query u" "rq_authorization r = auth"
    and accepted: "ws_handshake cf reg st r en = (st', Ok h)"
  shows "hs_service h = o_service opt \<and> hs_path h = o_path opt \<and>
    hs_template h = \<lparr>t_service = o_service opt, t_host = hs_host h, t_user = hs_user h, t_gate_group = o_gate_group opt,
      t_protect_hash = protect_hash_of (o_protect opt), t_pending = True\<rparr> \<and>
    snd (validate_api_key (en_fail en, en_fail2 en) (en_stamp en) st (o_api_key opt)) = Some (hs_user h) \<and>
    hs_host h = tunnel_host (rc_single cf) (hs_user h) (o_service opt) \<and>
    greeting_host (''host:'' @ hs_host h) = Ok (hs_host h)"
proof -
  note d = dialled_handshake [OF dialled req accepted]
  have "hs_host h \<noteq> []" using tunnel_host_ne [OF service_ok_ne [OF d(2)]] by (subst d(3)) simp
  then have "greeting_host (''host:'' @ hs_host h) = Ok (hs_host h)" by (simp add: greeting_host_def cut_prefix_def)
  moreover have "hs_service h = o_service opt" "hs_path h = o_path opt" "hs_host h = tunnel_host (rc_single cf) (hs_user h) (o_service opt)"
    by (subst d(3), simp)+
  moreover have "hs_template h = \<lparr>t_service = o_service opt, t_host = tunnel_host (rc_single cf) (hs_user h) (o_service opt), t_user = hs_user h,
      t_gate_group = o_gate_group opt, t_protect_hash = protect_hash_of (o_protect opt), t_pending = True\<rparr>"
    by (subst d(3)) simp
  ultimately show ?thesis using d(1) by simp
qed

definition shop_options :: options where
  "shop_options = \<lparr>o_api_key = ''rxy_61'', o_service = ''shop'', o_path = [], o_protect = [], o_gate_group = [], o_target = ''3000''\<rparr>"

lemma demo_key_valid: "snd (validate_api_key (False, False) now key_store1 ''rxy_61'') = Some ''u1''"
  using keys.created_key_valid [OF wf_empty_store, of "(False, ''a'', ''i'', ''t0'')" "''u1''" "[]" key_store1 "''rxy_61''" _
      "((False, False), now)"] create_first_key by simp

lemma shop_dialled:
  "\<exists>u auth st. dial_request (websocket_url scheme host ''shop'' [] [] []) shop_options = Ok (u, auth) \<and>
     ws_handshake demo_config new_registry key_store1 (ws_request\<lparr>rq_raw_query := u_raw_query u, rq_authorization := auth\<rparr>) demo_env = (st, Ok shop_hs)"
  if sc: "scheme = ''wss'' \<or> scheme = ''ws''"
proof -
  obtain u auth where d: "dial_request (websocket_url scheme host ''shop'' [] [] []) shop_options = Ok (u, auth)"
    using sc by (elim disjE) (simp_all add: dial_request_def websocket_url_def)
  then have u: "u_raw_query u = values_encode (set_route_query (parse_query (values_encode (set_route_query [] ''shop'' [] [] []))) ''shop'' [] [] [])"
    and auth: "auth = ''Bearer rxy_61''"
    by (auto simp: dial_request_def websocket_url_def shop_options_def split: if_splits)
  have raw0: "query_get (values_encode (set_route_query [] ''shop'' [] [] [])) ''protect'' = []" "query_get (values_encode (set_route_query [] ''shop'' [] [] [])) ''gate_group'' = []"
    by (simp_all add: query_get_encode wf_set_route) (simp_all add: set_route_query_def values_set_def Let_def)
  note q = dialled_query [OF u, unfolded raw0, simplified]
  have t: "trim_prefix ''Bearer rxy_61'' ''Bearer '' = ''rxy_61''" "service_ok True ''shop''" by code_simp+
  let ?r = "ws_request\<lparr>rq_raw_query := u_raw_query u, rq_authorization := auth\<rparr>"
  have "\<exists>st. ws_handshake demo_config new_registry key_store1 ?r demo_env = (st, Ok shop_hs)"
    by (simp add: ws_handshake_def demo_config_def ws_request_def demo_env_def bearer_def q demo_key_valid t auth case_prod_unfold Let_def
        tunnel_host_def protect_hash_of_def check_def new_registry_def shop_hs_def)
  then show ?thesis using d by blast
qed

theorem cli_handshake_agrees_witness:
  "\<exists>u auth st h. dial_request (websocket_url ''wss'' ''roxey.dev'' ''shop'' [] [] []) shop_options = Ok (u, auth) \<and>
     ws_handshake demo_config new_registry key_store1 (ws_request\<lparr>rq_raw_query := u_raw_query u, rq_authorization := auth\<rparr>) demo_env = (st, Ok h) \<and>
     greeting_host (''host:'' @ hs_host h) = Ok ''shop''"
proof -
  obtain u auth st where d: "dial_request (websocket_url ''wss'' ''roxey.dev'' ''shop'' [] [] []) shop_options = Ok (u, auth)"
    and h: "ws_handshake demo_config new_registry key_store1 (ws_request\<lparr>rq_raw_query := u_raw_query u, rq_authorization := auth\<rparr>) demo_env = (st, Ok shop_hs)"
    using shop_dialled by blast
  have "dial_request (websocket_url ''wss'' ''roxey.dev'' (o_service shop_options) (o_path shop_options) (o_protect shop_options) (o_gate_group shop_options)) shop_options = Ok (u, auth)"
    using d by (simp add: shop_options_def)
  then have "greeting_host (''host:'' @ hs_host shop_hs) = Ok (hs_host shop_hs)"
    by (rule cli_handshake_agrees [THEN conjunct2, THEN conjunct2, THEN conjunct2, THEN conjunct2, THEN conjunct2, OF _ _ _ h]) simp_all
  moreover have "hs_host shop_hs = ''shop''" by (simp add: shop_hs_def)
  ultimately have "greeting_host (''host:'' @ hs_host shop_hs) = Ok ''shop''" by (simp only:)
  with d h show ?thesis by blast
qed

section \<open>Reconnecting\<close>

fun hold_ok :: "hold_state \<Rightarrow> bool" where
  "hold_ok (Connected h b) = (b = 1)"
| "hold_ok (Waiting b) = (1 \<le> b \<and> b \<le> 30)"
| "hold_ok (Dialling b) = (1 \<le> b \<and> b \<le> 30)"
| "hold_ok Finished = True"

lemma hold_ok_step: "hold_step s e = Some s' \<Longrightarrow> hold_ok s \<Longrightarrow> hold_ok s'"
  by (erule hold_stepE) auto

interpretation hold_sys: invariant_system "\<lambda>s. \<exists>h. s = Connected h 1" "\<lambda>s s'. \<exists>e. hold_step s e = Some s'" hold_ok
  by unfold_locales (auto intro: hold_ok_step)

lemma hold_run_steps: "hold_run s es = Some s' \<Longrightarrow> (\<lambda>s s'. \<exists>e. hold_step s e = Some s')\<^sup>*\<^sup>* s s'"
proof (induction es arbitrary: s)
  case (Cons e es)
  then obtain s1 where "hold_step s e = Some s1" "hold_run s1 es = Some s'" by (auto split: option.splits)
  then show ?case using Cons.IH by (metis (mono_tags, lifting) converse_rtranclp_into_rtranclp)
qed simp

lemma hold_finishes_on_ctx:
  "hold_run s es = Some Finished \<Longrightarrow> s \<noteq> Finished \<Longrightarrow> CtxDone \<in> set es \<or> TunnelDone True \<in> set es"
proof (induction es arbitrary: s)
  case (Cons e es)
  then obtain s1 where s1: "hold_step s e = Some s1" "hold_run s1 es = Some Finished" by (auto split: option.splits)
  show ?case
  proof (cases "s1 = Finished")
    case True
    then show ?thesis using s1(1) by (auto elim!: hold_stepE split: if_splits)
  qed (use Cons.IH s1(2) in auto)
qed simp

fun backoff_total :: "nat \<Rightarrow> nat \<Rightarrow> nat" where
  "backoff_total b 0 = b"
| "backoff_total b (Suc k) = b + backoff_total (min (b * 2) 30) k"

lemma hold_failures:
  "hold_run (Waiting b) (concat (replicate k [TimerFired, DialFailed]) @ [TimerFired, DialDone h]) = Some (Connected h 1) \<and>
   hold_slept (Waiting b) (concat (replicate k [TimerFired, DialFailed]) @ [TimerFired, DialDone h]) = backoff_total b k"
  by (induction k arbitrary: b) auto

lemma backoff_total_bound: "b \<le> 30 \<Longrightarrow> backoff_total b k \<le> 30 * (k + 1)"
proof (induction k arbitrary: b)
  case (Suc k)
  have "backoff_total (min (b * 2) 30) k \<le> 30 * (k + 1)" by (rule Suc.IH) simp
  then show ?case using Suc.prems by simp
qed simp

text \<open>
  C30: a held route is given up only when its context ends. In every run the pause before a redial
  is between one and thirty seconds; after a drop, any number of failed dials followed by one that
  succeeds bring the tunnel back, with the pause reset to a second and at most thirty seconds
  slept per attempt.
\<close>

theorem hold_reconnects:
  assumes start: "hold_start first = Ok s" and run: "hold_run s es = Some s'"
  shows "hold_ok s' \<and> (s' = Finished \<longrightarrow> CtxDone \<in> set es \<or> TunnelDone True \<in> set es) \<and>
    (\<forall>h b. s' = Connected h b \<longrightarrow>
       (let later = TunnelDone False # concat (replicate k [TimerFired, DialFailed]) @ [TimerFired, DialDone h'] in
          hold_run s' later = Some (Connected h' 1) \<and> hold_slept s' later \<le> 30 * (k + 1)))"
proof -
  obtain h0 where s: "s = Connected h0 1" using start by (auto simp: hold_start_def res_bind_eq_Ok)
  have ok: "hold_ok s'" using hold_sys.inv_reachable [OF _ hold_run_steps [OF run]] s by blast
  have fin: "s' = Finished \<longrightarrow> CtxDone \<in> set es \<or> TunnelDone True \<in> set es" using hold_finishes_on_ctx run s by blast
  have "hold_run (Connected h b) (TunnelDone False # concat (replicate k [TimerFired, DialFailed]) @ [TimerFired, DialDone h']) = Some (Connected h' 1) \<and>
      hold_slept (Connected h b) (TunnelDone False # concat (replicate k [TimerFired, DialFailed]) @ [TimerFired, DialDone h']) \<le> 30 * (k + 1)"
    if "s' = Connected h b" for h b
    using hold_failures [of b k h'] backoff_total_bound [of b k] ok that by simp
  then show ?thesis using ok fin by (auto simp: Let_def)
qed

theorem hold_reconnects_witness:
  "hold_run (Connected ''a'' 1) [TunnelDone False, TimerFired, DialFailed, TimerFired, DialFailed, TimerFired, DialDone ''b''] = Some (Connected ''b'' 1) \<and>
   hold_slept (Connected ''a'' 1) [TunnelDone False, TimerFired, DialFailed, TimerFired, DialFailed, TimerFired, DialDone ''b''] \<le> 90"
proof -
  have "hold_start (Ok ''a'') = Ok (Connected ''a'' 1)" by (simp add: hold_start_def)
  from hold_reconnects [OF this, of "[]" "Connected ''a'' 1" 2 "''b''"] show ?thesis by (simp add: Let_def numeral_2_eq_2)
qed

end
