(* ===== verification/ManifestProps.thy ===== *)
theory ManifestProps
  imports Manifest
begin

text \<open>
  What validation accepts, exactly; and what template resolution does.
\<close>

section \<open>The shape of a valid manifest\<close>

definition full_cwd :: "string \<Rightarrow> string \<Rightarrow> string" where
  "full_cwd dir cwd = (if cwd = [] then dir else if is_abs cwd then cwd else path_join [dir, cwd])"

definition run_names :: "route \<Rightarrow> string list" where
  "run_names r = (if is_run r \<and> rt_name r \<noteq> [] then [rt_name r] else [])"

definition route_ok :: "(string \<Rightarrow> bool) \<Rightarrow> string \<Rightarrow> string set \<Rightarrow> route \<Rightarrow> bool" where
  "route_ok is_dir dir hosts r \<longleftrightarrow>
     has_prefix (rt_path r) ''/'' \<and>
     (if is_run r then rt_target r = [] \<and> 0 \<le> rt_port r \<and> rt_port r \<le> 65535 \<and>
        (rt_name r = [] \<or> (dns_label (rt_name r) \<and> rt_name r \<notin> hosts)) \<and>
        (rt_cwd r = [] \<or> is_dir (full_cwd dir (rt_cwd r)))
      else rt_name r = [] \<and> rt_target r \<noteq> [])"

definition norm_route :: "string \<Rightarrow> route \<Rightarrow> route" where
  "norm_route dir r = (if is_run r then r\<lparr>rt_cwd := full_cwd dir (rt_cwd r)\<rparr> else r)"

definition envs_ok :: "(string \<Rightarrow> bool) \<Rightarrow> string \<Rightarrow> environment list \<Rightarrow> bool" where
  "envs_ok is_dir dir es \<longleftrightarrow>
     es \<noteq> [] \<and> distinct (map me_host es) \<and>
     (\<forall>e\<in>set es. valid_host (me_host e) \<and> me_routes e \<noteq> [] \<and> distinct (map rt_path (me_routes e)) \<and>
        (\<forall>r\<in>set (me_routes e). route_ok is_dir dir (me_host ` set es) r)) \<and>
     distinct (concat (map run_names (concat (map me_routes es))))"

lemma host_rx_dns: "rx_match host_rx s \<longleftrightarrow> dns_label s"
  by (simp add: host_rx_def label_rx_dns)

lemma valid_host_ne: "valid_host h \<Longrightarrow> h \<noteq> []"
  by (auto simp: valid_host_def trim_suffix_def has_suffix_def)

lemma check_hosts_Ok:
  "check_hosts i hosts es = Ok hs \<longleftrightarrow>
     (\<forall>e\<in>set es. valid_host (me_host e) \<and> me_host e \<notin> set hosts) \<and> distinct (map me_host es) \<and>
     hs = rev (map me_host es) @ hosts"
proof (induction es arbitrary: i hosts)
  case (Cons e es)
  have "check_hosts i hosts (e # es) = Ok hs \<longleftrightarrow> valid_host (me_host e) \<and> me_host e \<notin> set hosts \<and>
      check_hosts (Suc i) (me_host e # hosts) es = Ok hs"
    using valid_host_ne by auto
  then show ?case unfolding Cons.IH by (auto simp: image_iff)
qed auto

lemma check_route_name_eq:
  "check_route_name i j name hosts names =
     (if name = [] then Ok names
      else if dns_label name \<and> name \<notin> set hosts \<and> name \<notin> set names then Ok (name # names)
      else Err (if \<not> dns_label name then BadName i j else if name \<in> set hosts then NameIsHost i j else NameUsed i j))"
  by (simp add: check_route_name_def host_rx_dns)

lemma check_run_route:
  assumes "is_run r"
  shows "check_route is_dir dir hosts i j seen names r =
     (if \<not> has_prefix (rt_path r) ''/'' then Err (BadPath i j)
      else if rt_path r \<in> set seen then Err (DuplicatePath i j)
      else if rt_target r \<noteq> [] then Err (AddressAndCommand i j)
      else if rt_port r < 0 \<or> 65535 < rt_port r then Err (BadPort i j)
      else case check_route_name i j (rt_name r) hosts names of
          Inl e \<Rightarrow> Err e
        | Inr names' \<Rightarrow> if rt_cwd r = [] \<or> is_dir (full_cwd dir (rt_cwd r))
            then Ok (names', r\<lparr>rt_cwd := full_cwd dir (rt_cwd r)\<rparr>) else Err (NoSuchCwd i j))"
  using assms by (simp add: check_route_def is_run_def full_cwd_def Let_def split: sum.split)

lemma check_route_Ok:
  "check_route is_dir dir hosts i j seen names r = Ok (names', r') \<longleftrightarrow>
     route_ok is_dir dir (set hosts) r \<and> rt_path r \<notin> set seen \<and> set (run_names r) \<inter> set names = {} \<and>
     names' = run_names r @ names \<and> r' = norm_route dir r"
proof (cases "is_run r")
  case True
  then show ?thesis
    by (auto simp: check_run_route check_route_name_eq route_ok_def norm_route_def run_names_def)
next
  case False
  then show ?thesis
    by (auto simp: check_route_def route_ok_def norm_route_def run_names_def is_run_def)
qed

lemma check_routes_Ok:
  "check_routes is_dir dir hosts i j seen names rs = Ok (names', rs') \<longleftrightarrow>
     (\<forall>r\<in>set rs. route_ok is_dir dir (set hosts) r \<and> rt_path r \<notin> set seen) \<and> distinct (map rt_path rs) \<and>
     distinct (concat (map run_names rs)) \<and> set (concat (map run_names rs)) \<inter> set names = {} \<and>
     names' = rev (concat (map run_names rs)) @ names \<and> rs' = map (norm_route dir) rs"
proof (induction rs arbitrary: j seen names names' rs')
  case Nil
  then show ?case by auto
next
  case (Cons r rs)
  have one: "run_names r = [] \<or> (\<exists>n. run_names r = [n])" by (simp add: run_names_def)
  have "check_routes is_dir dir hosts i j seen names (r # rs) = Ok (names', rs') \<longleftrightarrow>
      (\<exists>rs2. route_ok is_dir dir (set hosts) r \<and> rt_path r \<notin> set seen \<and> set (run_names r) \<inter> set names = {} \<and>
         check_routes is_dir dir hosts i (Suc j) (rt_path r # seen) (run_names r @ names) rs = Ok (names', rs2) \<and>
         rs' = norm_route dir r # rs2)"
    by (auto simp: res_bind_eq_Ok check_route_Ok)
  also have "\<dots> \<longleftrightarrow>
     (\<forall>x\<in>set (r # rs). route_ok is_dir dir (set hosts) x \<and> rt_path x \<notin> set seen) \<and> distinct (map rt_path (r # rs)) \<and>
     distinct (concat (map run_names (r # rs))) \<and> set (concat (map run_names (r # rs))) \<inter> set names = {} \<and>
     names' = rev (concat (map run_names (r # rs))) @ names \<and> rs' = map (norm_route dir) (r # rs)"
    unfolding Cons.IH using one by (auto simp: image_iff)
  finally show ?case .
qed

lemma check_envs_Ok:
  "check_envs is_dir dir hosts i names es = Ok es' \<longleftrightarrow>
     (\<forall>e\<in>set es. me_routes e \<noteq> [] \<and> distinct (map rt_path (me_routes e)) \<and>
        (\<forall>r\<in>set (me_routes e). route_ok is_dir dir (set hosts) r)) \<and>
     distinct (concat (map run_names (concat (map me_routes es)))) \<and>
     set (concat (map run_names (concat (map me_routes es)))) \<inter> set names = {} \<and>
     es' = map (\<lambda>e. e\<lparr>me_routes := map (norm_route dir) (me_routes e)\<rparr>) es"
proof (induction es arbitrary: i names es')
  case Nil
  then show ?case by auto
next
  case (Cons e es)
  let ?ns = "concat (map run_names (me_routes e))"
  have "check_envs is_dir dir hosts i names (e # es) = Ok es' \<longleftrightarrow>
      me_routes e \<noteq> [] \<and> (\<exists>es2. (\<forall>r\<in>set (me_routes e). route_ok is_dir dir (set hosts) r) \<and>
        distinct (map rt_path (me_routes e)) \<and> distinct ?ns \<and> set ?ns \<inter> set names = {} \<and>
        check_envs is_dir dir hosts (Suc i) (rev ?ns @ names) es = Ok es2 \<and>
        es' = e\<lparr>me_routes := map (norm_route dir) (me_routes e)\<rparr> # es2)"
    by (auto simp: res_bind_eq_Ok check_routes_Ok simp del: set_concat)
  then show ?case unfolding Cons.IH by (auto simp del: set_concat)
qed

text \<open>
  C24: \<open>Validate\<close> accepts exactly the manifests of this shape: at least one environment; hosts
  valid DNS names and pairwise different; every environment with routes of different paths
  that start with a slash; every route either an address without a name or a command with a
  port from 0 to 65535, an existing working directory, and a name, if any, that is a DNS
  label, is no host and is used once in the whole manifest. It changes nothing but the
  working directories, which it makes relative to the directory of the file.
\<close>

theorem validate_environments_exact:
  "(validate_environments is_dir mf = Ok mf') = (envs_ok is_dir (mf_dir mf) (mf_envs mf) \<and>
     mf' = mf\<lparr>mf_envs := map (\<lambda>e. e\<lparr>me_routes := map (norm_route (mf_dir mf)) (me_routes e)\<rparr>) (mf_envs mf)\<rparr>)"
  by (auto simp: validate_environments_def envs_ok_def res_bind_eq_Ok check_hosts_Ok check_envs_Ok simp del: set_concat)

section \<open>Templates\<close>

lemma match_template_ref:
  assumes "name \<noteq> []" "\<forall>c\<in>set name. is_dotted_char c" "kw \<noteq> []" "\<not> is_rx_space (hd kw)"
  shows "match_template kw (''{{'' @ kw @ name @ ''}}'' @ rest) = Some (name, rest)"
proof -
  have nb: "\<not> is_dotted_char CHR ''}''" "\<not> is_rx_space CHR ''}''"
    by (simp_all add: is_dotted_char_def is_alnum_def is_lower_def is_digit_def is_rx_space_def)
  have k: "dropWhile is_rx_space (kw @ t) = kw @ t" for t using assms(3,4) by (cases kw) auto
  have c: "cut_prefix (''{{'' @ t) ''{{'' = Some t" "cut_prefix (''}}'' @ t) ''}}'' = Some t" for t
    by (rule cut_prefix_append)+
  have "takeWhile is_dotted_char (name @ ''}}'' @ rest) = name" "dropWhile is_dotted_char (name @ ''}}'' @ rest) = ''}}'' @ rest"
    using assms(2) nb by (simp_all add: takeWhile_append2 dropWhile_append2)
  moreover have "dropWhile is_rx_space (''}}'' @ rest) = ''}}'' @ rest" using nb by simp
  ultimately show ?thesis
    unfolding match_template_def c option.case k cut_prefix_append Let_def using assms(1) c(2) by simp
qed

lemma match_template_other: "c \<noteq> CHR ''{'' \<Longrightarrow> match_template kw (c # s) = None"
  by (simp add: match_template_def cut_prefix_def)

lemma match_template_Nil: "match_template kw [] = None"
  by (simp add: match_template_def cut_prefix_def)

lemma subst_literal:
  "CHR ''{'' \<notin> set l \<Longrightarrow> subst_templates kw f (l @ s) = res_bind (subst_templates kw f s) (\<lambda>t. Ok (l @ t))"
proof (induction l)
  case Nil
  then show ?case by (cases "subst_templates kw f s") simp_all
next
  case (Cons c l)
  then have "c \<noteq> CHR ''{''" by auto
  then have "subst_templates kw f ((c # l) @ s) = res_bind (subst_templates kw f (l @ s)) (\<lambda>u. Ok (c # u))"
    by (subst subst_templates.simps) (simp add: match_template_other)
  with Cons show ?case by (cases "subst_templates kw f s") simp_all
qed

text \<open>A text with references: literal pieces and names of services or hosts.\<close>

datatype piece = Lit string | Ref string

definition piece_text :: "string \<Rightarrow> piece \<Rightarrow> string" where
  "piece_text kw p = (case p of Lit s \<Rightarrow> s | Ref n \<Rightarrow> ''{{'' @ kw @ n @ ''}}'')"

definition piece_ok :: "piece \<Rightarrow> bool" where
  "piece_ok p = (case p of Lit s \<Rightarrow> CHR ''{'' \<notin> set s | Ref n \<Rightarrow> n \<noteq> [] \<and> (\<forall>c\<in>set n. is_dotted_char c))"

lemma subst_pieces:
  assumes "\<forall>p\<in>set ps. piece_ok p" "kw \<noteq> []" "\<not> is_rx_space (hd kw)"
  shows "subst_templates kw f (concat (map (piece_text kw) ps)) =
    map_sum id concat (res_map (\<lambda>p. case p of Lit s \<Rightarrow> Ok s | Ref n \<Rightarrow> f n) ps)"
  using assms(1)
proof (induction ps)
  case Nil
  then show ?case by (simp add: subst_templates.simps [of _ _ "[]"] match_template_Nil)
next
  case (Cons p ps)
  let ?s = "concat (map (piece_text kw) ps)"
  let ?g = "\<lambda>p. case p of Lit s \<Rightarrow> Ok s | Ref n \<Rightarrow> f n"
  show ?case
  proof (cases p)
    case (Lit l)
    then have "CHR ''{'' \<notin> set l" using Cons.prems by (simp add: piece_ok_def)
    then have "subst_templates kw f (piece_text kw p @ ?s) = res_bind (subst_templates kw f ?s) (\<lambda>t. Ok (l @ t))"
      using subst_literal Lit by (simp add: piece_text_def)
    with Cons Lit show ?thesis by (cases "res_map ?g ps") simp_all
  next
    case (Ref n)
    then have n: "n \<noteq> []" "\<forall>c\<in>set n. is_dotted_char c" using Cons.prems by (simp_all add: piece_ok_def)
    have "subst_templates kw f (piece_text kw p @ ?s) = res_bind (f n) (\<lambda>v. res_bind (subst_templates kw f ?s) (\<lambda>t. Ok (v @ t)))"
      using match_template_ref [OF n assms(2,3), of ?s] Ref by (subst subst_templates.simps) (simp add: piece_text_def)
    with Cons Ref show ?thesis by (cases "f n"; cases "res_map ?g ps") simp_all
  qed
qed


definition shop_manifest :: manifest where
  "shop_manifest = \<lparr>mf_relay = \<lparr>rs_tld = ''dev'', rs_api_key = [], rs_local = True\<rparr>,
     mf_envs = [\<lparr>me_host = ''app'', me_protect = [], me_routes =
        [empty_route\<lparr>rt_path := ''/'', rt_command := ''npm start'', rt_port := 4000\<rparr>,
         empty_route\<lparr>rt_path := ''/api'', rt_name := ''api'', rt_command := ''go run'', rt_port := 0\<rparr>]\<rparr>],
     mf_dir = ''/p'', mf_host_map = [(''app'', ''app'')], mf_assigned = []\<rparr>"


end
