(* ===== verification/PreviewProps.thy ===== *)
theory PreviewProps
  imports Preview RelayServer ManifestProps
begin

text \<open>
  Slugs and preview hosts are names the relays and the manifest accept, or where they are not;
  and the port assignment gives every spawned route a port of its own.
\<close>

section \<open>Slugs\<close>

lemma slug_chars_label: "\<forall>c\<in>set (slug_chars d st s). is_label_char c"
  by (induction d st s rule: slug_chars.induct) (auto simp: is_label_char_def)

lemma dns_label_intro:
  "s \<noteq> [] \<Longrightarrow> hd s \<noteq> CHR ''-'' \<Longrightarrow> last s \<noteq> CHR ''-'' \<Longrightarrow> \<forall>c\<in>set s. is_label_char c \<Longrightarrow> dns_label s"
  by (metis dns_label_def hd_in_set is_label_char_def last_in_set)

lemma short_hash_alnum: "c \<in> set (short_hash s) \<Longrightarrow> is_alnum c"
  using hex_encode_chars [of "sha256 s"]
  by (auto simp: short_hash_def list_all_iff is_hex_digit_def is_alnum_def is_digit_def is_lower_def dest!: in_set_takeD)

lemma short_hash_length [simp]: "length (short_hash s) = 6"
  by (simp add: short_hash_def)

lemma dns_label_join:
  assumes "dns_label a" "dns_label b"
  shows "dns_label (a @ ''-'' @ b)"
  using assms by (auto simp: dns_label_def is_label_char_def hd_append last_append)

lemma dns_label_hash: "dns_label (short_hash s)"
proof -
  have ne: "short_hash s \<noteq> []" by (metis short_hash_length length_0_conv zero_neq_numeral)
  then have "is_alnum (hd (short_hash s))" "is_alnum (last (short_hash s))"
    using short_hash_alnum [of _ s] by simp_all
  then show ?thesis using ne short_hash_alnum [of _ s] by (auto simp: dns_label_def)
qed

lemma slug_core_dns:
  assumes "trim_both (\<lambda>c. c = CHR ''-'') (slug_chars False False t) \<noteq> []"
  shows "dns_label (trim_both (\<lambda>c. c = CHR ''-'') (slug_chars False False t))"
  using trim_both_edges [OF assms] assms slug_chars_label [of False False t]
    set_trim_both [of "\<lambda>c. c = CHR ''-''" "slug_chars False False t"]
  by (intro dns_label_intro) auto

lemma slugify_cases:
  "(dns_label (slugify s) \<and> length (slugify s) \<le> 40) \<or>
   (\<exists>out. dns_label out \<and> 40 < length out \<and> slugify s = take 40 out @ ''-'' @ short_hash s)"
proof -
  define out where "out = (let out0 = trim_both (\<lambda>c. c = CHR ''-'') (slug_chars False False (to_lower s))
    in if out0 = [] then ''preview'' else out0)"
  have p: "dns_label ''preview''" by (simp add: dns_label_def is_label_char_def is_alnum_def is_lower_def)
  have "dns_label out" using slug_core_dns p by (simp add: out_def Let_def)
  moreover have "slugify s = (if 40 < length out then take 40 out @ ''-'' @ short_hash s else out)"
    by (simp add: slugify_def out_def Let_def)
  ultimately show ?thesis by auto
qed

lemma slugify_dns: "dns_label (slugify s)"
proof -
  have "dns_label (take 40 out @ ''-'' @ short_hash s)" if "dns_label out" "40 < length out" for out
  proof -
    have "hd (take 40 out) = hd out" "take 40 out \<noteq> []" using that by (cases out; simp)+
    moreover have "\<forall>c\<in>set (take 40 out). is_label_char c" using that by (auto simp: dns_label_def dest: in_set_takeD)
    ultimately show ?thesis
      using that dns_label_hash [of s] by (auto simp: dns_label_def is_label_char_def hd_append last_append)
  qed
  then show ?thesis using slugify_cases [of s] by auto
qed

text \<open>
  C29: \<open>Slugify\<close> makes a DNS label of at most 47 characters of any string; longer than 40, it is the
  first 40 characters, a dash and six digits of the hash of the whole string.
\<close>

theorem slugify_label:
  "dns_label (slugify s) \<and> length (slugify s) \<le> 47 \<and>
   (length (slugify s) \<le> 40 \<or> (length (slugify s) = 47 \<and> drop 41 (slugify s) = short_hash s))"
  using slugify_dns [of s] slugify_cases [of s] by auto

section \<open>Preview hosts\<close>

definition proper_host :: "string \<Rightarrow> bool" where
  "proper_host h \<longleftrightarrow> valid_host h \<and> \<not> has_suffix h ''.''"

lemma proper_host_labels:
  "proper_host h \<longleftrightarrow> \<not> has_suffix h ''.'' \<and> \<not> is_ipv4 h \<and> (\<forall>l\<in>set (str_split CHR ''.'' h). dns_label l)"
proof -
  have "\<not> dns_label []" by (simp add: dns_label_def)
  then show ?thesis by (auto simp: proper_host_def valid_host_def trim_suffix_def host_rx_dns list_all_iff)
qed

lemma trim_dash: "dns_label l \<Longrightarrow> trim_suffix l ''-'' = l"
proof -
  assume "dns_label l"
  then have "\<not> has_suffix l ''-''" by (auto simp: dns_label_def has_suffix_iff is_alnum_def is_lower_def is_digit_def)
  then show ?thesis by (simp add: trim_suffix_def)
qed

text \<open>A host as its first label and the rest.\<close>

lemma preview_host_split:
  assumes "\<forall>l\<in>set (str_split CHR ''.'' h). dns_label l"
  shows "str_split CHR ''.'' (preview_host h slug ModeSubdomain) =
    (case str_split CHR ''.'' h of l # ls \<Rightarrow> (str_split CHR ''.'' (l @ ''-'' @ slug)) @ ls)"
proof (cases "cut_at h ''.''")
  case None
  then have "CHR ''.'' \<notin> set h" by (simp add: cut_at_char_None)
  then have "str_split CHR ''.'' h = [h]" by (rule str_split_word)
  moreover from this have "trim_suffix h ''-'' = h" using assms trim_dash by simp
  ultimately show ?thesis using None by (simp add: preview_host_def)
next
  case (Some lr)
  obtain l rest where lr: "lr = (l, rest)" by (cases lr)
  then have h: "h = l @ CHR ''.'' # rest" and l: "CHR ''.'' \<notin> set l" using Some by (simp_all add: cut_at_char_Some)
  then have sp: "str_split CHR ''.'' h = l # str_split CHR ''.'' rest" by (simp add: str_split_append_sep str_split_word)
  then have "trim_suffix l ''-'' = l" using assms trim_dash by simp
  then have "preview_host h slug ModeSubdomain = (l @ ''-'' @ slug) @ CHR ''.'' # rest"
    using Some lr by (simp add: preview_host_def)
  then show ?thesis using sp str_split_append_sep [of "CHR ''.''" "l @ ''-'' @ slug" rest] by simp
qed

lemma has_suffix_dot: "has_suffix h ''.'' \<longleftrightarrow> last (str_split CHR ''.'' h) = [] \<and> h \<noteq> []"
proof
  assume "has_suffix h ''.''"
  then obtain t where "h = t @ CHR ''.'' # []" by (auto simp: has_suffix_iff)
  then show "last (str_split CHR ''.'' h) = [] \<and> h \<noteq> []" by (simp add: str_split_append_sep)
next
  assume a: "last (str_split CHR ''.'' h) = [] \<and> h \<noteq> []"
  then obtain ws where ws: "str_split CHR ''.'' h = ws @ [[]]" by (metis append_butlast_last_id str_split_ne)
  have "ws \<noteq> []"
  proof
    assume "ws = []"
    then have "str_join ''.'' (str_split CHR ''.'' h) = []" by (simp add: ws)
    then show False using a by simp
  qed
  then have "str_join ''.'' (ws @ [[]]) = str_join ''.'' ws @ ''.''" by (simp add: str_join_append)
  then have "h = str_join ''.'' ws @ ''.''" using ws by (metis str_join_split)
  then show "has_suffix h ''.''" by (metis has_suffix_append)
qed

text \<open>
  For the local relay, the preview of a valid host is again a valid host, under the same
  parent domain, and under one slug different hosts get different previews.
\<close>

theorem preview_host_valid:
  assumes "proper_host h" "dns_label slug"
  shows "proper_host (preview_host h slug ModeSubdomain) \<and>
    tl (str_split CHR ''.'' (preview_host h slug ModeSubdomain)) = tl (str_split CHR ''.'' h) \<and>
    (\<forall>h'. proper_host h' \<longrightarrow> preview_host h' slug ModeSubdomain = preview_host h slug ModeSubdomain \<longrightarrow> h' = h)"
proof -
  have split: "str_split CHR ''.'' (preview_host x slug ModeSubdomain) =
      (hd (str_split CHR ''.'' x) @ ''-'' @ slug) # tl (str_split CHR ''.'' x)" if "proper_host x" for x
  proof -
    have x: "\<forall>l\<in>set (str_split CHR ''.'' x). dns_label l" using that by (simp add: proper_host_labels)
    obtain l ls where ls: "str_split CHR ''.'' x = l # ls" by (metis str_split_ne list.exhaust)
    then have "dns_label (l @ ''-'' @ slug)" using x assms(2) dns_label_join by simp
    then have "str_split CHR ''.'' (l @ ''-'' @ slug) = [l @ ''-'' @ slug]" by (intro str_split_word dns_label_no_dot)
    then show ?thesis using preview_host_split [OF x, of slug] ls by simp
  qed
  let ?p = "preview_host h slug ModeSubdomain"
  have labels: "\<forall>l\<in>set (str_split CHR ''.'' h). dns_label l" using assms(1) by (simp add: proper_host_labels)
  obtain l ls where ls: "str_split CHR ''.'' h = l # ls" by (metis str_split_ne list.exhaust)
  have lp: "\<forall>x\<in>set (str_split CHR ''.'' ?p). dns_label x"
    using split [OF assms(1)] labels ls assms(2) dns_label_join by auto
  have "\<not> ipv4_field (l @ ''-'' @ slug)" by (simp add: ipv4_field_def is_digit_def)
  then have "\<not> is_ipv4 ?p" using split [OF assms(1)] ls by (simp add: is_ipv4_def)
  moreover have "\<not> has_suffix ?p ''.''" using lp by (auto simp: has_suffix_dot dns_label_def)
  ultimately have "proper_host ?p" using lp by (simp add: proper_host_labels)
  moreover have "h' = h" if "proper_host h'" "preview_host h' slug ModeSubdomain = ?p" for h'
  proof -
    have "hd (str_split CHR ''.'' h') = hd (str_split CHR ''.'' h)" "tl (str_split CHR ''.'' h') = tl (str_split CHR ''.'' h)"
      using split [OF that(1)] split [OF assms(1)] that(2) by simp_all
    then have "str_split CHR ''.'' h' = str_split CHR ''.'' h" by (metis list.collapse str_split_ne)
    then show ?thesis by (rule str_split_inj)
  qed
  ultimately show ?thesis using split [OF assms(1)] by auto
qed

theorem preview_host_valid_witness:
  "preview_host ''app.acme'' ''fix-1'' ModeSubdomain = ''app-fix-1.acme'' \<and> proper_host ''app-fix-1.acme''"
proof -
  have p: "proper_host ''app.acme''" "dns_label ''fix-1''" by code_simp+
  have e: "preview_host ''app.acme'' ''fix-1'' ModeSubdomain = ''app-fix-1.acme''" by code_simp
  show ?thesis using preview_host_valid [OF p] e by simp
qed

text \<open>
  For hosted relays, which take one label of at most 40 characters, the flattened preview of
  a valid host is accepted exactly when slug and host have at most 39 characters together; so
  a branch name that \<open>Slugify\<close> had to truncate never gets a hosted preview.
\<close>

theorem flattened_preview_accepted:
  assumes "proper_host h"
  shows "validate_service (preview_host h (slugify s) ModeFlatten) \<longleftrightarrow> length (slugify s) + length h \<le> 39"
proof -
  let ?r = "map (\<lambda>c. if c = CHR ''.'' then CHR ''-'' else c) h"
  have p: "preview_host h (slugify s) ModeFlatten = slugify s @ ''-'' @ ?r"
    by (simp add: preview_host_def replace_all_char)
  have labels: "\<forall>l\<in>set (str_split CHR ''.'' h). dns_label l" and nd: "\<not> has_suffix h ''.''"
    using assms by (simp_all add: proper_host_labels)
  have hj: "h = str_join ''.'' (str_split CHR ''.'' h)" by simp
  have ne: "h \<noteq> []" using labels by (auto simp: dns_label_def)
  have chars: "\<forall>c\<in>set (str_join ''.'' ws). is_label_char c \<or> c = CHR ''.''" if "\<forall>l\<in>set ws. dns_label l" for ws
    using that by (induction "''.''" ws rule: str_join.induct) (auto simp: dns_label_def)
  have "\<forall>c\<in>set ?r. is_label_char c"
    using chars [OF labels] by (auto simp: is_label_char_def)
  moreover have "is_alnum (last h)"
  proof -
    have "is_alnum (last (str_join ''.'' ws))" if "\<forall>l\<in>set ws. dns_label l" "ws \<noteq> []" for ws
      using that
    proof (induction "''.''" ws rule: str_join.induct)
      case (3 w v ws)
      then have "str_join ''.'' (v # ws) \<noteq> []" by (cases ws) (auto simp: dns_label_def)
      with 3 show ?case by (simp add: last_append)
    qed (simp_all add: dns_label_def)
    from this [OF labels] show ?thesis using hj by simp
  qed
  then have "last ?r = last h" "is_alnum (last ?r)" using ne by (auto simp: last_map is_alnum_def is_lower_def is_digit_def)
  ultimately have "dns_label (slugify s @ ''-'' @ ?r)"
    using slugify_dns [of s] ne by (auto simp: dns_label_def hd_append last_append is_label_char_def)
  then show ?thesis
    unfolding p validate_service_def service_rx_def label_rx_dns by auto
qed

theorem flattened_preview_accepted_witness:
  "validate_service (preview_host ''app.acme'' (slugify ''Fix 1'') ModeFlatten)"
proof -
  have p: "proper_host ''app.acme''" by code_simp
  have "length (slugify ''Fix 1'') \<le> 6" by code_simp
  then show ?thesis using flattened_preview_accepted [OF p] by simp
qed

end
