(* ===== verification/PortProps.thy ===== *)
theory PortProps
  imports PreviewProps
begin

text \<open>\<open>AssignPorts\<close>: what it guarantees of the ports, and that it ends.\<close>

section \<open>The assigned ports\<close>

definition needs_port :: "bool \<Rightarrow> route \<Rightarrow> bool" where
  "needs_port isPreview r \<longleftrightarrow> is_run r \<and> (isPreview \<or> rt_port r \<le> 0)"

text \<open>The ports the second list of routes has where the first one needed one.\<close>

fun assigned :: "bool \<Rightarrow> route list \<Rightarrow> route list \<Rightarrow> int list" where
  "assigned p (r # rs) (s # ss) = (if needs_port p r then rt_port s # assigned p rs ss else assigned p rs ss)"
| "assigned p _ _ = []"

fun only_ports :: "bool \<Rightarrow> route list \<Rightarrow> route list \<Rightarrow> bool" where
  "only_ports p [] [] = True"
| "only_ports p (r # rs) (s # ss) = ((if needs_port p r then s = r\<lparr>rt_port := rt_port s\<rparr> else s = r) \<and> only_ports p rs ss)"
| "only_ports p _ _ = False"

lemma only_ports_length: "only_ports p rs ss \<Longrightarrow> length rs = length ss"
  by (induction p rs ss rule: only_ports.induct) auto

lemma assigned_append: "length rs = length ss \<Longrightarrow> assigned p (rs @ rs') (ss @ ss') = assigned p rs ss @ assigned p rs' ss'"
  by (induction p rs ss rule: assigned.induct) auto

lemma only_ports_append: "only_ports p rs ss \<Longrightarrow> only_ports p rs' ss' \<Longrightarrow> only_ports p (rs @ rs') (ss @ ss')"
  by (induction p rs ss rule: only_ports.induct) auto

lemma distinct_port_Ok:
  "distinct_port used outs = Some (Ok port, outs') \<Longrightarrow> 0 < port \<and> port \<le> 65535 \<and> port \<notin> set used"
  by (induction used outs rule: distinct_port.induct) (auto split: if_splits)

lemma assign_route_Ok:
  assumes "assign_route p ps outs r = Some (Ok (ps', r'), outs')"
  shows "if needs_port p r then r' = r\<lparr>rt_port := rt_port r'\<rparr> \<and> 0 < rt_port r' \<and> rt_port r' \<le> 65535 \<and>
        rt_port r' \<notin> set (ps_used ps) \<and> ps_used ps' = rt_port r' # ps_used ps
      else r' = r \<and> ps' = ps"
  using assms distinct_port_Ok [of "ps_used ps" outs]
  by (auto simp: assign_route_def needs_port_def Let_def not_less split: if_splits option.splits sum.splits prod.splits)

lemma assign_routes_Ok:
  "assign_routes p ps outs rs = Some (Ok (ps', rs'), outs') \<Longrightarrow>
     only_ports p rs rs' \<and> ps_used ps' = rev (assigned p rs rs') @ ps_used ps \<and>
     (distinct (ps_used ps) \<longrightarrow> distinct (ps_used ps')) \<and> (\<forall>x\<in>set (assigned p rs rs'). 0 < x \<and> x \<le> 65535) \<and>
     set (assigned p rs rs') \<inter> set (ps_used ps) = {}"
proof (induction rs arbitrary: ps outs ps' rs' outs')
  case Nil
  then show ?case by auto
next
  case (Cons r rs)
  then obtain ps1 r1 outs1 rs1 where a: "assign_route p ps outs r = Some (Ok (ps1, r1), outs1)"
    and b: "assign_routes p ps1 outs1 rs = Some (Ok (ps', rs1), outs')" and rs': "rs' = r1 # rs1"
    by (auto split: option.splits sum.splits prod.splits)
  show ?case
    using assign_route_Ok [OF a] Cons.IH [OF b] by (cases "needs_port p r") (auto simp: rs')
qed

lemma assign_envs_Ok:
  "assign_envs p ps outs es = Some (Ok (ps', es'), outs') \<Longrightarrow>
     (let rs = concat (map me_routes es); rs' = concat (map me_routes es') in
     map me_host es' = map me_host es \<and> only_ports p rs rs' \<and> ps_used ps' = rev (assigned p rs rs') @ ps_used ps \<and>
     (distinct (ps_used ps) \<longrightarrow> distinct (ps_used ps')) \<and> (\<forall>x\<in>set (assigned p rs rs'). 0 < x \<and> x \<le> 65535) \<and>
     set (assigned p rs rs') \<inter> set (ps_used ps) = {})"
proof (induction es arbitrary: ps outs ps' es' outs')
  case Nil
  then show ?case by auto
next
  case (Cons e es)
  then obtain ps1 rs1 outs1 es1 where a: "assign_routes p ps outs (me_routes e) = Some (Ok (ps1, rs1), outs1)"
    and b: "assign_envs p ps1 outs1 es = Some (Ok (ps', es1), outs')" and es': "es' = e\<lparr>me_routes := rs1\<rparr> # es1"
    by (auto split: option.splits sum.splits prod.splits)
  note A = assign_routes_Ok [OF a] and B = Cons.IH [OF b, unfolded Let_def]
  have len: "length (me_routes e) = length rs1" using A only_ports_length by blast
  show ?case
    using A B by (auto simp: es' Let_def assigned_append [OF len] only_ports_append simp del: set_concat)
qed

lemma distinct_assigned:
  "distinct (rev a @ used) \<Longrightarrow> distinct a" by simp


definition two_services :: manifest where
  "two_services = shop_manifest\<lparr>mf_envs := [\<lparr>me_host = ''app'', me_protect = [], me_routes =
        [empty_route\<lparr>rt_path := ''/'', rt_command := ''npm start'', rt_port := 4000\<rparr>,
         empty_route\<lparr>rt_path := ''/api'', rt_name := ''api'', rt_command := ''go run''\<rparr>]\<rparr>]\<rparr>"

lemma two_services_assigned:
  "assign_ports False [Some 4000, Some 5000] two_services = Some (Ok (two_services\<lparr>mf_envs := [\<lparr>me_host = ''app'', me_protect = [], me_routes =
        [empty_route\<lparr>rt_path := ''/'', rt_command := ''npm start'', rt_port := 4000\<rparr>,
         empty_route\<lparr>rt_path := ''/api'', rt_name := ''api'', rt_command := ''go run'', rt_port := 5000\<rparr>]\<rparr>]\<rparr>))"
  by (simp add: assign_ports_def two_services_def declared_ports_def is_run_def empty_route_def assign_route_def Let_def)


section \<open>The loop ends\<close>

text \<open>What is left of a list of outcomes after some were asked for.\<close>

lemma distinct_port_fresh:
  "distinct ports \<Longrightarrow> \<forall>x\<in>set ports. 0 < x \<and> x \<le> 65535 \<Longrightarrow> length (filter (\<lambda>x. x \<notin> set used) ports) = Suc n \<Longrightarrow>
     \<exists>port rest. distinct_port used (map Some ports) = Some (Ok port, map Some rest) \<and> set rest \<subseteq> set ports \<and>
       distinct rest \<and> length (filter (\<lambda>x. x \<notin> set (port # used)) rest) = n"
proof (induction ports)
  case Nil
  then show ?case by simp
next
  case (Cons x ports)
  show ?case
  proof (cases "x \<in> set used")
    case True
    with Cons obtain port rest where "distinct_port used (map Some ports) = Some (Ok port, map Some rest)"
      "set rest \<subseteq> set ports" "distinct rest" "length (filter (\<lambda>x. x \<notin> set (port # used)) rest) = n" by auto
    with True Cons.prems(2) show ?thesis by auto
  next
    case False
    have "filter (\<lambda>y. y \<notin> set (x # used)) ports = filter (\<lambda>y. y \<notin> set used) ports"
      using Cons.prems(1) by (intro filter_cong) auto
    with False Cons.prems show ?thesis by (intro exI [of _ x] exI [of _ ports]) auto
  qed
qed

lemma assign_routes_fresh:
  "distinct ports \<Longrightarrow> \<forall>x\<in>set ports. 0 < x \<and> x \<le> 65535 \<Longrightarrow>
     length (filter (needs_port p) rs) \<le> length (filter (\<lambda>x. x \<notin> set (ps_used ps)) ports) \<Longrightarrow>
     \<exists>ps' rs' rest. assign_routes p ps (map Some ports) rs = Some (Ok (ps', rs'), map Some rest) \<and> set rest \<subseteq> set ports \<and>
       distinct rest \<and> length (filter (\<lambda>x. x \<notin> set (ps_used ps)) ports) - length (filter (needs_port p) rs) =
         length (filter (\<lambda>x. x \<notin> set (ps_used ps')) rest)"
proof (induction rs arbitrary: ps ports)
  case Nil
  then show ?case by auto
next
  case (Cons r rs)
  show ?case
  proof (cases "needs_port p r")
    case False
    then have "assign_route p ps (map Some ports) r = Some (Ok (ps, r), map Some ports)"
      by (auto simp: assign_route_def needs_port_def not_less)
    with Cons.IH [of ports ps] Cons.prems False show ?thesis by fastforce
  next
    case True
    then obtain n where n: "length (filter (\<lambda>x. x \<notin> set (ps_used ps)) ports) = Suc n" "length (filter (needs_port p) rs) \<le> n"
      using Cons.prems(3) by (cases "length (filter (\<lambda>x. x \<notin> set (ps_used ps)) ports)") auto
    from distinct_port_fresh [OF Cons.prems(1,2) n(1)] obtain port rest where
      d: "distinct_port (ps_used ps) (map Some ports) = Some (Ok port, map Some rest)" "set rest \<subseteq> set ports" "distinct rest"
        "length (filter (\<lambda>x. x \<notin> set (port # ps_used ps)) rest) = n" by blast
    then obtain ps1 where a: "assign_route p ps (map Some ports) r = Some (Ok (ps1, r\<lparr>rt_port := port\<rparr>), map Some rest)"
      and u: "ps_used ps1 = port # ps_used ps"
      using True by (auto simp: assign_route_def needs_port_def Let_def split: option.split)
    have v: "\<forall>x\<in>set rest. 0 < x \<and> x \<le> 65535" using d(2) Cons.prems(2) by blast
    have "length (filter (needs_port p) rs) \<le> length (filter (\<lambda>x. x \<notin> set (ps_used ps1)) rest)" using d(4) n(2) u by simp
    from Cons.IH [OF d(3) v this] obtain ps' rs' rest' where
      "assign_routes p ps1 (map Some rest) rs = Some (Ok (ps', rs'), map Some rest')" "set rest' \<subseteq> set rest" "distinct rest'"
      "length (filter (\<lambda>x. x \<notin> set (ps_used ps1)) rest) - length (filter (needs_port p) rs) = length (filter (\<lambda>x. x \<notin> set (ps_used ps')) rest')"
      by blast
    with a d(2,4) u n True show ?thesis by auto
  qed
qed

lemma assign_envs_fresh:
  "distinct ports \<Longrightarrow> \<forall>x\<in>set ports. 0 < x \<and> x \<le> 65535 \<Longrightarrow>
     length (filter (needs_port p) (concat (map me_routes es))) \<le> length (filter (\<lambda>x. x \<notin> set (ps_used ps)) ports) \<Longrightarrow>
     \<exists>ps' es' rest. assign_envs p ps (map Some ports) es = Some (Ok (ps', es'), map Some rest)"
proof (induction es arbitrary: ps ports)
  case Nil
  then show ?case by auto
next
  case (Cons e es)
  let ?n = "length (filter (needs_port p) (me_routes e))"
  have "?n \<le> length (filter (\<lambda>x. x \<notin> set (ps_used ps)) ports)" using Cons.prems(3) by simp
  from assign_routes_fresh [OF Cons.prems(1,2) this] obtain ps1 rs1 rest where
    r: "assign_routes p ps (map Some ports) (me_routes e) = Some (Ok (ps1, rs1), map Some rest)" "set rest \<subseteq> set ports"
      "distinct rest" "length (filter (\<lambda>x. x \<notin> set (ps_used ps)) ports) - ?n = length (filter (\<lambda>x. x \<notin> set (ps_used ps1)) rest)"
    by blast
  have v: "\<forall>x\<in>set rest. 0 < x \<and> x \<le> 65535" using r(2) Cons.prems(2) by blast
  have "length (filter (needs_port p) (concat (map me_routes es))) \<le> length (filter (\<lambda>x. x \<notin> set (ps_used ps1)) rest)"
    using Cons.prems(3) r(4) by simp
  from Cons.IH [OF r(3) v this] r(1) show ?case by fastforce
qed

text \<open>
  C27: outside previews the search for ports ends and succeeds whenever the system offers
  different valid ports, among the first of which are as many undeclared ones as there are
  routes without a port; ports already declared are only skipped.
\<close>

theorem assign_ports_returns:
  assumes "distinct ports" "\<forall>x\<in>set ports. 0 < x \<and> x \<le> 65535"
    and "length (filter (needs_port False) (concat (map me_routes (mf_envs mf)))) \<le>
      length (filter (\<lambda>x. x \<notin> set (declared_ports (mf_envs mf))) ports)"
  shows "\<exists>mf'. assign_ports False (map Some ports) mf = Some (Ok mf')"
proof -
  let ?ps = "\<lparr>ps_used = declared_ports (mf_envs mf), ps_old = [], ps_ambiguous = []\<rparr>"
  have "length (filter (needs_port False) (concat (map me_routes (mf_envs mf)))) \<le>
      length (filter (\<lambda>x. x \<notin> set (ps_used ?ps)) ports)" using assms(3) by simp
  from assign_envs_fresh [OF assms(1,2) this] show ?thesis by (auto simp: assign_ports_def Let_def)
qed

theorem assign_ports_returns_witness:
  "\<exists>mf'. assign_ports False (map Some [4000, 5000, 6000]) two_services = Some (Ok mf')"
  by (rule assign_ports_returns)
    (simp_all add: two_services_def declared_ports_def is_run_def empty_route_def needs_port_def)

end
