(* ===== verification/Projects.thy ===== *)
theory Projects
  imports Paths Manifest
begin

text \<open>
  \<open>cli/internal/projects/projects.go\<close>: the registry of the projects of this machine. The
  in-memory registry is a Go map; the file it is saved to holds the last registry that was
  written (\<open>None\<close>: no file yet). Whether a write succeeds, whether a directory exists and the
  time are arguments.
\<close>

section \<open>Data\<close>

record project =
  p_name :: string
  p_path :: string
  p_tld :: string
  p_local :: bool
  p_hosts :: "string list"
  p_preview :: bool
  p_branch :: string
  p_autostart :: bool
  p_added_at :: string

type_synonym project_registry = "(string, project) gomap"

definition load_projects :: "project_registry option \<Rightarrow> project_registry" where
  "load_projects disk = (case disk of None \<Rightarrow> [] | Some rg \<Rightarrow> rg)"

definition save_projects :: "bool \<Rightarrow> project_registry \<Rightarrow> project_registry option \<Rightarrow> project_registry option" where
  "save_projects written rg disk = (if written then Some rg else disk)"

definition same_dir :: "string \<Rightarrow> string \<Rightarrow> bool" where
  "same_dir a b = (path_clean a = path_clean b)"

definition get_project :: "project_registry \<Rightarrow> string \<Rightarrow> project option" where
  "get_project rg name = map_of rg name"

section \<open>Registering\<close>

text \<open>The name tried in round \<open>n\<close> of the loop of \<open>Register\<close>: \<open>base\<close>, \<open>base-2\<close>, \<open>base-3\<close>, ...\<close>

definition candidate :: "string \<Rightarrow> nat \<Rightarrow> string" where
  "candidate base n = (if n = 0 then base else base @ ''-'' @ itoa (int (n + 1)))"

lemma candidate_inj: "candidate base m = candidate base n \<Longrightarrow> m = n"
  by (auto simp: candidate_def itoa_def split: if_splits dest: itoa_nat_inj)

definition name_free :: "project_registry \<Rightarrow> string \<Rightarrow> string \<Rightarrow> bool" where
  "name_free rg dir name = (case map_of rg name of None \<Rightarrow> True | Some p \<Rightarrow> same_dir (p_path p) dir)"

lemma finite_taken: "finite {k \<in> dom (map_of rg). \<exists>j\<ge>n. k = candidate base j}"
  by (rule finite_subset [of _ "dom (map_of rg)"]) (auto simp: finite_dom_map_of)

function pick_name :: "project_registry \<Rightarrow> string \<Rightarrow> string \<Rightarrow> nat \<Rightarrow> string" where
  "pick_name rg dir base n =
     (if name_free rg dir (candidate base n) then candidate base n else pick_name rg dir base (n + 1))"
  by pat_completeness auto
termination
proof (relation "measure (\<lambda>(rg, dir, base, n). card {k \<in> dom (map_of rg). \<exists>j\<ge>n. k = candidate base j})")
  fix rg dir base n
  assume "\<not> name_free rg dir (candidate base n)"
  then have "candidate base n \<in> dom (map_of rg)" by (auto simp: name_free_def split: option.splits)
  then have "{k \<in> dom (map_of rg). \<exists>j\<ge>n + 1. k = candidate base j} \<subset> {k \<in> dom (map_of rg). \<exists>j\<ge>n. k = candidate base j}"
    (is "?A \<subset> ?B")
  proof (intro psubsetI)
    show "?A \<subseteq> ?B" by (force dest: Suc_leD)
    have "candidate base n \<notin> ?A" by (auto dest: candidate_inj)
    moreover have "candidate base n \<in> ?B" using \<open>candidate base n \<in> dom (map_of rg)\<close> by auto
    ultimately show "?A \<noteq> ?B" by metis
  qed
  then show "((rg, dir, base, n + 1), rg, dir, base, n) \<in>
      measure (\<lambda>(rg, dir, base, n). card {k \<in> dom (map_of rg). \<exists>j\<ge>n. k = candidate base j})"
    using psubset_card_mono [OF finite_taken] by simp
qed simp

declare pick_name.simps [simp del]

definition new_project :: "string \<Rightarrow> string \<Rightarrow> string \<Rightarrow> string \<Rightarrow> bool \<Rightarrow> string list \<Rightarrow> string \<Rightarrow> bool \<Rightarrow> project" where
  "new_project now name dir tld loc hosts branch preview =
     \<lparr>p_name = name, p_path = dir, p_tld = tld, p_local = loc, p_hosts = hosts, p_preview = preview,
      p_branch = branch, p_autostart = False, p_added_at = now\<rparr>"

text \<open>The outcome of a call: the registry in memory, the file, and the result.\<close>

definition register_project ::
  "bool \<Rightarrow> string \<Rightarrow> project_registry \<times> project_registry option \<Rightarrow> string \<Rightarrow> string \<Rightarrow> bool \<Rightarrow> string list \<Rightarrow> string \<Rightarrow> bool \<Rightarrow>
     (project_registry \<times> project_registry option) \<times> (unit, string) res" where
  "register_project written now st dirPath tld loc hosts branch preview =
     (let (rg, disk) = st;
          dir = path_clean dirPath;
          name = pick_name rg dir (path_base dir) 0;
          rg' = gput name (new_project now name dir tld loc hosts branch preview) rg
      in ((rg', save_projects written rg' disk), if written then Ok name else Err ()))"

definition forget_project ::
  "bool \<Rightarrow> project_registry \<times> project_registry option \<Rightarrow> string \<Rightarrow> (project_registry \<times> project_registry option) \<times> bool" where
  "forget_project written st name =
     (let (rg, disk) = st in
      case map_of rg name of
        None \<Rightarrow> (st, False)
      | Some _ \<Rightarrow> (let rg' = gdel name rg in ((rg', save_projects written rg' disk), True)))"

definition prune_projects ::
  "(string \<Rightarrow> bool) \<Rightarrow> bool \<Rightarrow> project_registry \<times> project_registry option \<Rightarrow>
     (project_registry \<times> project_registry option) \<times> string list" where
  "prune_projects is_dir written st =
     (let (rg, disk) = st;
          gone = map fst (filter (\<lambda>(_, p). \<not> is_dir (p_path p)) rg);
          rg' = filter (\<lambda>(_, p). is_dir (p_path p)) rg
      in ((rg', if gone \<noteq> [] then save_projects written rg' disk else disk), sort gone))"

section \<open>Queries\<close>

definition sorted_names :: "project_registry \<Rightarrow> string list" where
  "sorted_names rg = sort (map fst rg)"

definition fqdn :: "string \<Rightarrow> string \<Rightarrow> string" where
  "fqdn host tld = host @ ''.'' @ tld"

definition local_names :: "project \<Rightarrow> string list" where
  "local_names p = (if \<not> p_local p then [] else fqdn ''roxey'' (p_tld p) # map (\<lambda>h. fqdn h (p_tld p)) (p_hosts p))"

definition all_local_host_fqdns :: "project_registry \<Rightarrow> string list" where
  "all_local_host_fqdns rg =
     sort (map fst (foldl (\<lambda>m k. gput k True m) [] (concat (map (\<lambda>(_, p). local_names p) rg))))"

fun primary_loop :: "project_registry \<Rightarrow> string \<Rightarrow> string list \<Rightarrow> string" where
  "primary_loop rg first [] = (if first \<noteq> [] then first else default_local_tld)"
| "primary_loop rg first (n # ns) =
     (case map_of rg n of
        None \<Rightarrow> primary_loop rg first ns
      | Some p \<Rightarrow>
          if \<not> p_local p then primary_loop rg first ns
          else if p_tld p = default_local_tld then p_tld p
          else primary_loop rg (if first = [] then p_tld p else first) ns)"

definition primary_local_tld :: "project_registry \<Rightarrow> string" where
  "primary_local_tld rg = primary_loop rg [] (sorted_names rg)"

definition add_owner :: "(string, string list) gomap \<Rightarrow> string \<times> string \<Rightarrow> (string, string list) gomap" where
  "add_owner seen kn = (case kn of (k, n) \<Rightarrow>
     gput k ((case map_of seen k of None \<Rightarrow> [] | Some os \<Rightarrow> os) @ [n]) seen)"

definition host_claims :: "project_registry \<Rightarrow> (string \<times> string) list" where
  "host_claims rg = concat (map (\<lambda>(_, p). map (\<lambda>h. (fqdn h (p_tld p), p_name p)) (p_hosts p)) rg)"

definition find_host_collisions :: "project_registry \<Rightarrow> (string, string list) gomap" where
  "find_host_collisions rg = filter (\<lambda>(_, owners). length owners > 1) (foldl add_owner [] (host_claims rg))"

end
