(* ===== verification/ProjectsProps.thy ===== *)
theory ProjectsProps
  imports Projects
begin

text \<open>
  The registry of projects: what registering, forgetting and pruning do to the entries, and the
  queries whose answer must not depend on the iteration order of the map.
\<close>

section \<open>Names\<close>

lemma pick_name_spec:
  "\<exists>m\<ge>n. pick_name rg dir base n = candidate base m \<and> name_free rg dir (candidate base m) \<and>
     (\<forall>j. n \<le> j \<and> j < m \<longrightarrow> \<not> name_free rg dir (candidate base j))"
proof (induction rg dir base n rule: pick_name.induct)
  case (1 rg dir base n)
  show ?case
  proof (cases "name_free rg dir (candidate base n)")
    case True
    then show ?thesis by (intro exI [of _ n]) (auto simp: pick_name.simps)
  next
    case False
    then obtain m where m: "m \<ge> n + 1" "pick_name rg dir base (n + 1) = candidate base m"
      "name_free rg dir (candidate base m)" "\<forall>j. n + 1 \<le> j \<and> j < m \<longrightarrow> \<not> name_free rg dir (candidate base j)"
      using 1 by blast
    have "\<not> name_free rg dir (candidate base j)" if "n \<le> j" "j < m" for j
      using that False m(4) by (cases "j = n") auto
    then show ?thesis using m False by (intro exI [of _ m]) (auto simp: pick_name.simps [of rg dir base n])
  qed
qed

lemma pick_name_first:
  assumes "name_free rg dir (candidate base m)" "\<And>j. j < m \<Longrightarrow> \<not> name_free rg dir (candidate base j)"
  shows "pick_name rg dir base 0 = candidate base m"
proof -
  obtain k where k: "pick_name rg dir base 0 = candidate base k" "name_free rg dir (candidate base k)"
    "\<forall>j. 0 \<le> j \<and> j < k \<longrightarrow> \<not> name_free rg dir (candidate base j)"
    using pick_name_spec [of 0 rg dir base] by blast
  then have "k = m" using assms by (metis le0 linorder_neqE_nat)
  then show ?thesis using k(1) by simp
qed

lemma pick_name_free: "name_free rg dir (pick_name rg dir base n)"
  using pick_name_spec [of n rg dir base] by auto

lemma name_free_same_dir: "path_clean d = path_clean e \<Longrightarrow> name_free rg d k = name_free rg e k"
  by (simp add: name_free_def same_dir_def split: option.splits)

section \<open>Well-formedness\<close>

text \<open>Every entry is filed under its own name, with a cleaned path.\<close>

definition wf_projects :: "project_registry \<Rightarrow> bool" where
  "wf_projects rg \<longleftrightarrow> wf_gomap rg \<and> (\<forall>k p. map_of rg k = Some p \<longrightarrow> p_name p = k \<and> path_clean (p_path p) = p_path p)"

lemma wf_projects_put:
  "wf_projects rg \<Longrightarrow> path_clean d = d \<Longrightarrow> wf_projects (gput k (new_project now k d tld loc hosts branch pre) rg)"
  by (auto simp: wf_projects_def new_project_def)

lemma wf_projects_del: "wf_projects rg \<Longrightarrow> wf_projects (gdel k rg)"
  by (auto simp: wf_projects_def)

lemma wf_projects_filter: "wf_projects rg \<Longrightarrow> wf_projects (filter P rg)"
proof -
  assume wf: "wf_projects rg"
  have "map_of rg k = Some p" if "map_of (filter P rg) k = Some p" for k p
    using that wf gomap_mem [of rg k p] map_of_SomeD [of "filter P rg" k p] by (auto simp: wf_projects_def)
  then show ?thesis using wf by (auto simp: wf_projects_def)
qed

inductive project_step :: "project_registry \<times> project_registry option \<Rightarrow> project_registry \<times> project_registry option \<Rightarrow> bool" where
  "project_step st (fst (register_project w now st dir tld loc hosts branch pre))"
| "project_step st (fst (forget_project w st name))"
| "project_step st (fst (prune_projects is_dir w st))"
| "project_step (rg, disk) (load_projects disk, disk)"

inductive_cases project_stepE: "project_step st st'"

definition projects_inv :: "project_registry \<times> project_registry option \<Rightarrow> bool" where
  "projects_inv st \<longleftrightarrow> wf_projects (fst st) \<and> wf_projects (load_projects (snd st))"

lemma wf_saved: "wf_projects rg \<Longrightarrow> wf_projects (load_projects d) \<Longrightarrow> wf_projects (load_projects (save_projects w rg d))"
  by (simp add: save_projects_def load_projects_def)

lemma projects_inv_step: "projects_inv st \<Longrightarrow> project_step st st' \<Longrightarrow> projects_inv st'"
  by (erule project_stepE)
    (auto simp: projects_inv_def register_project_def forget_project_def prune_projects_def Let_def path_clean_idem
       wf_projects_put wf_projects_del wf_projects_filter wf_saved split: prod.splits option.splits)

interpretation projects_sys: invariant_system "\<lambda>st. st = ([], None)" project_step projects_inv
proof unfold_locales
  fix st :: "project_registry \<times> project_registry option"
  assume "st = ([], None)"
  then show "projects_inv st" by (simp add: projects_inv_def wf_projects_def load_projects_def)
qed (rule projects_inv_step)



section \<open>A directory registered twice\<close>

lemma register_name:
  "map_of (fst (fst (register_project w now (rg, disk) dir tld loc hosts branch pre))) =
     (map_of rg)(pick_name rg (path_clean dir) (path_base (path_clean dir)) 0 \<mapsto>
        new_project now (pick_name rg (path_clean dir) (path_base (path_clean dir)) 0) (path_clean dir) tld loc hosts branch pre)"
  by (simp add: register_project_def Let_def)

text \<open>
  Two directories of the same base name are registered as \<open>base\<close> and \<open>base-2\<close>. After
  \<open>base\<close> is forgotten, the next \<open>roxey up\<close> of the second directory takes the free name and leaves
  its old entry behind: the directory is then registered twice, and both entries claim its hosts.
\<close>

theorem register_after_forget_duplicates:
  assumes base: "path_base (path_clean d) = b" "path_base (path_clean e) = b" and de: "path_clean d \<noteq> path_clean e"
    and free: "map_of rg b = None" "map_of rg (b @ ''-2'') = None"
    and run: "st1 = fst (register_project True now (rg, disk) d tldd ld hsd brd pd)"
      "st2 = fst (register_project True now st1 e tlde le he bre pe)"
      "st3 = fst (forget_project True st2 b)"
      "st4 = fst (register_project True now st3 e tlde le he bre pe)"
  shows "map_of (fst st4) b = Some (new_project now b (path_clean e) tlde le he bre pe) \<and>
         map_of (fst st4) (b @ ''-2'') = Some (new_project now (b @ ''-2'') (path_clean e) tlde le he bre pe)"
proof -
  have "itoa (int (1 + 1)) = ''2''" by code_simp
  then have c: "candidate b 0 = b" "candidate b 1 = b @ ''-2''" by (simp_all add: candidate_def)
  have ne: "b @ ''-2'' \<noteq> b" by simp
  have "pick_name rg (path_clean d) b 0 = b"
    using pick_name_first [of rg "path_clean d" b 0] free(1) by (simp add: c name_free_def)
  then have m1: "map_of (fst st1) = (map_of rg)(b \<mapsto> new_project now b (path_clean d) tldd ld hsd brd pd)"
    using base register_name [of True now rg disk d tldd ld hsd brd pd] by (simp add: run(1))
  obtain rg1 disk1 where st1: "st1 = (rg1, disk1)" by (cases st1)
  have "pick_name rg1 (path_clean e) b 0 = b @ ''-2''"
    using pick_name_first [of rg1 "path_clean e" b 1, unfolded c] m1 free(2) de ne
    by (auto simp: st1 c name_free_def same_dir_def path_clean_idem new_project_def)
  then have m2: "map_of (fst st2) = (map_of rg1)(b @ ''-2'' \<mapsto> new_project now (b @ ''-2'') (path_clean e) tlde le he bre pe)"
    using base register_name [of True now rg1 disk1 e tlde le he bre pe] by (simp add: run(2) st1)
  obtain rg2 disk2 where st2: "st2 = (rg2, disk2)" by (cases st2)
  have m3: "map_of (fst st3) = (map_of rg2)(b := None)"
    using m1 m2 ne by (auto simp: run(3) st2 st1 forget_project_def Let_def)
  obtain rg3 disk3 where st3: "st3 = (rg3, disk3)" by (cases st3)
  have "pick_name rg3 (path_clean e) b 0 = b"
    using pick_name_first [of rg3 "path_clean e" b 0] m3 by (simp add: st3 c name_free_def)
  then have "map_of (fst st4) = (map_of rg3)(b \<mapsto> new_project now b (path_clean e) tlde le he bre pe)"
    using base register_name [of True now rg3 disk3 e tlde le he bre pe] by (simp add: run(4) st3)
  then show ?thesis using m3 m2 ne by (simp add: st3 st2 st1)
qed

theorem register_after_forget_duplicates_witness:
  "\<exists>st. map_of (fst st) ''app'' = Some (new_project ''t'' ''app'' ''/b/app'' ''dev'' True [''app''] [] False) \<and>
     map_of (fst st) ''app-2'' = Some (new_project ''t'' ''app-2'' ''/b/app'' ''dev'' True [''app''] [] False)"
proof -
  have p: "path_base (path_clean ''/a/app'') = ''app''" "path_base (path_clean ''/b/app'') = ''app''"
    "path_clean ''/a/app'' \<noteq> path_clean ''/b/app''" "path_clean ''/b/app'' = ''/b/app''" by code_simp+
  show ?thesis
    using register_after_forget_duplicates [OF p(1,2,3), of "[]" _ "''t''" None "''dev''" True "[''www'']" "[]" False _ "''dev''" True "[''app'']" "[]" False, OF _ _ refl refl refl refl]
    by (simp add: p(4)) blast
qed

section \<open>Queries\<close>

lemma keys_of_puts: "set (map fst (foldl (\<lambda>m k. gput k True m) m ks)) = fst ` set m \<union> set ks"
  by (induction ks arbitrary: m) (auto simp: dom_update)

lemma wf_puts: "wf_gomap m \<Longrightarrow> wf_gomap (foldl (\<lambda>m k. gput k True m) m ks)"
  by (induction ks arbitrary: m) auto

lemma all_local_exact:
  "sorted (all_local_host_fqdns rg)" "distinct (all_local_host_fqdns rg)"
  "set (all_local_host_fqdns rg) = (\<Union>p\<in>snd ` set rg. set (local_names p))"
proof -
  let ?ks = "concat (map (\<lambda>(_, p). local_names p) rg)"
  show "sorted (all_local_host_fqdns rg)" by (simp add: all_local_host_fqdns_def)
  show "distinct (all_local_host_fqdns rg)"
    using wf_puts [OF wf_gomap_empty, of ?ks] by (simp add: all_local_host_fqdns_def wf_gomap_def)
  have "set (all_local_host_fqdns rg) = set ?ks"
    using keys_of_puts [of "[]" ?ks] by (simp add: all_local_host_fqdns_def)
  then show "set (all_local_host_fqdns rg) = (\<Union>p\<in>snd ` set rg. set (local_names p))" by auto
qed

lemma all_local_cong: "snd ` set rg = snd ` set rg' \<Longrightarrow> all_local_host_fqdns rg = all_local_host_fqdns rg'"
  by (rule sorted_distinct_set_unique) (simp_all add: all_local_exact)

lemma sorted_names_cong: "wf_gomap rg \<Longrightarrow> wf_gomap rg' \<Longrightarrow> fst ` set rg = fst ` set rg' \<Longrightarrow> sorted_names rg = sorted_names rg'"
  by (rule sorted_distinct_set_unique) (auto simp: sorted_names_def wf_gomap_def)

lemma primary_loop_cong: "map_of rg = map_of rg' \<Longrightarrow> primary_loop rg first ns = primary_loop rg' first ns"
  by (induction ns arbitrary: first) (auto split: option.splits)

lemma owners_of: "map_of (foldl add_owner m cs) k =
   (let os = map snd (filter (\<lambda>c. fst c = k) cs) in
    case map_of m k of None \<Rightarrow> if os = [] then None else Some os | Some os' \<Rightarrow> Some (os' @ os))"
  by (induction cs arbitrary: m) (auto simp: add_owner_def Let_def split: option.splits if_splits)

lemma wf_owners: "wf_gomap m \<Longrightarrow> wf_gomap (foldl add_owner m cs)"
  by (induction cs arbitrary: m) (auto simp: add_owner_def)

lemma map_of_filter_snd: "wf_gomap m \<Longrightarrow> map_of (filter (\<lambda>(_, v). P v) m) k = (case map_of m k of Some v \<Rightarrow> if P v then Some v else None | None \<Rightarrow> None)"
  by (induction m) (auto simp: wf_gomap_def image_iff split: option.splits dest!: map_of_SomeD)

lemma collisions_exact:
  "map_of (find_host_collisions rg) k =
     (let os = map snd (filter (\<lambda>c. fst c = k) (host_claims rg)) in if length os > 1 then Some os else None)"
  using map_of_filter_snd [OF wf_owners [OF wf_gomap_empty], of "\<lambda>os. length os > 1" "host_claims rg" k]
  by (auto simp: find_host_collisions_def owners_of Let_def)

end
