(* ===== verification/Hosts.thy ===== *)
theory Hosts
  imports GoStrings
begin

text \<open>
  \<open>cli/internal/localrelay/hosts.go\<close>: the managed block in \<open>/etc/hosts\<close>. The file is a string;
  writing it, as root or through sudo, is the caller's effect.
\<close>

abbreviation nl :: char where "nl \<equiv> CHR 0x0A"

definition hosts_begin :: string where
  "hosts_begin = ''# BEGIN roxey (managed by `roxey up`; do not edit)''"
definition hosts_end :: string where
  "hosts_end = ''# END roxey''"

definition needs_hosts :: "string \<Rightarrow> bool" where
  "needs_hosts tld = (\<not> has_suffix tld ''.localhost'' \<and> tld \<noteq> ''localhost'')"

definition relay_host :: "string \<Rightarrow> string" where
  "relay_host tld = ''roxey.'' @ tld"

text \<open>\<open>HostsEntries\<close>; a TLD without a dot is never an IPv4 address, so the address test is on the colon form.\<close>

definition hosts_entries :: "(string \<Rightarrow> bool) \<Rightarrow> string \<Rightarrow> string list \<Rightarrow> string list" where
  "hosts_entries is_ip tld envHosts =
     relay_host tld # map (\<lambda>h. h @ ''.'' @ tld) envHosts @
     (if \<not> is_ip tld \<and> CHR ''.'' \<notin> set (trim_suffix tld ''.'') then [tld] else [])"

text \<open>The loop of \<open>RenderBlock\<close>: the entries it writes.\<close>

fun fresh_entries :: "string list \<Rightarrow> string list \<Rightarrow> string list" where
  "fresh_entries seen [] = []"
| "fresh_entries seen (e # es) =
     (if e = [] \<or> e \<in> set seen then fresh_entries seen es else e # fresh_entries (e # seen) es)"

definition entry_line :: "string \<Rightarrow> string" where
  "entry_line e = ''127.0.0.1 '' @ e"

definition render_block :: "string list \<Rightarrow> string" where
  "render_block entries =
     (let es = fresh_entries [] entries in
      if es = [] then []
      else hosts_begin @ [nl] @ concat (map (\<lambda>e. entry_line e @ [nl]) es) @ hosts_end @ [nl])"

fun strip_block :: "bool \<Rightarrow> string list \<Rightarrow> string list" where
  "strip_block inBlock [] = []"
| "strip_block inBlock (l # ls) =
     (if l = hosts_begin then strip_block True ls
      else if l = hosts_end then strip_block False ls
      else if inBlock then strip_block True ls
      else l # strip_block False ls)"

definition pad_content :: "string \<Rightarrow> string" where
  "pad_content c = (if c \<noteq> [] \<and> \<not> has_suffix c [nl, nl] then trim_right (\<lambda>x. x = nl) c @ [nl, nl] else c)"

definition merge_hosts_block :: "string \<Rightarrow> string \<Rightarrow> string" where
  "merge_hosts_block existing newBlock =
     pad_content (str_join [nl] (strip_block False (str_split nl existing))) @ newBlock"

text \<open>\<open>writeHosts\<close>: the content to write, \<open>None\<close> when the file already has it.\<close>

definition write_hosts :: "string \<Rightarrow> string \<Rightarrow> string option" where
  "write_hosts file newBlock =
     (let content = merge_hosts_block file newBlock in if content = file then None else Some content)"

definition sync_hosts_content :: "string \<Rightarrow> string list \<Rightarrow> string option" where
  "sync_hosts_content file entries = (if entries = [] then None else write_hosts file (render_block entries))"

definition remove_hosts_content :: "string \<Rightarrow> string option" where
  "remove_hosts_content file = write_hosts file []"

section \<open>Blocks as lines\<close>

definition plain_line :: "string \<Rightarrow> bool" where
  "plain_line l \<longleftrightarrow> nl \<notin> set l \<and> l \<noteq> hosts_begin \<and> l \<noteq> hosts_end"

lemma markers: "nl \<notin> set hosts_begin" "nl \<notin> set hosts_end" "hosts_begin \<noteq> hosts_end" "hosts_begin \<noteq> []" "hosts_end \<noteq> []"
  by (simp_all add: hosts_begin_def hosts_end_def)

lemma entry_line_plain: "nl \<notin> set e \<Longrightarrow> plain_line (entry_line e)"
  by (simp add: plain_line_def entry_line_def hosts_begin_def hosts_end_def)

lemma fresh_entries_mem: "e \<in> set (fresh_entries seen es) \<longleftrightarrow> e \<in> set es \<and> e \<noteq> [] \<and> e \<notin> set seen"
  by (induction seen es rule: fresh_entries.induct) auto

lemma fresh_entries_distinct: "distinct (fresh_entries seen es)"
  by (induction seen es rule: fresh_entries.induct) (auto simp: fresh_entries_mem)

lemma lines_concat: "str_join [nl] (map f es @ [l]) = concat (map (\<lambda>e. f e @ [nl]) es) @ l"
  by (induction es) (auto simp: str_join_Cons)

lemma render_block_lines:
  "fresh_entries [] es \<noteq> [] \<Longrightarrow>
     render_block es = str_join [nl] (hosts_begin # map entry_line (fresh_entries [] es) @ [hosts_end, []])"
proof -
  assume ne: "fresh_entries [] es \<noteq> []"
  let ?f = "fresh_entries [] es"
  have "str_join [nl] (hosts_begin # map entry_line ?f @ [hosts_end, []]) =
      str_join [nl] ((hosts_begin # map entry_line ?f) @ [hosts_end]) @ [nl]"
    using str_join_append [of "(hosts_begin # map entry_line ?f) @ [hosts_end]" "[[]]" "[nl]"] by simp
  also have "\<dots> = hosts_begin @ [nl] @ str_join [nl] (map entry_line ?f @ [hosts_end]) @ [nl]"
    by (simp add: str_join_Cons)
  also have "\<dots> = render_block es"
    using ne by (simp add: render_block_def lines_concat Let_def)
  finally show ?thesis by simp
qed

lemma strip_plain: "\<forall>l\<in>set ls. plain_line l \<Longrightarrow> strip_block False (ls @ ms) = ls @ strip_block False ms"
  by (induction ls) (auto simp: plain_line_def)

lemma strip_inside: "\<forall>l\<in>set ls. plain_line l \<Longrightarrow> strip_block True (ls @ ms) = strip_block True ms"
  by (induction ls) (auto simp: plain_line_def)

lemma strip_block_plain: "\<forall>l\<in>set ls. nl \<notin> set l \<Longrightarrow> l \<in> set (strip_block b ls) \<Longrightarrow> plain_line l \<and> l \<in> set ls"
  by (induction b ls rule: strip_block.induct) (auto simp: plain_line_def split: if_splits)

text \<open>A block the program writes: nothing, or the rendering of entries without newlines.\<close>

definition is_block :: "string \<Rightarrow> bool" where
  "is_block b \<longleftrightarrow> b = [] \<or> (\<exists>ls. (\<forall>l\<in>set ls. plain_line l) \<and> b = str_join [nl] (hosts_begin # ls @ [hosts_end, []]))"

lemma render_is_block: "\<forall>e\<in>set es. nl \<notin> set e \<Longrightarrow> is_block (render_block es)"
proof (cases "fresh_entries [] es = []")
  case True
  then show ?thesis by (simp add: is_block_def render_block_def)
next
  case False
  assume "\<forall>e\<in>set es. nl \<notin> set e"
  then have "\<forall>l\<in>set (map entry_line (fresh_entries [] es)). plain_line l"
    by (auto simp: fresh_entries_mem entry_line_plain)
  then show ?thesis unfolding is_block_def render_block_lines [OF False] by blast
qed

lemma split_block:
  assumes "\<forall>l\<in>set ls. plain_line l"
  shows "str_split nl (str_join [nl] (hosts_begin # ls @ [hosts_end, []])) = hosts_begin # ls @ [hosts_end, []]"
  using assms markers by (intro str_split_join) (auto simp: plain_line_def)

lemma strip_block_lines: "\<forall>l\<in>set ls. plain_line l \<Longrightarrow> strip_block False (hosts_begin # ls @ [hosts_end, []]) = [[]]"
  using strip_inside [of ls "[hosts_end, []]"] markers by (simp add: eq_commute [of "[]"])

section \<open>Merging\<close>

definition kept_content :: "string \<Rightarrow> string" where
  "kept_content file = str_join [nl] (strip_block False (str_split nl file))"

lemma pad_content_shape: "pad_content c = [] \<or> has_suffix (pad_content c) [nl, nl]"
  by (simp add: pad_content_def)

lemma pad_content_idem: "pad_content (pad_content c) = pad_content c"
  using pad_content_shape [of c] by (auto simp: pad_content_def [of "pad_content c"])

lemma kept_lines_plain: "l \<in> set (strip_block False (str_split nl file)) \<Longrightarrow> plain_line l"
  using strip_block_plain [of "str_split nl file" l False] str_split_no_sep by blast

lemma lines_prefix: "set (str_split nl a) \<subseteq> set (str_split nl (a @ replicate n nl))"
proof (induction n arbitrary: a)
  case (Suc n)
  have "str_split nl (a @ replicate (Suc n) nl) = str_split nl a @ str_split nl (replicate n nl)"
    using str_split_append_sep [of nl a "replicate n nl"] by simp
  then show ?case by simp
qed simp

lemma split_kept_plain: "l \<in> set (str_split nl (kept_content file)) \<Longrightarrow> plain_line l"
proof -
  assume l: "l \<in> set (str_split nl (kept_content file))"
  show ?thesis
  proof (cases "strip_block False (str_split nl file) = []")
    case True
    then show ?thesis using l markers by (auto simp: kept_content_def plain_line_def)
  next
    case False
    then have "str_split nl (kept_content file) = strip_block False (str_split nl file)"
      unfolding kept_content_def by (rule str_split_join) (auto dest: kept_lines_plain simp: plain_line_def)
    then show ?thesis using l kept_lines_plain by simp
  qed
qed

lemma trim_right_replicate: "\<exists>n. c = trim_right (\<lambda>x. x = nl) c @ replicate n nl"
proof -
  obtain t where t: "c = trim_right (\<lambda>x. x = nl) c @ t" "\<forall>x\<in>set t. x = nl" using trim_right_prefix by blast
  then have "t = replicate (length t) nl" by (simp add: replicate_length_same)
  with t(1) show ?thesis by metis
qed

lemma split_pad_plain: "l \<in> set (str_split nl (pad_content (kept_content file))) \<Longrightarrow> plain_line l"
proof -
  let ?c = "kept_content file" let ?t = "trim_right (\<lambda>x. x = nl) ?c"
  assume l: "l \<in> set (str_split nl (pad_content ?c))"
  show ?thesis
  proof (cases "?c \<noteq> [] \<and> \<not> has_suffix ?c [nl, nl]")
    case False
    then have "pad_content ?c = ?c" by (auto simp: pad_content_def)
    then show ?thesis using l split_kept_plain by simp
  next
    case True
    obtain n where "?c = ?t @ replicate n nl" using trim_right_replicate by blast
    then have sub: "set (str_split nl ?t) \<subseteq> set (str_split nl ?c)" using lines_prefix [of ?t n] by metis
    have "str_split nl (?t @ nl # [nl]) = str_split nl ?t @ [[], []]"
      using str_split_append_sep [of nl ?t "[nl]"] by simp
    then have "l \<in> set (str_split nl ?t) \<or> l = []" using l True by (auto simp: pad_content_def)
    then show ?thesis using sub split_kept_plain markers by (auto simp: plain_line_def)
  qed
qed

lemma kept_after_merge:
  assumes "is_block b"
  shows "kept_content (merge_hosts_block file b) = pad_content (kept_content file)"
proof -
  let ?x = "pad_content (kept_content file)"
  have m: "merge_hosts_block file b = ?x @ b" by (simp add: merge_hosts_block_def kept_content_def)
  have px: "\<forall>l\<in>set (str_split nl ?x). plain_line l" using split_pad_plain by blast
  show ?thesis
  proof (cases "b = []")
    case True
    then have "merge_hosts_block file b = ?x" using m by simp
    moreover have "strip_block False (str_split nl ?x) = str_split nl ?x" using strip_plain [OF px, of "[]"] by simp
    ultimately show ?thesis unfolding kept_content_def [of "merge_hosts_block file b"] by simp
  next
    case False
    then obtain ls where ls: "\<forall>l\<in>set ls. plain_line l" "b = str_join [nl] (hosts_begin # ls @ [hosts_end, []])"
      using assms unfolding is_block_def by blast
    have sb: "strip_block False (str_split nl b) = [[]]"
      unfolding ls(2) split_block [OF ls(1)] by (rule strip_block_lines [OF ls(1)])
    show ?thesis
    proof (cases "?x = []")
      case True
      then show ?thesis using sb by (simp add: m kept_content_def)
    next
      case ne: False
      then obtain y where y: "?x = y @ [nl] @ [nl]" using pad_content_shape [of "kept_content file"] by (auto simp: has_suffix_iff)
      let ?y = "y @ [nl]"
      have x: "?x = ?y @ nl # []" using y by simp
      have "str_split nl (?x @ b) = str_split nl ?y @ str_split nl b"
        using str_split_append_sep [of nl ?y b] x by simp
      moreover have "str_split nl ?x = str_split nl ?y @ [[]]" using str_split_append_sep [of nl ?y "[]"] x by simp
      then have "\<forall>l\<in>set (str_split nl ?y). plain_line l" using px by simp
      ultimately have "strip_block False (str_split nl (?x @ b)) = str_split nl ?y @ [[]]"
        using strip_plain sb by simp
      then have "kept_content (?x @ b) = str_join [nl] (str_split nl ?y @ [[]])" by (simp add: kept_content_def)
      also have "\<dots> = ?x" using str_join_append [of "str_split nl ?y" "[[]]" "[nl]"] x by simp
      finally show ?thesis by (simp add: m)
    qed
  qed
qed

lemma merge_pad_kept: "merge_hosts_block file b = pad_content (kept_content file) @ b"
  by (simp add: merge_hosts_block_def kept_content_def)

lemma merge_merge: "is_block b \<Longrightarrow> merge_hosts_block (merge_hosts_block file b) b' = merge_hosts_block file b'"
  unfolding merge_pad_kept [of "merge_hosts_block file b"] kept_after_merge pad_content_idem
  by (simp add: merge_pad_kept)

section \<open>The lines of the merged file\<close>

lemma pad_lines: "l \<in> set (str_split nl (pad_content (kept_content file))) \<Longrightarrow> l = [] \<or> l \<in> set (strip_block False (str_split nl file))"
proof -
  let ?c = "kept_content file" let ?t = "trim_right (\<lambda>x. x = nl) ?c"
  assume l: "l \<in> set (str_split nl (pad_content ?c))"
  have kept: "l = [] \<or> l \<in> set (strip_block False (str_split nl file))" if "l \<in> set (str_split nl ?c)"
  proof (cases "strip_block False (str_split nl file) = []")
    case True
    then show ?thesis using that by (simp add: kept_content_def)
  next
    case False
    then have "str_split nl ?c = strip_block False (str_split nl file)"
      unfolding kept_content_def by (rule str_split_join) (auto dest: kept_lines_plain simp: plain_line_def)
    then show ?thesis using that by simp
  qed
  show ?thesis
  proof (cases "?c \<noteq> [] \<and> \<not> has_suffix ?c [nl, nl]")
    case False
    then have "pad_content ?c = ?c" by (auto simp: pad_content_def)
    then show ?thesis using l kept by simp
  next
    case True
    obtain n where "?c = ?t @ replicate n nl" using trim_right_replicate by blast
    then have sub: "set (str_split nl ?t) \<subseteq> set (str_split nl ?c)" using lines_prefix [of ?t n] by metis
    have "str_split nl (?t @ nl # [nl]) = str_split nl ?t @ [[], []]"
      using str_split_append_sep [of nl ?t "[nl]"] by simp
    then have "l \<in> set (str_split nl ?t) \<or> l = []" using l True by (auto simp: pad_content_def)
    then show ?thesis using sub kept by blast
  qed
qed

lemma merged_lines:
  "set (str_split nl b) \<subseteq> set (str_split nl (merge_hosts_block file b))"
  "set (str_split nl (merge_hosts_block file b)) \<subseteq>
     set (str_split nl (pad_content (kept_content file))) \<union> set (str_split nl b)"
proof -
  let ?x = "pad_content (kept_content file)"
  have "set (str_split nl b) \<subseteq> set (str_split nl (?x @ b)) \<and> set (str_split nl (?x @ b)) \<subseteq> set (str_split nl ?x) \<union> set (str_split nl b)"
  proof (cases "?x = []")
    case False
    then obtain y where y: "?x = y @ [nl] @ [nl]" using pad_content_shape [of "kept_content file"] by (auto simp: has_suffix_iff)
    then have "str_split nl (?x @ b) = str_split nl (y @ [nl]) @ str_split nl b"
      using str_split_append_sep [of nl "y @ [nl]" b] by simp
    moreover have "str_split nl ?x = str_split nl (y @ [nl]) @ [[]]"
      using str_split_append_sep [of nl "y @ [nl]" "[]"] y by simp
    ultimately show ?thesis by auto
  qed auto
  then show "set (str_split nl b) \<subseteq> set (str_split nl (merge_hosts_block file b))"
    "set (str_split nl (merge_hosts_block file b)) \<subseteq> set (str_split nl ?x) \<union> set (str_split nl b)"
    by (simp_all add: merge_pad_kept)
qed

lemma block_lines:
  assumes "\<forall>e\<in>set es. nl \<notin> set e"
  shows "set (str_split nl (render_block es)) =
    (if fresh_entries [] es = [] then {[]} else {hosts_begin, hosts_end, []} \<union> entry_line ` {e \<in> set es. e \<noteq> []})"
proof (cases "fresh_entries [] es = []")
  case True
  then show ?thesis by (simp add: render_block_def)
next
  case False
  have "\<forall>l\<in>set (map entry_line (fresh_entries [] es)). plain_line l"
    using assms by (auto simp: fresh_entries_mem entry_line_plain)
  then have "set (str_split nl (render_block es)) = {hosts_begin, hosts_end, []} \<union> entry_line ` set (fresh_entries [] es)"
    unfolding render_block_lines [OF False] by (subst split_block) auto
  moreover have "set (fresh_entries [] es) = {e \<in> set es. e \<noteq> []}" by (auto simp: fresh_entries_mem)
  ultimately show ?thesis using False by simp
qed

lemma strip_merged:
  "is_block b \<Longrightarrow> l \<in> set (strip_block False (str_split nl file)) \<Longrightarrow> l \<noteq> [] \<Longrightarrow> l \<in> set (str_split nl (merge_hosts_block file b))"
proof -
  assume b: "is_block b" and l: "l \<in> set (strip_block False (str_split nl file))" and ne: "l \<noteq> []"
  let ?k = "strip_block False (str_split nl file)" let ?c = "kept_content file" let ?t = "trim_right (\<lambda>x. x = nl) ?c"
  have c: "str_split nl ?c = ?k"
    unfolding kept_content_def using l by (intro str_split_join) (auto dest: kept_lines_plain simp: plain_line_def)
  obtain n where n: "?c = ?t @ replicate n nl" using trim_right_replicate by blast
  have reps: "set (str_split nl (replicate m nl)) \<subseteq> {[]}" for m by (induction m) auto
  have tl: "l \<in> set (str_split nl ?t)"
  proof (cases n)
    case 0
    then show ?thesis using n c l by simp
  next
    case (Suc m)
    then have "str_split nl ?c = str_split nl ?t @ str_split nl (replicate m nl)"
      using n str_split_append_sep [of nl ?t "replicate m nl"] by simp
    then show ?thesis using c l ne reps [of m] by auto
  qed
  have "l \<in> set (str_split nl ?c)" using c l by simp
  moreover have "str_split nl (?t @ nl # nl # b) = str_split nl ?t @ str_split nl (nl # b)"
    by (rule str_split_append_sep)
  moreover have "l \<in> set (str_split nl (?c @ b))" if suf: "?c = [] \<or> has_suffix ?c [nl, nl]"
  proof (cases "?c = []")
    case True
    then have "?k = [[]]" using c by simp
    then show ?thesis using l ne by simp
  next
    case False
    then obtain y where y: "?c = (y @ [nl]) @ nl # []" using suf by (auto simp: has_suffix_iff)
    then have "str_split nl ?c = str_split nl (y @ [nl]) @ [[]]" by (metis str_split_append_sep str_split.simps(1))
    moreover have "str_split nl (?c @ b) = str_split nl (y @ [nl]) @ str_split nl b"
      using str_split_append_sep [of nl "y @ [nl]" b] y by simp
    ultimately show ?thesis using c l ne by auto
  qed
  ultimately show ?thesis using tl by (auto simp: merge_pad_kept pad_content_def)
qed

end
