(* ===== verification/Supervisor.thy ===== *)
theory Supervisor
  imports Prelude
begin

text \<open>
  \<open>cli/internal/helper/relay.go\<close>: the daemon's supervisor of the relay child. A child is the
  number of its \<open>exec.Cmd\<close>; a \<open>watch\<close> goroutine waits for its child, then sleeps before it
  calls \<open>Ensure\<close>. The mutex makes \<open>Ensure\<close>, \<open>Stop\<close> and the test in \<open>watch\<close> atomic steps, and
  between them anything may happen. Whether a child can be started is an input of the step.
\<close>

section \<open>State\<close>

datatype watch_phase = Waiting | Sleeping

record supervisor =
  s_tld :: string
  s_cmd :: "nat option"
  s_next :: nat
  s_alive :: "nat set"
  s_killed :: "nat set"
  s_watch :: "(nat \<times> string \<times> watch_phase) set"

definition new_supervisor :: supervisor where
  "new_supervisor = \<lparr>s_tld = [], s_cmd = None, s_next = 0, s_alive = {}, s_killed = {}, s_watch = {}\<rparr>"

section \<open>Operations\<close>

text \<open>\<open>stopLocked\<close> sends SIGKILL; the child is gone when the system has reaped it.\<close>

definition stop_locked :: "supervisor \<Rightarrow> supervisor" where
  "stop_locked r = (case s_cmd r of None \<Rightarrow> r | Some c \<Rightarrow> r\<lparr>s_cmd := None, s_killed := insert c (s_killed r)\<rparr>)"

definition start_locked :: "bool \<Rightarrow> string \<Rightarrow> supervisor \<Rightarrow> supervisor" where
  "start_locked started tld r =
     (if started then r\<lparr>s_tld := tld, s_cmd := Some (s_next r), s_next := s_next r + 1, s_alive := insert (s_next r) (s_alive r)\<rparr>
      else r)"

text \<open>\<open>Ensure\<close>: the result is whether it returned without an error.\<close>

definition sup_ensure :: "bool \<Rightarrow> string \<Rightarrow> supervisor \<Rightarrow> supervisor \<times> bool" where
  "sup_ensure started tld r =
     (if s_cmd r \<noteq> None \<and> s_tld r = tld then (r, True)
      else
        let r1 = start_locked started tld (stop_locked r)
        in if started then (r1\<lparr>s_watch := insert (the (s_cmd r1), tld, Waiting) (s_watch r1)\<rparr>, True) else (r1, False))"

definition sup_stop :: "supervisor \<Rightarrow> supervisor" where
  "sup_stop r = stop_locked r"

definition sup_status :: "supervisor \<Rightarrow> string \<times> bool" where
  "sup_status r = (s_tld r, s_cmd r \<noteq> None)"

text \<open>The test after \<open>cmd.Wait\<close> has returned, and the call after the sleep.\<close>

definition watch_exited :: "nat \<Rightarrow> string \<Rightarrow> supervisor \<Rightarrow> supervisor" where
  "watch_exited c tld r =
     (if s_cmd r = Some c then r\<lparr>s_cmd := None, s_watch := insert (c, tld, Sleeping) (s_watch r - {(c, tld, Waiting)})\<rparr>
      else r\<lparr>s_watch := s_watch r - {(c, tld, Waiting)}\<rparr>)"

definition watch_wakes :: "bool \<Rightarrow> nat \<Rightarrow> string \<Rightarrow> supervisor \<Rightarrow> supervisor" where
  "watch_wakes started c tld r = fst (sup_ensure started tld (r\<lparr>s_watch := s_watch r - {(c, tld, Sleeping)}\<rparr>))"

inductive sup_step :: "supervisor \<Rightarrow> supervisor \<Rightarrow> bool" where
  ensure_call: "sup_step r (fst (sup_ensure started tld r))"
| stop_call: "sup_step r (sup_stop r)"
| child_exits: "c \<in> s_alive r \<Longrightarrow> sup_step r (r\<lparr>s_alive := s_alive r - {c}\<rparr>)"
| wait_returns: "(c, tld, Waiting) \<in> s_watch r \<Longrightarrow> c \<notin> s_alive r \<Longrightarrow> sup_step r (watch_exited c tld r)"
| sleep_ends: "(c, tld, Sleeping) \<in> s_watch r \<Longrightarrow> sup_step r (watch_wakes started c tld r)"

inductive_cases sup_stepE: "sup_step r r'"

section \<open>Invariant\<close>

definition sup_inv :: "supervisor \<Rightarrow> bool" where
  "sup_inv r \<longleftrightarrow>
     s_alive r - s_killed r \<subseteq> set_option (s_cmd r) \<and>
     (case s_cmd r of None \<Rightarrow> True | Some c \<Rightarrow> c < s_next r \<and> c \<notin> s_killed r \<and> (c, s_tld r, Waiting) \<in> s_watch r) \<and>
     s_alive r \<union> s_killed r \<subseteq> {..<s_next r} \<and> fst ` s_watch r \<subseteq> {..<s_next r}"

lemma stop_locked_cmd [simp]: "s_cmd (stop_locked r) = None"
  by (simp add: stop_locked_def split: option.splits)

lemma stop_locked_other [simp]:
  "s_next (stop_locked r) = s_next r" "s_alive (stop_locked r) = s_alive r" "s_watch (stop_locked r) = s_watch r"
  "s_killed (stop_locked r) = s_killed r \<union> set_option (s_cmd r)" "s_tld (stop_locked r) = s_tld r"
  by (auto simp: stop_locked_def split: option.splits)

lemma sup_inv_stop: "sup_inv r \<Longrightarrow> sup_inv (stop_locked r)"
  by (cases "s_cmd r") (auto simp: sup_inv_def)

lemma lessThan_Suc_sub: "A \<subseteq> {..<n} \<Longrightarrow> A \<subseteq> {..<Suc n}" for A :: "nat set"
  by auto

lemma sup_inv_start:
  assumes "sup_inv r" "s_cmd r = None"
  shows "sup_inv (r\<lparr>s_tld := t, s_cmd := Some (s_next r), s_next := s_next r + 1, s_alive := insert (s_next r) (s_alive r),
       s_watch := insert (s_next r, t, Waiting) (s_watch r)\<rparr>)"
proof -
  have "s_next r \<notin> s_killed r" "s_alive r \<subseteq> {..<s_next r}" "s_killed r \<subseteq> {..<s_next r}" "fst ` s_watch r \<subseteq> {..<s_next r}"
    "s_alive r \<subseteq> s_killed r"
    using assms by (auto simp: sup_inv_def)
  then show ?thesis by (auto simp: sup_inv_def intro: less_SucI)
qed

lemma sup_inv_ensure: "sup_inv r \<Longrightarrow> sup_inv (fst (sup_ensure started tld r))"
  using sup_inv_start [OF sup_inv_stop stop_locked_cmd, of r tld] sup_inv_stop [of r]
  by (simp add: sup_ensure_def start_locked_def Let_def)

lemma sup_inv_exit: "sup_inv r \<Longrightarrow> sup_inv (r\<lparr>s_alive := s_alive r - {c}\<rparr>)"
  by (auto simp: sup_inv_def split: option.splits)

lemma sup_inv_exited:
  assumes inv: "sup_inv r" and w: "(c, tld, Waiting) \<in> s_watch r" and dead: "c \<notin> s_alive r"
  shows "sup_inv (watch_exited c tld r)"
proof (cases "s_cmd r = Some c")
  case True
  then have "s_alive r \<subseteq> s_killed r" using inv dead by (auto simp: sup_inv_def)
  moreover have "c < s_next r" using inv True by (simp add: sup_inv_def)
  ultimately show ?thesis using inv True by (auto simp: sup_inv_def watch_exited_def)
next
  case False
  then show ?thesis using inv by (auto simp: sup_inv_def watch_exited_def split: option.splits)
qed

lemma sup_inv_unsleep: "sup_inv r \<Longrightarrow> sup_inv (r\<lparr>s_watch := s_watch r - {(c, tld, Sleeping)}\<rparr>)"
  by (auto simp: sup_inv_def split: option.splits)

lemma sup_inv_step: "sup_inv r \<Longrightarrow> sup_step r r' \<Longrightarrow> sup_inv r'"
  by (erule sup_stepE)
    (simp_all add: sup_stop_def watch_wakes_def sup_inv_ensure sup_inv_stop sup_inv_exit sup_inv_exited sup_inv_unsleep)

lemma sup_inv_new: "sup_inv new_supervisor"
  by (simp add: sup_inv_def new_supervisor_def)

interpretation sup_sys: invariant_system "\<lambda>r. r = new_supervisor" sup_step sup_inv
  by unfold_locales (simp_all add: sup_inv_new sup_inv_step)

lemma ensure_runs: "snd (sup_ensure started tld r) \<Longrightarrow> sup_status (fst (sup_ensure started tld r)) = (tld, True)"
  by (auto simp: sup_ensure_def sup_status_def start_locked_def Let_def split: if_splits)

section \<open>Properties\<close>

text \<open>
  C32: in every interleaving of Ensure and Stop calls, exits of children and watchers, at most one
  child that was not killed runs, it is the one the supervisor holds, and its watcher is waiting
  for it; when Ensure succeeds the supervisor runs a child for the TLD asked for, and after Stop
  every child still alive has been killed.
\<close>

theorem one_relay_child:
  assumes "sup_step\<^sup>*\<^sup>* new_supervisor r"
  shows "(\<forall>c\<in>s_alive r. c \<notin> s_killed r \<longrightarrow> s_cmd r = Some c) \<and>
    (\<forall>c. s_cmd r = Some c \<longrightarrow> (c, s_tld r, Waiting) \<in> s_watch r) \<and>
    (snd (sup_ensure started tld r) \<longrightarrow> sup_status (fst (sup_ensure started tld r)) = (tld, True)) \<and>
    (\<not> snd (sup_status (sup_stop r)) \<and> s_alive (sup_stop r) \<subseteq> s_killed (sup_stop r))"
proof -
  have inv: "sup_inv r" by (rule sup_sys.inv_reachable [OF refl assms])
  have "sup_inv (sup_stop r)" using inv by (simp add: sup_stop_def sup_inv_stop)
  then have "s_alive (sup_stop r) \<subseteq> s_killed (sup_stop r)" by (auto simp: sup_inv_def sup_stop_def)
  then show ?thesis using inv ensure_runs [of started tld r]
    by (auto simp: sup_inv_def sup_status_def sup_stop_def)
qed

theorem one_relay_child_witness:
  "\<exists>r. sup_step\<^sup>*\<^sup>* new_supervisor r \<and> s_alive r = {0} \<and> (0, ''dev'', Waiting) \<in> s_watch r"
proof -
  let ?r = "fst (sup_ensure True ''dev'' new_supervisor)"
  have run: "sup_step\<^sup>*\<^sup>* new_supervisor ?r" using ensure_call [of new_supervisor True "''dev''"] by blast
  have r: "s_cmd ?r = Some 0" "s_tld ?r = ''dev''" "s_alive ?r = {0}"
    by (simp_all add: sup_ensure_def new_supervisor_def start_locked_def stop_locked_def)
  then have "(0, ''dev'', Waiting) \<in> s_watch ?r" using one_relay_child [OF run, of True "''dev''"] by auto
  then show ?thesis using run r by blast
qed

text \<open>
  A child that dies while the supervisor holds it is replaced by a new one for the same TLD,
  provided no call comes in between and the new child starts. If that one start fails nothing is
  left that would try again.
\<close>

theorem crash_restarted:
  assumes reach: "sup_step\<^sup>*\<^sup>* new_supervisor r" and run: "s_cmd r = Some c" "c \<in> s_alive r"
    and exits: "r1 = r\<lparr>s_alive := s_alive r - {c}\<rparr>" and waited: "r2 = watch_exited c (s_tld r) r1"
  shows "sup_step r r1 \<and> sup_step r1 r2 \<and> sup_step r2 (watch_wakes started c (s_tld r) r2) \<and>
    (started \<longrightarrow> sup_status (watch_wakes started c (s_tld r) r2) = (s_tld r, True) \<and>
       s_alive (watch_wakes started c (s_tld r) r2) - s_killed r = {s_next r}) \<and>
    (\<not> started \<longrightarrow> s_cmd (watch_wakes started c (s_tld r) r2) = None \<and>
       (\<forall>w\<in>s_watch (watch_wakes started c (s_tld r) r2). w \<in> s_watch r))"
proof -
  have inv: "sup_inv r" by (rule sup_sys.inv_reachable [OF refl reach])
  then have w: "(c, s_tld r, Waiting) \<in> s_watch r1" using run(1) by (simp add: sup_inv_def exits)
  have r2: "r2 = r1\<lparr>s_cmd := None, s_watch := insert (c, s_tld r, Sleeping) (s_watch r1 - {(c, s_tld r, Waiting)})\<rparr>"
    using run(1) by (simp add: waited watch_exited_def exits)
  have "sup_step r r1" unfolding exits by (rule child_exits [OF run(2)])
  moreover have "sup_step r1 r2" unfolding waited by (rule wait_returns [OF w]) (simp add: exits)
  moreover have "sup_step r2 (watch_wakes started c (s_tld r) r2)" by (rule sleep_ends) (simp add: r2)
  moreover have "s_alive r - {c} \<subseteq> s_killed r" "s_next r \<notin> s_killed r" using inv run(1) by (auto simp: sup_inv_def)
  ultimately show ?thesis
    by (auto simp: r2 exits watch_wakes_def sup_ensure_def start_locked_def stop_locked_def sup_status_def Let_def)
qed

theorem crash_restarted_witness:
  "\<exists>r c r'. sup_step\<^sup>*\<^sup>* new_supervisor r \<and> c \<in> s_alive r \<and> sup_step\<^sup>*\<^sup>* (r\<lparr>s_alive := s_alive r - {c}\<rparr>) r' \<and> sup_status r' = (''dev'', True)"
proof -
  let ?r = "fst (sup_ensure True ''dev'' new_supervisor)"
  have run: "sup_step\<^sup>*\<^sup>* new_supervisor ?r" using ensure_call [of new_supervisor True "''dev''"] by blast
  have r: "s_cmd ?r = Some 0" "0 \<in> s_alive ?r" "s_tld ?r = ''dev''"
    by (simp_all add: sup_ensure_def new_supervisor_def start_locked_def stop_locked_def)
  note c = crash_restarted [OF run r(1,2) refl refl, of True]
  have "sup_step\<^sup>*\<^sup>* (?r\<lparr>s_alive := s_alive ?r - {0}\<rparr>) (watch_wakes True 0 (s_tld ?r) (watch_exited 0 (s_tld ?r) (?r\<lparr>s_alive := s_alive ?r - {0}\<rparr>)))"
    using c by (meson rtranclp.rtrancl_into_rtrancl rtranclp.rtrancl_refl)
  then show ?thesis using run r c by metis
qed

text \<open>
  After a crash the watcher sleeps, and the call that arrives meanwhile is undone when it wakes:
  a Stop is followed by a new child, and the child of an Ensure for another TLD is killed and
  replaced by one for the old TLD.
\<close>

theorem sleeping_watcher_undoes_calls:
  assumes reach: "sup_step\<^sup>*\<^sup>* new_supervisor r" and sleeping: "(c, a, Sleeping) \<in> s_watch r" and idle: "s_cmd r = None" and ab: "a \<noteq> b"
  shows "sup_step (sup_stop r) (watch_wakes True c a (sup_stop r)) \<and>
    sup_status (watch_wakes True c a (sup_stop r)) = (a, True) \<and>
    (let r' = fst (sup_ensure True b r) in
       sup_status r' = (b, True) \<and> sup_step r' (watch_wakes True c a r') \<and>
       sup_status (watch_wakes True c a r') = (a, True) \<and> the (s_cmd r') \<in> s_killed (watch_wakes True c a r'))"
proof -
  have stop: "sup_stop r = r" using idle by (simp add: sup_stop_def stop_locked_def)
  let ?r' = "fst (sup_ensure True b r)"
  have r': "s_cmd ?r' = Some (s_next r)" "s_tld ?r' = b" "(c, a, Sleeping) \<in> s_watch ?r'"
    using sleeping idle by (auto simp: sup_ensure_def start_locked_def stop_locked_def Let_def)
  have "sup_status (watch_wakes True c a x) = (a, True)" for x
    unfolding watch_wakes_def by (rule ensure_runs) (simp add: sup_ensure_def Let_def)
  moreover have "the (s_cmd ?r') \<in> s_killed (watch_wakes True c a ?r')"
    using ab r' by (auto simp: watch_wakes_def sup_ensure_def start_locked_def Let_def)
  moreover have "sup_step ?r' (watch_wakes True c a ?r')" using r'(3) by (rule sleep_ends)
  moreover have "sup_step r (watch_wakes True c a r)" using sleeping by (rule sleep_ends)
  ultimately show ?thesis using r' stop by (simp add: Let_def sup_status_def)
qed

theorem sleeping_watcher_undoes_calls_witness:
  "\<exists>r. sup_step\<^sup>*\<^sup>* new_supervisor r \<and> sup_status (sup_stop r) = (''dev'', False) \<and>
     (\<exists>r'. sup_step (sup_stop r) r' \<and> sup_status r' = (''dev'', True))"
proof -
  let ?r = "fst (sup_ensure True ''dev'' new_supervisor)" let ?r1 = "?r\<lparr>s_alive := s_alive ?r - {0}\<rparr>" let ?r2 = "watch_exited 0 ''dev'' ?r1"
  have e: "?r = \<lparr>s_tld = ''dev'', s_cmd = Some 0, s_next = 1, s_alive = {0}, s_killed = {}, s_watch = {(0, ''dev'', Waiting)}\<rparr>"
    by (simp add: sup_ensure_def new_supervisor_def start_locked_def stop_locked_def Let_def)
  have "sup_step new_supervisor ?r" by (rule ensure_call)
  moreover have "sup_step ?r ?r1" by (rule child_exits) (simp add: e)
  moreover have "sup_step ?r1 ?r2" by (rule wait_returns) (simp_all add: e)
  ultimately have run: "sup_step\<^sup>*\<^sup>* new_supervisor ?r2" by (meson rtranclp.rtrancl_into_rtrancl rtranclp.rtrancl_refl)
  have r2: "(0, ''dev'', Sleeping) \<in> s_watch ?r2" "s_cmd ?r2 = None" "s_tld ?r2 = ''dev''" by (simp_all add: e watch_exited_def)
  have "sup_status (sup_stop ?r2) = (''dev'', False)" using r2 by (simp add: sup_status_def sup_stop_def)
  then show ?thesis using sleeping_watcher_undoes_calls [OF run r2(1,2), of "''test''"] run by blast
qed

end
