(* ===== verification/Helper.thy ===== *)
theory Helper
  imports ProjectsProps Hosts Regex Supervisor
begin

text \<open>
  \<open>cli/internal/helper\<close>: the root daemon (\<open>validate.go\<close>, \<open>protocol.go\<close>, \<open>server.go\<close>,
  \<open>daemon.go\<close>). A request is handled on the state it touches, the text of \<open>/etc/hosts\<close> and the
  relay supervisor; what the operating system answers is the record \<open>os_env\<close>. The JSON framing
  gives a decoded request or a decoding error.
\<close>

section \<open>Validation\<close>

definition host_label_rx :: rx where
  "host_label_rx = label_rx is_alnum is_label_char (Some 61)"

definition max_hosts :: nat where "max_hosts = 5000"

definition valid_hostname :: "string \<Rightarrow> bool" where
  "valid_hostname h = (if h = [] \<or> length h > 253 then False else list_all (rx_match host_label_rx) (str_split CHR ''.'' h))"

definition host_matches_any_tld :: "string \<Rightarrow> string list \<Rightarrow> bool" where
  "host_matches_any_tld h allowed = list_ex (\<lambda>tld. h = tld \<or> has_suffix h (''.'' @ tld)) allowed"

datatype hosts_error = TooManyHosts | EmptyEntry | InvalidEntry string | ForeignHost string

fun validate_entries :: "string list \<Rightarrow> string list \<Rightarrow> string list \<Rightarrow> hosts_error option" where
  "validate_entries allowed seen [] = None"
| "validate_entries allowed seen (e # es) =
     (if e = [] then Some EmptyEntry
      else if e \<in> set seen then validate_entries allowed seen es
      else if e = ''localhost'' \<and> ''localhost'' \<in> set allowed then validate_entries allowed (e # seen) es
      else if \<not> valid_hostname e then Some (InvalidEntry e)
      else if \<not> host_matches_any_tld e allowed then Some (ForeignHost e)
      else validate_entries allowed (e # seen) es)"

definition validate_hosts :: "string list \<Rightarrow> string list \<Rightarrow> hosts_error option" where
  "validate_hosts entries allowed = (if length entries > max_hosts then Some TooManyHosts else validate_entries allowed [] entries)"

section \<open>Protocol\<close>

definition protocol_version :: int where "protocol_version = 1"

record request =
  rq_op :: string
  rq_hosts :: "string list"

datatype helper_error = UnauthorizedPeer | BadRequest | UnknownOp string | BadHosts hosts_error | UpdateHosts
  | StartRelay | NoLocalProjects | CaMissing | TrustFailed

record reply =
  rp_ok :: bool
  rp_error :: "helper_error option"
  rp_version :: int
  rp_tld :: string
  rp_relay_up :: bool
  rp_trusted :: bool
  rp_pid :: int

definition reply_ok :: reply where
  "reply_ok = \<lparr>rp_ok = True, rp_error = None, rp_version = 0, rp_tld = [], rp_relay_up = False, rp_trusted = False, rp_pid = 0\<rparr>"

definition reply_err :: "helper_error \<Rightarrow> reply" where
  "reply_err e = reply_ok\<lparr>rp_ok := False, rp_error := Some e\<rparr>"

section \<open>The daemon's state\<close>

record daemon =
  d_hosts :: string
  d_relay :: "supervisor option"

text \<open>\<open>registry\<close> is \<open>None\<close> when the file cannot be read or parsed.\<close>

record os_env =
  registry_file :: "project_registry option"
  hosts_readable :: bool
  hosts_writable :: bool
  relay_starts :: bool
  ca_present :: bool
  ca_trusted :: bool
  trust_works :: bool
  healthy :: "string \<Rightarrow> bool"
  daemon_pid :: int

definition primary_tld :: "os_env \<Rightarrow> string" where
  "primary_tld env =
     (case registry_file env of None \<Rightarrow> [] | Some rg \<Rightarrow> if length rg = 0 then [] else primary_local_tld rg)"

fun distinct_local_tlds :: "string list \<Rightarrow> project list \<Rightarrow> string list" where
  "distinct_local_tlds seen [] = []"
| "distinct_local_tlds seen (p # ps) =
     (if p_local p \<and> p_tld p \<notin> set seen then p_tld p # distinct_local_tlds (p_tld p # seen) ps
      else distinct_local_tlds seen ps)"

definition allowed_tlds :: "os_env \<Rightarrow> string list" where
  "allowed_tlds env = (case registry_file env of None \<Rightarrow> [] | Some rg \<Rightarrow> distinct_local_tlds [] (map snd rg))"

text \<open>\<open>WriteManagedBlock\<close> as root: the new text of the file, \<open>None\<close> on an error.\<close>

definition write_managed_block :: "os_env \<Rightarrow> string \<Rightarrow> string \<Rightarrow> string option" where
  "write_managed_block env file block =
     (if \<not> hosts_readable env then None
      else case write_hosts file block of
        None \<Rightarrow> Some file
      | Some content \<Rightarrow> if hosts_writable env then Some content else None)"

definition sync_hosts :: "os_env \<Rightarrow> daemon \<Rightarrow> string list \<Rightarrow> daemon \<times> reply" where
  "sync_hosts env d hosts =
     (case validate_hosts hosts (allowed_tlds env) of
        Some e \<Rightarrow> (d, reply_err (BadHosts e))
      | None \<Rightarrow>
          (case write_managed_block env (d_hosts d) (render_block hosts) of
             None \<Rightarrow> (d, reply_err UpdateHosts)
           | Some content \<Rightarrow>
               let d1 = d\<lparr>d_hosts := content\<rparr> in
               case d_relay d1 of
                 None \<Rightarrow> (d1, reply_ok)
               | Some r \<Rightarrow>
                   if primary_tld env = [] then (d1, reply_ok)
                   else
                     let (r', ok) = sup_ensure (relay_starts env) (primary_tld env) r
                     in (d1\<lparr>d_relay := Some r'\<rparr>, if ok then reply_ok else reply_err StartRelay)))"

definition ensure_relay :: "os_env \<Rightarrow> daemon \<Rightarrow> daemon \<times> reply" where
  "ensure_relay env d =
     (case d_relay d of
        None \<Rightarrow> (d, reply_ok)
      | Some r \<Rightarrow>
          if primary_tld env = [] then (d, reply_err NoLocalProjects)
          else
            let (r', ok) = sup_ensure (relay_starts env) (primary_tld env) r
            in (d\<lparr>d_relay := Some r'\<rparr>, if ok then reply_ok\<lparr>rp_tld := primary_tld env\<rparr> else reply_err StartRelay))"

definition trust_ca :: "os_env \<Rightarrow> reply" where
  "trust_ca env =
     (if \<not> ca_present env then reply_err CaMissing
      else if \<not> ca_trusted env \<and> \<not> trust_works env then reply_err TrustFailed
      else reply_ok\<lparr>rp_trusted := True\<rparr>)"

definition relay_status :: "os_env \<Rightarrow> daemon \<Rightarrow> reply" where
  "relay_status env d =
     (let tld0 = primary_tld env;
          tld = (case d_relay d of None \<Rightarrow> tld0 | Some r \<Rightarrow> let (rtld, _) = sup_status r in if rtld \<noteq> [] then rtld else tld0)
      in reply_ok\<lparr>rp_tld := tld, rp_relay_up := tld \<noteq> [] \<and> healthy env tld\<rparr>)"

definition handle :: "os_env \<Rightarrow> daemon \<Rightarrow> request \<Rightarrow> daemon \<times> reply" where
  "handle env d req =
     (if rq_op req = ''ping'' then (d, reply_ok\<lparr>rp_version := protocol_version, rp_pid := daemon_pid env\<rparr>)
      else if rq_op req = ''sync_hosts'' then sync_hosts env d (rq_hosts req)
      else if rq_op req = ''ensure_relay'' then ensure_relay env d
      else if rq_op req = ''trust_ca'' then (d, trust_ca env)
      else if rq_op req = ''relay_status'' then (d, relay_status env d)
      else (d, reply_err (UnknownOp (rq_op req))))"

text \<open>A connection: the peer's user id (\<open>None\<close>: unknown) and the decoded message (\<open>None\<close>: malformed).\<close>

definition handle_conn :: "os_env \<Rightarrow> int \<Rightarrow> daemon \<Rightarrow> int option \<Rightarrow> request option \<Rightarrow> daemon \<times> reply" where
  "handle_conn env owner d peer msg =
     (if peer \<noteq> Some owner then (d, reply_err UnauthorizedPeer)
      else case msg of None \<Rightarrow> (d, reply_err BadRequest) | Some req \<Rightarrow> handle env d req)"

section \<open>Start of the daemon\<close>

fun dedupe_from :: "string list \<Rightarrow> string list \<Rightarrow> string list" where
  "dedupe_from seen [] = []"
| "dedupe_from seen (s # ss) = (if s \<in> set seen then dedupe_from seen ss else s # dedupe_from (s # seen) ss)"

definition dedupe :: "string list \<Rightarrow> string list" where
  "dedupe ss = dedupe_from [] ss"

text \<open>The hosts \<open>reconcile\<close> provisions; \<open>certs_ok\<close> is the outcome of \<open>localca.Ensure\<close>.\<close>

definition reconcile_hosts :: "os_env \<Rightarrow> project_registry \<Rightarrow> string list" where
  "reconcile_hosts env rg =
     dedupe (all_local_host_fqdns rg @ (if primary_tld env = ''localhost'' then [''localhost''] else []))"

definition reconcile :: "os_env \<Rightarrow> bool \<Rightarrow> daemon \<Rightarrow> daemon \<times> bool" where
  "reconcile env certs_ok d =
     (case registry_file env of
        None \<Rightarrow> (d, False)
      | Some rg \<Rightarrow>
          let hosts = reconcile_hosts env rg in
          if hosts = [] then (d, True)
          else if \<not> certs_ok then (d, False)
          else case write_managed_block env (d_hosts d) (render_block hosts) of
            None \<Rightarrow> (d, False)
          | Some content \<Rightarrow> (d\<lparr>d_hosts := content\<rparr>, True))"

text \<open>\<open>RunDaemon\<close> up to the point where it serves the socket.\<close>

definition daemon_start :: "os_env \<Rightarrow> bool \<Rightarrow> string \<Rightarrow> daemon" where
  "daemon_start env certs_ok file =
     (let d = fst (reconcile env certs_ok \<lparr>d_hosts = file, d_relay = None\<rparr>);
          r = (if primary_tld env \<noteq> [] then fst (sup_ensure (relay_starts env) (primary_tld env) new_supervisor) else new_supervisor)
      in d\<lparr>d_relay := Some r\<rparr>)"

end
