(* ===== verification/HelperProps.thy ===== *)
theory HelperProps
  imports Helper
begin

text \<open>
  What the privileged helper guarantees about \<open>/etc/hosts\<close>: which requests change it, which
  lines they can put there, and that the lines outside the managed block survive.
\<close>

section \<open>Names\<close>

lemma host_label_match: "rx_match host_label_rx s \<longleftrightarrow> dns_label s \<and> length s \<le> 63"
  by (simp add: host_label_rx_def label_rx_dns)

lemma valid_hostname_iff:
  "valid_hostname h \<longleftrightarrow> h \<noteq> [] \<and> length h \<le> 253 \<and> (\<forall>l\<in>set (str_split CHR ''.'' h). dns_label l \<and> length l \<le> 63)"
  by (auto simp: valid_hostname_def host_label_match list_all_iff)

lemma str_split_covers: "c \<in> set s \<Longrightarrow> c = d \<or> (\<exists>w\<in>set (str_split d s). c \<in> set w)"
proof (induction d s rule: str_split.induct)
  case (2 d x s)
  then show ?case by (cases "str_split d s") auto
qed simp

lemma valid_hostname_chars: "valid_hostname h \<Longrightarrow> c \<in> set h \<Longrightarrow> is_dotted_char c"
proof -
  assume v: "valid_hostname h" and c: "c \<in> set h"
  have "c = CHR ''.'' \<or> (\<exists>w\<in>set (str_split CHR ''.'' h). c \<in> set w)" using str_split_covers c by blast
  then show ?thesis using v by (auto simp: valid_hostname_iff dns_label_def is_dotted_char_def is_label_char_def)
qed

text \<open>An entry the validation lets through for a set of TLDs.\<close>

definition entry_ok :: "string list \<Rightarrow> string \<Rightarrow> bool" where
  "entry_ok allowed e \<longleftrightarrow> e \<noteq> [] \<and>
     (e = ''localhost'' \<and> ''localhost'' \<in> set allowed \<or> valid_hostname e \<and> host_matches_any_tld e allowed)"

lemma validate_entries_step:
  "validate_entries allowed seen (e # es) = None \<longleftrightarrow>
     e \<noteq> [] \<and> (if e \<in> set seen then validate_entries allowed seen es = None
       else entry_ok allowed e \<and> validate_entries allowed (e # seen) es = None)"
  unfolding validate_entries.simps entry_ok_def by (cases "e = ''localhost''"; cases "''localhost'' \<in> set allowed") simp_all

lemma validate_entries_None: "validate_entries allowed seen es = None \<longleftrightarrow> [] \<notin> set es \<and> (\<forall>e\<in>set es. e \<in> set seen \<or> entry_ok allowed e)"
proof (induction es arbitrary: seen)
  case (Cons e es)
  have "entry_ok allowed e \<Longrightarrow> e \<noteq> []" by (simp add: entry_ok_def)
  then show ?case using Cons unfolding validate_entries_step by auto
qed simp

lemma validate_hosts_None:
  "validate_hosts es allowed = None \<longleftrightarrow> length es \<le> max_hosts \<and> (\<forall>e\<in>set es. entry_ok allowed e)"
  by (auto simp: validate_hosts_def validate_entries_None entry_ok_def)

lemma entry_ok_no_nl: "entry_ok allowed e \<Longrightarrow> nl \<notin> set e"
  using valid_hostname_chars [of e nl]
  by (auto simp: entry_ok_def is_dotted_char_def is_alnum_def is_lower_def is_digit_def)

lemma distinct_local_tlds_set: "set (distinct_local_tlds seen ps) = {p_tld p | p. p \<in> set ps \<and> p_local p} - set seen"
  by (induction seen ps rule: distinct_local_tlds.induct) auto

lemma allowed_tlds_set:
  "set (allowed_tlds env) = (case registry_file env of None \<Rightarrow> {} | Some rg \<Rightarrow> {p_tld p | p. p \<in> snd ` set rg \<and> p_local p})"
  by (auto simp: allowed_tlds_def distinct_local_tlds_set split: option.splits)

section \<open>Requests\<close>

lemma merged_kept: "is_block b \<Longrightarrow> kept_content (merge_hosts_block file b) = pad_content (kept_content file)"
  by (rule kept_after_merge)

lemma write_hosts_content: "(case write_hosts file b of None \<Rightarrow> file | Some c \<Rightarrow> c) = merge_hosts_block file b"
  by (simp add: write_hosts_def Let_def)

lemma write_managed_content: "write_managed_block env file b = Some c \<Longrightarrow> c = merge_hosts_block file b"
  by (auto simp: write_managed_block_def write_hosts_def Let_def split: if_splits)

lemma ensure_relay_hosts: "d_hosts (fst (ensure_relay env d)) = d_hosts d"
  by (auto simp: ensure_relay_def Let_def split: option.splits prod.splits)

lemma sync_hosts_cases:
  "sync_hosts env d hs = (d', rep) \<Longrightarrow>
     d_hosts d' = d_hosts d \<and> \<not> rp_ok rep \<or>
     validate_hosts hs (allowed_tlds env) = None \<and> d_hosts d' = merge_hosts_block (d_hosts d) (render_block hs)"
  using write_managed_content [of env "d_hosts d" "render_block hs"]
  by (auto simp: sync_hosts_def reply_err_def Let_def split: option.splits if_splits prod.splits)

lemma handle_hosts_cases:
  assumes "handle_conn env owner d peer msg = (d', rep)"
  shows "d_hosts d' = d_hosts d \<and> \<not> (rp_ok rep \<and> (\<exists>hs. msg = Some \<lparr>rq_op = ''sync_hosts'', rq_hosts = hs\<rparr>)) \<or>
    (\<exists>hs. peer = Some owner \<and> msg = Some \<lparr>rq_op = ''sync_hosts'', rq_hosts = hs\<rparr> \<and>
      validate_hosts hs (allowed_tlds env) = None \<and> d_hosts d' = merge_hosts_block (d_hosts d) (render_block hs))"
proof (cases "peer = Some owner \<and> (\<exists>hs. msg = Some \<lparr>rq_op = ''sync_hosts'', rq_hosts = hs\<rparr>)")
  case True
  then obtain hs where m: "peer = Some owner" "msg = Some \<lparr>rq_op = ''sync_hosts'', rq_hosts = hs\<rparr>" by blast
  then have "sync_hosts env d hs = (d', rep)" using assms by (simp add: handle_conn_def handle_def)
  from sync_hosts_cases [OF this] show ?thesis using m by auto
next
  case False
  then have ns: "msg = Some rq \<Longrightarrow> peer = Some owner \<Longrightarrow> rq_op rq \<noteq> ''sync_hosts''" for rq by (cases rq) auto
  have "d_hosts d' = d_hosts d"
    using assms ns ensure_relay_hosts [of env d]
    by (auto simp: handle_conn_def handle_def split: if_splits option.splits)
  moreover have "\<not> (rp_ok rep \<and> (\<exists>hs. msg = Some \<lparr>rq_op = ''sync_hosts'', rq_hosts = hs\<rparr>))"
    using False assms by (auto simp: handle_conn_def reply_err_def)
  ultimately show ?thesis by blast
qed

text \<open>
  C21: only a sync request of the owner of the state directory changes \<open>/etc/hosts\<close>. Then every
  line of the new file is blank, a line that was there outside the managed block, a marker of the
  block, or a loopback entry for a requested host that is a valid name under the TLD of a
  registered local project; the text outside the block is kept, and after a successful reply every
  requested host has its line.
\<close>

theorem helper_hosts_safe:
  assumes call: "handle_conn env owner d peer msg = (d', rep)"
  shows "(d_hosts d' = d_hosts d \<or>
    (\<exists>hs. peer = Some owner \<and> msg = Some \<lparr>rq_op = ''sync_hosts'', rq_hosts = hs\<rparr> \<and>
       (\<forall>l\<in>set (str_split nl (d_hosts d')).
          l \<in> {[], hosts_begin, hosts_end} \<or> l \<in> set (strip_block False (str_split nl (d_hosts d))) \<or>
          (\<exists>h\<in>set hs. l = entry_line h \<and> (h = ''localhost'' \<or> valid_hostname h) \<and>
             (\<exists>rg. registry_file env = Some rg \<and>
                (\<exists>p\<in>snd ` set rg. p_local p \<and> (h = p_tld p \<or> has_suffix h (''.'' @ p_tld p)))))))) \<and>
    (d_hosts d' \<noteq> d_hosts d \<longrightarrow> kept_content (d_hosts d') = pad_content (kept_content (d_hosts d))) \<and>
    (\<forall>hs. msg = Some \<lparr>rq_op = ''sync_hosts'', rq_hosts = hs\<rparr> \<and> rp_ok rep \<longrightarrow>
       (\<forall>h\<in>set hs. entry_line h \<in> set (str_split nl (d_hosts d'))))"
proof (cases "d_hosts d' = d_hosts d \<and> \<not> (rp_ok rep \<and> (\<exists>hs. msg = Some \<lparr>rq_op = ''sync_hosts'', rq_hosts = hs\<rparr>))")
  case False
  with handle_hosts_cases [OF call] obtain hs where
    sync: "peer = Some owner" "msg = Some \<lparr>rq_op = ''sync_hosts'', rq_hosts = hs\<rparr>"
      "validate_hosts hs (allowed_tlds env) = None" "d_hosts d' = merge_hosts_block (d_hosts d) (render_block hs)"
    by blast
  let ?al = "allowed_tlds env" and ?b = "render_block hs"
  have ok: "\<forall>h\<in>set hs. entry_ok ?al h" using sync(3) by (simp add: validate_hosts_None)
  then have plain: "\<forall>h\<in>set hs. nl \<notin> set h" using entry_ok_no_nl by blast
  have al: "\<exists>rg. registry_file env = Some rg \<and> (\<exists>p\<in>snd ` set rg. p_local p \<and> (h = p_tld p \<or> has_suffix h (''.'' @ p_tld p)))"
    if mem: "h \<in> set hs" for h
  proof -
    obtain t where t: "t \<in> set ?al" "h = t \<or> has_suffix h (''.'' @ t)"
      using ok mem by (auto simp: entry_ok_def host_matches_any_tld_def list_ex_iff)
    then obtain rg p where "registry_file env = Some rg" "p \<in> snd ` set rg" "p_local p" "t = p_tld p"
      using allowed_tlds_set [of env] by (auto split: option.splits)
    then show ?thesis using t(2) by blast
  qed
  have lines: "l \<in> {[], hosts_begin, hosts_end} \<or> l \<in> set (strip_block False (str_split nl (d_hosts d))) \<or> (\<exists>h\<in>set hs. l = entry_line h)"
    if "l \<in> set (str_split nl (d_hosts d'))" for l
  proof -
    have "l \<in> set (str_split nl (pad_content (kept_content (d_hosts d)))) \<or> l \<in> set (str_split nl ?b)"
      using that merged_lines(2) [of "d_hosts d" "?b"] by (auto simp: sync(4))
    then show ?thesis using pad_lines [of l "d_hosts d"] block_lines [OF plain] by (auto split: if_splits)
  qed
  have entries: "entry_line h \<in> set (str_split nl (d_hosts d'))" if "h \<in> set hs" for h
  proof -
    have "h \<noteq> []" using ok that by (auto simp: entry_ok_def)
    then have "h \<in> set (fresh_entries [] hs)" using that by (simp add: fresh_entries_mem)
    then have "fresh_entries [] hs \<noteq> []" by auto
    then have "entry_line h \<in> set (str_split nl ?b)" using block_lines [OF plain] that \<open>h \<noteq> []\<close> by simp
    then show ?thesis using merged_lines(1) [of "?b" "d_hosts d"] by (auto simp: sync(4))
  qed
  have named: "h = ''localhost'' \<or> valid_hostname h" if "h \<in> set hs" for h using ok that by (auto simp: entry_ok_def)
  have "\<forall>l\<in>set (str_split nl (d_hosts d')).
      l \<in> {[], hosts_begin, hosts_end} \<or> l \<in> set (strip_block False (str_split nl (d_hosts d))) \<or>
      (\<exists>h\<in>set hs. l = entry_line h \<and> (h = ''localhost'' \<or> valid_hostname h) \<and>
         (\<exists>rg. registry_file env = Some rg \<and> (\<exists>p\<in>snd ` set rg. p_local p \<and> (h = p_tld p \<or> has_suffix h (''.'' @ p_tld p)))))"
    using lines named al by metis
  moreover have "kept_content (d_hosts d') = pad_content (kept_content (d_hosts d))"
    unfolding sync(4) by (rule kept_after_merge [OF render_is_block [OF plain]])
  ultimately show ?thesis using sync(1,2) entries by simp
qed auto

definition demo_os :: os_env where
  "demo_os = \<lparr>registry_file = Some [(''app'', new_project ''t'' ''app'' ''/w/app'' ''dev'' True [''app''] [] False)],
     hosts_readable = True, hosts_writable = True, relay_starts = True, ca_present = True, ca_trusted = True,
     trust_works = True, healthy = (\<lambda>_. True), daemon_pid = 7\<rparr>"

theorem helper_hosts_safe_witness:
  "\<exists>d'. handle_conn demo_os 501 \<lparr>d_hosts = ''127.0.0.1 localhost'' @ [nl], d_relay = None\<rparr> (Some 501)
       (Some \<lparr>rq_op = ''sync_hosts'', rq_hosts = [''app.dev'']\<rparr>) = (d', reply_ok) \<and>
     entry_line ''app.dev'' \<in> set (str_split nl (d_hosts d'))"
proof -
  let ?d = "\<lparr>d_hosts = ''127.0.0.1 localhost'' @ [nl], d_relay = None\<rparr>"
  let ?m = "\<lparr>rq_op = ''sync_hosts'', rq_hosts = [''app.dev'']\<rparr>"
  have ok: "snd (handle_conn demo_os 501 ?d (Some 501) (Some ?m)) = reply_ok" by code_simp
  obtain d' rep where c: "handle_conn demo_os 501 ?d (Some 501) (Some ?m) = (d', rep)" by (metis surj_pair)
  then have "rep = reply_ok" using ok by simp
  moreover have "rp_ok rep" using \<open>rep = reply_ok\<close> by (simp add: reply_ok_def)
  ultimately show ?thesis using c helper_hosts_safe [OF c] by simp
qed

section \<open>Repeated writes\<close>

definition apply_write :: "string \<Rightarrow> string option \<Rightarrow> string" where
  "apply_write file w = (case w of None \<Rightarrow> file | Some content \<Rightarrow> content)"

lemma apply_write_hosts: "apply_write file (write_hosts file b) = merge_hosts_block file b"
  by (simp add: apply_write_def write_hosts_content)

text \<open>
  The block is replaced, never accumulated: after any sequence of syncs the file is what the
  last one alone would have made of the original, writing the same block again leaves the file
  alone, and removing the block after any sync gives the file without the block.
\<close>

theorem hosts_last_write_wins:
  assumes names: "\<forall>es\<in>set ess. \<forall>e\<in>set es. nl \<notin> set e" "\<forall>e\<in>set es. nl \<notin> set e"
    and run: "f = foldl (\<lambda>f es. apply_write f (write_hosts f (render_block es))) f0 ess"
  shows "apply_write f (write_hosts f (render_block es)) = merge_hosts_block f0 (render_block es) \<and>
    write_hosts (merge_hosts_block f0 (render_block es)) (render_block es) = None \<and>
    apply_write f (remove_hosts_content f) = pad_content (kept_content f0)"
proof -
  have "merge_hosts_block f b = merge_hosts_block f0 b" for b
    using names(1) unfolding run
  proof (induction ess arbitrary: f0)
    case (Cons x ess)
    then show ?case by (simp add: apply_write_hosts merge_merge render_is_block)
  qed simp
  moreover have "merge_hosts_block (merge_hosts_block f0 (render_block es)) (render_block es) = merge_hosts_block f0 (render_block es)"
    using names(2) by (simp add: merge_merge render_is_block)
  ultimately show ?thesis
    by (simp add: apply_write_hosts remove_hosts_content_def merge_pad_kept [of f0 "[]"]) (simp add: write_hosts_def)
qed

theorem hosts_last_write_wins_witness:
  "apply_write (merge_hosts_block ''a'' (render_block [''c.dev''])) (write_hosts (merge_hosts_block ''a'' (render_block [''c.dev''])) (render_block [''b.dev'']))
     = merge_hosts_block ''a'' (render_block [''b.dev''])"
  using hosts_last_write_wins [of "[[''c.dev'']]" "[''b.dev'']" "merge_hosts_block ''a'' (render_block [''c.dev''])" "''a''"]
  by (simp add: apply_write_hosts)

section \<open>The daemon and the registry\<close>

lemma registered_names_matched:
  assumes "registry_file env = Some rg" "p \<in> snd ` set rg" "h \<in> set (local_names p)"
  shows "host_matches_any_tld h (allowed_tlds env)"
proof -
  have "p_tld p \<in> set (allowed_tlds env)" "has_suffix h (''.'' @ p_tld p)"
    using assms allowed_tlds_set [of env] by (auto simp: local_names_def fqdn_def has_suffix_iff split: if_splits)
  then show ?thesis by (auto simp: host_matches_any_tld_def list_ex_iff)
qed

text \<open>
  C35: the daemon accepts the hosts the CLI collects from the registry exactly when there are at
  most 5000 and each is a valid host name. One project with a host such as \<open>app.\<close>, which the
  manifest accepts, therefore makes every sync fail, for the other projects too.
\<close>

theorem registered_hosts_accepted:
  assumes reg: "registry_file env = Some rg"
  shows "(validate_hosts (all_local_host_fqdns rg) (allowed_tlds env) = None \<longleftrightarrow>
      length (all_local_host_fqdns rg) \<le> max_hosts \<and> (\<forall>p\<in>snd ` set rg. \<forall>h\<in>set (local_names p). valid_hostname h)) \<and>
    (\<forall>p h. p \<in> snd ` set rg \<and> p_local p \<and> h @ ''.'' \<in> set (p_hosts p) \<longrightarrow>
       (\<forall>d. rp_error (snd (sync_hosts env d (all_local_host_fqdns rg))) \<noteq> None \<and> fst (sync_hosts env d (all_local_host_fqdns rg)) = d))"
proof -
  have "entry_ok (allowed_tlds env) h \<longleftrightarrow> valid_hostname h" if "p \<in> snd ` set rg" "h \<in> set (local_names p)" for p h
  proof -
    have "h \<noteq> ''localhost''" "h \<noteq> []"
      using that by (auto simp: local_names_def fqdn_def append_eq_Cons_conv split: if_splits dest: arg_cong [where f = "\<lambda>s. CHR ''.'' \<in> set s"])
    then show ?thesis using registered_names_matched [OF reg that] by (simp add: entry_ok_def)
  qed
  then have acc: "validate_hosts (all_local_host_fqdns rg) (allowed_tlds env) = None \<longleftrightarrow>
      length (all_local_host_fqdns rg) \<le> max_hosts \<and> (\<forall>p\<in>snd ` set rg. \<forall>h\<in>set (local_names p). valid_hostname h)"
    by (auto simp: validate_hosts_None all_local_exact)
  have bad: "\<not> valid_hostname (fqdn (h @ ''.'') t)" for h t
  proof -
    have "str_split CHR ''.'' (h @ CHR ''.'' # CHR ''.'' # t) = str_split CHR ''.'' h @ [] # str_split CHR ''.'' t"
      by (simp add: str_split_append_sep)
    then have "[] \<in> set (str_split CHR ''.'' (fqdn (h @ ''.'') t))" by (simp add: fqdn_def)
    then show ?thesis by (auto simp: valid_hostname_iff dns_label_def)
  qed
  have "rp_error (snd (sync_hosts env d (all_local_host_fqdns rg))) \<noteq> None \<and> fst (sync_hosts env d (all_local_host_fqdns rg)) = d"
    if "p \<in> snd ` set rg" "p_local p" "h @ ''.'' \<in> set (p_hosts p)" for p h d
  proof -
    have "fqdn (h @ ''.'') (p_tld p) \<in> set (local_names p)" using that by (auto simp: local_names_def)
    then have "validate_hosts (all_local_host_fqdns rg) (allowed_tlds env) \<noteq> None" using acc bad that(1) by blast
    then show ?thesis by (auto simp: sync_hosts_def reply_err_def)
  qed
  then show ?thesis using acc by blast
qed

theorem registered_hosts_accepted_witness:
  "validate_hosts (all_local_host_fqdns [(''app'', new_project ''t'' ''app'' ''/w/app'' ''dev'' True [''app''] [] False)]) (allowed_tlds demo_os) = None"
proof -
  let ?rg = "[(''app'', new_project ''t'' ''app'' ''/w/app'' ''dev'' True [''app''] [] False)]"
  have "registry_file demo_os = Some ?rg" by (simp add: demo_os_def)
  moreover have "length (all_local_host_fqdns ?rg) \<le> max_hosts" by code_simp
  moreover have "\<forall>p\<in>snd ` set ?rg. \<forall>h\<in>set (local_names p). valid_hostname h" by code_simp
  ultimately show ?thesis using registered_hosts_accepted by blast
qed

lemma primary_loop_remote: "\<forall>p\<in>snd ` set rg. \<not> p_local p \<Longrightarrow> primary_loop rg [] ns = default_local_tld"
proof (induction ns)
  case (Cons n ns)
  then show ?case by (cases "map_of rg n") (force dest: map_of_SomeD)+
qed simp

text \<open>
  With any project registered the daemon never answers that there is no local project: when
  none is local it starts a relay for \<open>dev\<close>, as root on port 443, for nobody.
\<close>

theorem relay_without_local_projects:
  assumes reg: "registry_file env = Some rg" and ne: "rg \<noteq> []" and remote: "\<forall>p\<in>snd ` set rg. \<not> p_local p"
    and d: "d_relay d = Some new_supervisor" and starts: "relay_starts env"
  shows "snd (ensure_relay env d) = reply_ok\<lparr>rp_tld := ''dev''\<rparr> \<and>
    (\<exists>r. d_relay (fst (ensure_relay env d)) = Some r \<and> sup_status r = (''dev'', True)) \<and> allowed_tlds env = []"
proof -
  have t: "primary_tld env = ''dev''"
    using reg ne primary_loop_remote [OF remote] by (simp add: primary_tld_def primary_local_tld_def default_local_tld_def)
  have "snd (sup_ensure True ''dev'' new_supervisor)" by (simp add: sup_ensure_def Let_def)
  moreover have "sup_status (fst (sup_ensure True ''dev'' new_supervisor)) = (''dev'', True)"
    by (rule ensure_runs) (simp add: sup_ensure_def Let_def)
  moreover have "set (allowed_tlds env) = {}" using reg remote by (auto simp: allowed_tlds_set)
  ultimately show ?thesis using d starts t by (simp add: ensure_relay_def case_prod_unfold Let_def)
qed

theorem relay_without_local_projects_witness:
  "snd (ensure_relay (demo_os\<lparr>registry_file := Some [(''app'', new_project ''t'' ''app'' ''/w/app'' ''f43.run'' False [''app''] [] False)]\<rparr>)
     \<lparr>d_hosts = [], d_relay = Some new_supervisor\<rparr>) = reply_ok\<lparr>rp_tld := ''dev''\<rparr>"
  by (rule relay_without_local_projects
      [of _ "[(''app'', new_project ''t'' ''app'' ''/w/app'' ''f43.run'' False [''app''] [] False)]", THEN conjunct1])
    (simp_all add: demo_os_def new_project_def)

end
