(* ===== verification/Doctor.thy ===== *)
theory Doctor
  imports HelperProps Preview
begin

text \<open>
  \<open>cli/internal/doctor/doctor.go\<close>: the diagnoses of \<open>roxey doctor\<close>. A message is a constructor
  with the values it prints; whether a remedy is printed with it is a flag. What the machine
  answers (files, processes, ports, name resolution) is the record \<open>probe\<close>.
\<close>

section \<open>Reports\<close>

datatype status = StOk | StWarn | StFail

datatype diagnosis =
    ConfigUnreadable | NoServers | LocalKeyMissing string | KeyMissing string | KeySaved string
  | TunnelsUnreadable | StaleTunnel string int | TunnelsAlive nat | ServicesUnreadable | StaleService string int
  | RelayOverrideMissing string | RelayOverride string | RelayBinary | RelayNotDownloaded
  | CaFileMissing | CaTrusted | CaNotTrusted
  | RelayHealthy string | PortTaken string | RelayNotRunning string
  | HostsUnreadable | HostsMissing string | HostsPresent string | HostsPacked nat
  | HelperReachable | HelperSocketDead | HelperMissing
  | HostUnresolved string | HostResolves string string | HostUnreachable string | HostReachable string | TlsFailed string | TlsOk string
  | ManifestKeyMissing string | CwdMissing string string | ShellCommand string string | CommandMissing string string
  | CommandFound string string | PortOurs string int string | PortBound string int | PortFree string int
  | TargetDown string | TargetUp string

record diagnostic =
  dg_status :: status
  dg_msg :: diagnosis
  dg_fix :: bool

definition okf :: "diagnosis \<Rightarrow> diagnostic" where "okf m = \<lparr>dg_status = StOk, dg_msg = m, dg_fix = False\<rparr>"
definition warnf :: "bool \<Rightarrow> diagnosis \<Rightarrow> diagnostic" where "warnf fix m = \<lparr>dg_status = StWarn, dg_msg = m, dg_fix = fix\<rparr>"
definition failf :: "diagnosis \<Rightarrow> diagnostic" where "failf m = \<lparr>dg_status = StFail, dg_msg = m, dg_fix = True\<rparr>"

definition report_failed :: "diagnostic list \<Rightarrow> bool" where
  "report_failed rs = list_ex (\<lambda>r. dg_status r = StFail) rs"

section \<open>The managed block\<close>

definition hosts_per_line_warn :: nat where "hosts_per_line_warn = 32"

record managed =
  mg_hosts :: "string list"
  mg_max :: nat
  mg_in_block :: bool

definition managed_line :: "managed \<Rightarrow> string \<Rightarrow> managed" where
  "managed_line st raw =
     (let line = trim_space raw in
      if line = hosts_begin then st\<lparr>mg_in_block := True\<rparr>
      else if line = hosts_end then st\<lparr>mg_in_block := False\<rparr>
      else if \<not> mg_in_block st \<or> line = [] \<or> has_prefix line ''#'' then st
      else
        let fields = str_fields line in
        if length fields < 2 then st
        else
          let aliases = drop 1 fields in
          st\<lparr>mg_max := max (mg_max st) (length aliases), mg_hosts := mg_hosts st @ map to_lower aliases\<rparr>)"

text \<open>The lines of \<open>bufio.Scanner\<close>: a final newline ends the last line, it does not start another.\<close>

definition scan_lines :: "string \<Rightarrow> string list" where
  "scan_lines s = (let ls = str_split nl s in if last ls = [] then butlast ls else ls)"

definition parse_managed_hosts :: "string \<Rightarrow> string list \<times> nat" where
  "parse_managed_hosts content =
     (let st = foldl managed_line \<lparr>mg_hosts = [], mg_max = 0, mg_in_block = False\<rparr> (scan_lines content)
      in (mg_hosts st, mg_max st))"

text \<open>\<open>hosts\<close>: the content of \<open>/etc/hosts\<close>, \<open>None\<close> when it cannot be read.\<close>

definition check_hosts_block :: "(string \<Rightarrow> bool) \<Rightarrow> string option \<Rightarrow> string \<Rightarrow> diagnostic list" where
  "check_hosts_block is_ip hosts tld =
     (case hosts of
        None \<Rightarrow> [warnf False HostsUnreadable]
      | Some content \<Rightarrow>
          let (found, maxAliases) = parse_managed_hosts content;
              missing = filter (\<lambda>e. to_lower e \<notin> set found) (hosts_entries is_ip tld [])
          in map (\<lambda>e. failf (HostsMissing e)) missing @
             (if missing = [] then [okf (HostsPresent tld)] else []) @
             (if maxAliases > hosts_per_line_warn then [warnf True (HostsPacked maxAliases)] else []))"

section \<open>The relays\<close>

text \<open>\<open>portOwner\<close> from what \<open>lsof\<close> prints (\<open>None\<close>: it failed): command and process id of its first row.\<close>

definition port_owner :: "string option \<Rightarrow> string" where
  "port_owner out =
     (case out of None \<Rightarrow> []
      | Some text \<Rightarrow>
          (case str_split CHR 0x0A (trim_space text) of
             _ # row # _ \<Rightarrow> (case str_fields row of cmd # pid # _ \<Rightarrow> cmd @ '' (pid '' @ pid @ '')'' | _ \<Rightarrow> [])
           | _ \<Rightarrow> []))"

record probe =
  pr_relay_bin :: string
  pr_exists :: "string \<Rightarrow> bool"
  pr_bin_executable :: bool
  pr_ca_exists :: bool
  pr_ca_trusted :: bool
  pr_health :: "string \<Rightarrow> bool"
  pr_port443 :: bool
  pr_lsof443 :: "string option"
  pr_hosts :: "string option"
  pr_is_ip :: "string \<Rightarrow> bool"
  pr_helper :: bool
  pr_daemon :: bool
  pr_resolve :: "string \<Rightarrow> string list"
  pr_reach :: "string \<Rightarrow> bool"
  pr_tls :: "string \<Rightarrow> bool"
  pr_dir :: "string \<Rightarrow> bool"
  pr_on_path :: "string \<Rightarrow> bool"
  pr_port :: "int \<Rightarrow> bool"

definition check_local_relay :: "probe \<Rightarrow> string \<Rightarrow> diagnostic list" where
  "check_local_relay pr tld =
     [if pr_relay_bin pr \<noteq> [] then
        (if pr_exists pr (pr_relay_bin pr) then okf (RelayOverride (pr_relay_bin pr)) else failf (RelayOverrideMissing (pr_relay_bin pr)))
      else if pr_bin_executable pr then okf RelayBinary else warnf True RelayNotDownloaded,
      if \<not> pr_ca_exists pr then failf CaFileMissing else if pr_ca_trusted pr then okf CaTrusted else failf CaNotTrusted,
      if pr_health pr tld then okf (RelayHealthy tld)
      else if pr_port443 pr then failf (PortTaken (port_owner (pr_lsof443 pr))) else failf (RelayNotRunning tld)] @
     check_hosts_block (pr_is_ip pr) (pr_hosts pr) tld"

definition check_helper :: "probe \<Rightarrow> diagnostic list" where
  "check_helper pr =
     (if pr_helper pr then [okf HelperReachable]
      else if pr_daemon pr then [failf HelperSocketDead] else [warnf True HelperMissing])"

definition check_remote_relay :: "probe \<Rightarrow> string \<Rightarrow> diagnostic list" where
  "check_remote_relay pr tld =
     (let host = relay_host tld in
      case pr_resolve pr host of
        [] \<Rightarrow> [failf (HostUnresolved host)]
      | ip # _ \<Rightarrow> okf (HostResolves host ip) #
          (if \<not> pr_reach pr (join_host_port host ''443'') then [failf (HostUnreachable host)]
           else okf (HostReachable host) # [if pr_tls pr host then okf (TlsOk host) else failf (TlsFailed host)]))"

section \<open>Manifests\<close>

record run_check =
  rk_name :: string
  rk_cwd :: string
  rk_command :: string
  rk_port :: int

record manifest_info =
  mi_tld :: string
  mi_local :: bool
  mi_has_key :: bool
  mi_skip :: bool
  mi_owned :: "(int, string) gomap"
  mi_runs :: "run_check list"
  mi_targets :: "string list"

definition first_word :: "string \<Rightarrow> string" where
  "first_word cmdline = (case str_fields cmdline of [] \<Rightarrow> [] | w # _ \<Rightarrow> w)"

definition normalize_target :: "string \<Rightarrow> string" where
  "normalize_target t0 =
     (let t = trim_prefix (trim_prefix t0 ''http://'') ''https://''
      in if \<not> str_contains t '':'' then ''localhost:'' @ t else t)"

definition check_run :: "probe \<Rightarrow> manifest_info \<Rightarrow> run_check \<Rightarrow> diagnostic list" where
  "check_run pr mi rr =
     (if pr_dir pr (rk_cwd rr) then [] else [failf (CwdMissing (rk_name rr) (rk_cwd rr))]) @
     (let first = first_word (rk_command rr) in
      [if first = ''bash'' \<or> first = ''sh'' then okf (ShellCommand (rk_name rr) first)
       else if \<not> pr_on_path pr first then failf (CommandMissing (rk_name rr) first)
       else okf (CommandFound (rk_name rr) first)]) @
     [if pr_port pr (rk_port rr) then
        (case map_of (mi_owned mi) (rk_port rr) of
           Some owner \<Rightarrow> okf (PortOurs (rk_name rr) (rk_port rr) owner)
         | None \<Rightarrow> failf (PortBound (rk_name rr) (rk_port rr)))
      else okf (PortFree (rk_name rr) (rk_port rr))]"

definition check_target :: "probe \<Rightarrow> string \<Rightarrow> diagnostic" where
  "check_target pr target =
     (let addr = normalize_target target in if pr_reach pr addr then okf (TargetUp addr) else warnf True (TargetDown addr))"

definition check_manifest :: "probe \<Rightarrow> manifest_info \<Rightarrow> diagnostic list" where
  "check_manifest pr mi =
     (if mi_tld mi = [] then []
      else
        (if mi_local mi \<and> \<not> mi_skip mi then check_local_relay pr (mi_tld mi)
         else if \<not> mi_local mi \<and> \<not> mi_skip mi \<and> \<not> mi_has_key mi then [failf (ManifestKeyMissing (mi_tld mi))] else []) @
        concat (map (check_run pr mi) (mi_runs mi)) @ map (check_target pr) (mi_targets mi))"

section \<open>What the doctor reads of the block\<close>

lemma valid_hostname_edges: "valid_hostname h \<Longrightarrow> h \<noteq> [] \<and> (\<forall>c\<in>set h. \<not> is_space c \<and> \<not> is_upper c)"
  using valid_hostname_chars [of h]
  by (fastforce simp: valid_hostname_iff is_dotted_char_def is_alnum_def is_lower_def is_digit_def is_space_def is_upper_def)

lemma loopback_plain: "\<forall>c\<in>set ''127.0.0.1''. \<not> is_space c" "is_space CHR '' ''" "\<not> is_space CHR ''1''"
  by code_simp+

lemma fields_entry: "valid_hostname h \<Longrightarrow> str_fields (entry_line h) = [''127.0.0.1'', h]"
proof -
  assume "valid_hostname h"
  then have h: "h \<noteq> []" "\<forall>c\<in>set h. \<not> is_space c" using valid_hostname_edges by blast+
  have "fields_acc (''127.0.0.1'' @ CHR '' '' # h) [] = fields_acc (CHR '' '' # h) (rev ''127.0.0.1'' @ [])"
    by (rule fields_acc_word [OF loopback_plain(1)])
  also have "\<dots> = ''127.0.0.1'' # fields_acc h []" using loopback_plain(2) by simp
  also have "fields_acc h [] = [h]" using fields_acc_word [OF h(2), of "[]" "[]"] h(1) by simp
  finally show ?thesis by (simp add: str_fields_def entry_line_def)
qed

lemma trim_entry: "valid_hostname h \<Longrightarrow> trim_space (entry_line h) = entry_line h"
  unfolding trim_space_def
  using valid_hostname_edges [of h] loopback_plain(3)
  by (intro trim_both_id) (simp add: entry_line_def)

lemma entry_line_no_marker: "entry_line h \<noteq> hosts_begin" "entry_line h \<noteq> hosts_end" "entry_line h \<noteq> []" "\<not> has_prefix (entry_line h) ''#''"
  by (simp_all add: entry_line_def hosts_begin_def hosts_end_def)

lemma managed_entry:
  "valid_hostname h \<Longrightarrow> mg_in_block st \<Longrightarrow>
     managed_line st (entry_line h) = st\<lparr>mg_max := max (mg_max st) 1, mg_hosts := mg_hosts st @ [h]\<rparr>"
proof -
  assume v: "valid_hostname h" and b: "mg_in_block st"
  have "to_lower h = h" using valid_hostname_edges [OF v] by (simp add: to_lower_id)
  then show ?thesis using b entry_line_no_marker by (simp add: managed_line_def trim_entry [OF v] fields_entry [OF v] Let_def)
qed

lemma managed_entries:
  "\<forall>h\<in>set hs. valid_hostname h \<Longrightarrow> mg_in_block st \<Longrightarrow>
     foldl managed_line st (map entry_line hs) =
       st\<lparr>mg_max := (if hs = [] then mg_max st else max (mg_max st) 1), mg_hosts := mg_hosts st @ hs\<rparr>"
  by (induction hs arbitrary: st) (auto simp: managed_entry)

lemma trim_markers: "trim_space hosts_begin = hosts_begin" "trim_space hosts_end = hosts_end" "trim_space [] = []"
  by code_simp+

lemma managed_outside:
  "\<forall>l\<in>set ls. trim_space l \<noteq> hosts_begin \<Longrightarrow> \<not> mg_in_block st \<Longrightarrow> foldl managed_line st ls = st"
proof (induction ls)
  case (Cons l ls)
  then have "managed_line st l = st" by (cases st) (auto simp: managed_line_def Let_def)
  then show ?case using Cons by simp
qed simp

lemma merged_split:
  "\<exists>pre. str_split nl (merge_hosts_block f b) = pre @ str_split nl b \<and> (\<forall>l\<in>set pre. l = [] \<or> l \<in> set (strip_block False (str_split nl f)))"
proof -
  let ?x = "pad_content (kept_content f)"
  show ?thesis
  proof (cases "?x = []")
    case True
    then show ?thesis by (intro exI [of _ "[]"]) (simp add: merge_pad_kept)
  next
    case False
    then obtain y where y: "?x = y @ [nl] @ [nl]" using pad_content_shape [of "kept_content f"] by (auto simp: has_suffix_iff)
    then have "str_split nl (?x @ b) = str_split nl (y @ [nl]) @ str_split nl b" "str_split nl ?x = str_split nl (y @ [nl]) @ [[]]"
      using str_split_append_sep [of nl "y @ [nl]" b] str_split_append_sep [of nl "y @ [nl]" "[]"] by simp_all
    then show ?thesis using pad_lines [of _ f] by (intro exI [of _ "str_split nl (y @ [nl])"]) (auto simp: merge_pad_kept)
  qed
qed

lemma parse_merged:
  assumes hs: "\<forall>h\<in>set hs. valid_hostname h" "hs \<noteq> []"
    and foreign: "\<forall>l\<in>set (strip_block False (str_split nl f)). trim_space l \<noteq> hosts_begin"
  shows "parse_managed_hosts (merge_hosts_block f (render_block hs)) = (fresh_entries [] hs, 1)"
proof -
  let ?es = "fresh_entries [] hs"
  have "hd hs \<in> set hs" using hs(2) by simp
  then have "hd hs \<in> set ?es" using hs(1) by (auto simp: fresh_entries_mem valid_hostname_iff)
  then have ne: "?es \<noteq> []" by auto
  have plain: "\<forall>l\<in>set (map entry_line ?es). plain_line l"
    using hs(1) valid_hostname_edges by (fastforce simp: fresh_entries_mem is_space_def intro: entry_line_plain)
  obtain pre where pre: "str_split nl (merge_hosts_block f (render_block hs)) = pre @ str_split nl (render_block hs)"
    "\<forall>l\<in>set pre. l = [] \<or> l \<in> set (strip_block False (str_split nl f))" using merged_split by blast
  then have "scan_lines (merge_hosts_block f (render_block hs)) = pre @ hosts_begin # map entry_line ?es @ [hosts_end]"
    unfolding render_block_lines [OF ne] split_block [OF plain] by (simp add: scan_lines_def render_block_lines [OF ne] split_block [OF plain] butlast_append)
  moreover have "foldl managed_line \<lparr>mg_hosts = [], mg_max = 0, mg_in_block = False\<rparr> pre = \<lparr>mg_hosts = [], mg_max = 0, mg_in_block = False\<rparr>"
    using pre(2) foreign trim_markers(3) markers(4) by (intro managed_outside) fastforce+
  moreover have "managed_line \<lparr>mg_hosts = [], mg_max = 0, mg_in_block = False\<rparr> hosts_begin = \<lparr>mg_hosts = [], mg_max = 0, mg_in_block = True\<rparr>"
    by (simp add: managed_line_def trim_markers)
  moreover have "foldl managed_line \<lparr>mg_hosts = [], mg_max = 0, mg_in_block = True\<rparr> (map entry_line ?es) = \<lparr>mg_hosts = ?es, mg_max = 1, mg_in_block = True\<rparr>"
    using hs(1) ne by (subst managed_entries) (auto simp: fresh_entries_mem)
  moreover have "managed_line \<lparr>mg_hosts = ?es, mg_max = 1, mg_in_block = True\<rparr> hosts_end = \<lparr>mg_hosts = ?es, mg_max = 1, mg_in_block = False\<rparr>"
    using markers(3) by (auto simp: managed_line_def trim_markers)
  ultimately show ?thesis by (simp add: parse_managed_hosts_def Let_def)
qed

text \<open>
  The doctor reads back exactly the hosts the CLI wrote, one per line; yet it also looks for the
  bare TLD, which nothing writes: after the hosts of every registered local project have been
  synced it still reports a missing entry, and fails, for each of their TLDs without a dot.
\<close>

theorem doctor_fails_after_sync:
  assumes names: "\<forall>h\<in>set (all_local_host_fqdns rg). valid_hostname h"
    and foreign: "\<forall>l\<in>set (strip_block False (str_split nl f)). trim_space l \<noteq> hosts_begin"
    and proj: "p \<in> snd ` set rg" "p_local p" and tld: "CHR ''.'' \<notin> set (p_tld p)" "\<not> is_ip (p_tld p)"
    and synced: "f' = merge_hosts_block f (render_block (all_local_host_fqdns rg))"
  shows "parse_managed_hosts f' = (all_local_host_fqdns rg, 1) \<and>
    check_hosts_block is_ip (Some f') (p_tld p) = [failf (HostsMissing (p_tld p))] \<and>
    report_failed (check_hosts_block is_ip (Some f') (p_tld p))"
proof -
  let ?hs = "all_local_host_fqdns rg"
  have admin: "relay_host (p_tld p) \<in> set ?hs"
    using proj by (auto simp: all_local_exact local_names_def fqdn_def relay_host_def intro!: bexI [of _ p])
  have fresh: "fresh_entries seen hs = hs" if "distinct hs" "[] \<notin> set hs" "set hs \<inter> set seen = {}" for seen hs
    using that by (induction seen hs rule: fresh_entries.induct) auto
  have "parse_managed_hosts f' = (fresh_entries [] ?hs, 1)"
    unfolding synced using names foreign admin by (intro parse_merged) auto
  moreover have "fresh_entries [] ?hs = ?hs" using names by (intro fresh) (auto simp: all_local_exact valid_hostname_iff)
  ultimately have parsed: "parse_managed_hosts f' = (?hs, 1)" by simp
  have low: "to_lower (relay_host (p_tld p)) = relay_host (p_tld p)"
    using names admin valid_hostname_edges by (blast intro: to_lower_id)
  then have "to_lower (p_tld p) = p_tld p" by (simp add: relay_host_def to_lower_def)
  moreover have "CHR ''.'' \<in> set h" if "h \<in> set ?hs" for h
    using that by (auto simp: all_local_exact local_names_def fqdn_def split: if_splits)
  then have "p_tld p \<notin> set ?hs" using tld(1) by blast
  moreover have "CHR ''.'' \<notin> set (trim_suffix (p_tld p) ''.'')" using tld(1) by (auto simp: trim_suffix_def dest: in_set_takeD)
  ultimately have "check_hosts_block is_ip (Some f') (p_tld p) = [failf (HostsMissing (p_tld p))]"
    using admin low tld(2) parsed by (simp add: check_hosts_block_def hosts_entries_def hosts_per_line_warn_def)
  then show ?thesis using parsed by (simp add: report_failed_def failf_def)
qed

theorem doctor_fails_after_sync_witness:
  "check_hosts_block (\<lambda>_. False) (Some (merge_hosts_block [] (render_block (all_local_host_fqdns
      [(''app'', new_project ''t'' ''app'' ''/w/app'' ''dev'' True [''app''] [] False)])))) ''dev'' = [failf (HostsMissing ''dev'')]"
proof -
  let ?p = "new_project ''t'' ''app'' ''/w/app'' ''dev'' True [''app''] [] False"
  have n: "\<forall>h\<in>set (all_local_host_fqdns [(''app'', ?p)]). valid_hostname h" by code_simp
  have f: "\<forall>l\<in>set (strip_block False (str_split nl [])). trim_space l \<noteq> hosts_begin" by code_simp
  have t: "p_tld ?p = ''dev''" "p_local ?p" by (simp_all add: new_project_def)
  then show ?thesis using doctor_fails_after_sync [OF n f, of ?p "\<lambda>_. False" _] by simp
qed

end
