(* ===== verification/Runner.thy ===== *)
theory Runner
  imports GoStrings
begin

text \<open>
  \<open>cli/runner/runner.go\<close>: the command line of a service, its environment, the wait for its port
  and the termination of process groups. The passing of time, the connection attempts, the exits
  of processes and the answers of \<open>lsof\<close> are inputs.
\<close>

section \<open>Command lines\<close>

definition is_quote :: "char \<Rightarrow> bool" where
  "is_quote c = (c = CHR 0x27 \<or> c = CHR 0x22)"

definition is_blank_char :: "char \<Rightarrow> bool" where
  "is_blank_char c = (c = CHR '' '' \<or> c = CHR 0x09 \<or> c = CHR 0x0A)"

datatype command_error = UnterminatedQuote char | EmptyCommand

record split_state =
  sp_out :: "string list"
  sp_cur :: string
  sp_in_word :: bool
  sp_quote :: "char option"

definition split_flush :: "split_state \<Rightarrow> split_state" where
  "split_flush s = (if sp_in_word s then s\<lparr>sp_out := sp_out s @ [sp_cur s], sp_cur := [], sp_in_word := False\<rparr> else s)"

definition split_step :: "split_state \<Rightarrow> char \<Rightarrow> split_state" where
  "split_step s c =
     (case sp_quote s of
        Some q \<Rightarrow> if c = q then s\<lparr>sp_quote := None\<rparr> else s\<lparr>sp_cur := sp_cur s @ [c]\<rparr>
      | None \<Rightarrow>
          if is_quote c then s\<lparr>sp_in_word := True, sp_quote := Some c\<rparr>
          else if is_blank_char c then split_flush s
          else s\<lparr>sp_in_word := True, sp_cur := sp_cur s @ [c]\<rparr>)"

definition split_start :: split_state where
  "split_start = \<lparr>sp_out = [], sp_cur = [], sp_in_word = False, sp_quote = None\<rparr>"

definition split_command :: "string \<Rightarrow> (command_error, string list) res" where
  "split_command s =
     (let st = foldl split_step split_start s in
      case sp_quote st of
        Some q \<Rightarrow> Err (UnterminatedQuote q)
      | None \<Rightarrow>
          let out = sp_out (split_flush st) in
          if out = [] then Err EmptyCommand else Ok out)"

section \<open>Environment\<close>

record spawn_options =
  so_name :: string
  so_cwd :: string
  so_command :: string
  so_port :: int
  so_environment :: "(string, string) gomap"
  so_log_file :: string

record command =
  c_args :: "string list"
  c_dir :: string
  c_env :: "string list"

definition build_cmd :: "string list \<Rightarrow> spawn_options \<Rightarrow> (command_error, command) res" where
  "build_cmd environ opts =
     res_bind (split_command (so_command opts)) (\<lambda>parts.
       Ok \<lparr>c_args = parts, c_dir = so_cwd opts,
           c_env = environ @ [''PORT='' @ itoa (so_port opts), ''HOST=127.0.0.1''] @
             map (\<lambda>(k, v). k @ ''='' @ v) (so_environment opts)\<rparr>)"

text \<open>
  What the child reads: \<open>exec.Cmd\<close> keeps, for every name, the last entry of \<open>Env\<close>. An entry's name
  ends at its first equals sign.
\<close>

definition env_entry :: "string \<Rightarrow> string \<Rightarrow> string option" where
  "env_entry k e = (case cut_at e ''='' of None \<Rightarrow> None | Some (n, v) \<Rightarrow> if n = k then Some v else None)"

definition getenv :: "string list \<Rightarrow> string \<Rightarrow> string option" where
  "getenv es k = (case List.map_filter (env_entry k) (rev es) of [] \<Rightarrow> None | v # _ \<Rightarrow> Some v)"

section \<open>Waiting for the port\<close>

text \<open>
  One round of \<open>waitPortOrExit\<close>: the clock at the test of the deadline, whether the dial got
  through, and whether the child had exited by the end of the pause.
\<close>

record wait_round =
  w_now :: int
  w_connects :: bool
  w_exited :: bool

datatype wait_error = ServiceExited int | PortTimeout int

fun wait_port_or_exit :: "int \<Rightarrow> int \<Rightarrow> wait_round list \<Rightarrow> (wait_error, unit) res option" where
  "wait_port_or_exit port deadline [] = None"
| "wait_port_or_exit port deadline (r # rs) =
     (if \<not> w_now r < deadline then Some (Err (PortTimeout port))
      else if w_connects r then Some (Ok ())
      else if w_exited r then Some (Err (ServiceExited port))
      else wait_port_or_exit port deadline rs)"

text \<open>\<open>Spawn\<close>: the process id, whether the group was killed again, and the error.\<close>

datatype spawn_error = LogFailed | PipeFailed | BadCommand command_error | StartFailed | NotReady wait_error

record spawn_env =
  se_log_ok :: bool
  se_environ :: "string list"
  se_pid :: "int option"
  se_now :: int
  se_rounds :: "wait_round list"

definition ready_timeout_s :: int where "ready_timeout_s = 120"

definition spawn :: "spawn_env \<Rightarrow> spawn_options \<Rightarrow> (int \<times> bool \<times> spawn_error option) option" where
  "spawn en opts =
     (if \<not> se_log_ok en then Some (0, False, Some LogFailed)
      else case build_cmd (se_environ en) opts of
        Inl e \<Rightarrow> Some (0, False, Some (BadCommand e))
      | Inr cmd \<Rightarrow>
          (case se_pid en of
             None \<Rightarrow> Some (0, False, Some StartFailed)
           | Some pid \<Rightarrow>
               (case wait_port_or_exit (so_port opts) (se_now en + ready_timeout_s) (se_rounds en) of
                  None \<Rightarrow> None
                | Some (Inl e) \<Rightarrow> Some (pid, True, Some (NotReady e))
                | Some (Inr _) \<Rightarrow> Some (pid, False, None))))"

section \<open>Termination\<close>

datatype signal = SigTerm | SigKill

text \<open>\<open>KillGroup\<close>: the signals sent to the group, from the polls of \<open>alive\<close> (time, alive).\<close>

fun kill_poll :: "int \<Rightarrow> (int \<times> bool) list \<Rightarrow> signal list option" where
  "kill_poll deadline [] = None"
| "kill_poll deadline ((now, alive) # ps) =
     (if \<not> now < deadline then Some [SigKill] else if \<not> alive then Some [] else kill_poll deadline ps)"

definition kill_group :: "int \<Rightarrow> int \<Rightarrow> (int \<times> bool) list \<Rightarrow> (int \<times> signal) list option" where
  "kill_group pid now polls =
     (if pid \<le> 0 then Some []
      else case kill_poll (now + 5) polls of
        None \<Rightarrow> None
      | Some ss \<Rightarrow> Some ((- pid, SigTerm) # map (\<lambda>s. (- pid, s)) ss))"

text \<open>\<open>PortListeners\<close> from the output of \<open>lsof\<close> (\<open>None\<close>: it failed with no output).\<close>

definition port_listeners :: "string option \<Rightarrow> int list" where
  "port_listeners out =
     (case out of None \<Rightarrow> []
      | Some o' \<Rightarrow> List.map_filter (\<lambda>line. if trim_space line = [] then None else parse_int (trim_space line))
          (str_split CHR 0x0A (trim_space o')))"

text \<open>\<open>ReclaimPort\<close>: the listeners seen at each poll with the time, and those seen at the end.\<close>

fun reclaim_poll :: "int \<Rightarrow> (int \<times> int list) list \<Rightarrow> int list \<Rightarrow> (int \<times> signal) list option" where
  "reclaim_poll deadline [] final = None"
| "reclaim_poll deadline ((now, pids) # ps) final =
     (if \<not> now < deadline then Some (map (\<lambda>p. (p, SigKill)) final)
      else if pids = [] then Some [] else reclaim_poll deadline ps final)"

definition reclaim_port :: "int \<Rightarrow> int list \<Rightarrow> (int \<times> int list) list \<Rightarrow> int list \<Rightarrow> ((int \<times> signal) list \<times> int list) option" where
  "reclaim_port now pids polls final =
     (if pids = [] then Some ([], [])
      else case reclaim_poll (now + 5) polls final of
        None \<Rightarrow> None
      | Some kills \<Rightarrow> Some (map (\<lambda>p. (p, SigTerm)) pids @ kills, pids))"

section \<open>Splitting and quoting\<close>

text \<open>The quoting of a word the splitter undoes: in single quotes, with single quotes in double ones.\<close>

definition quote_char :: "char \<Rightarrow> string" where
  "quote_char c = (if c = CHR 0x27 then [CHR 0x22, c, CHR 0x22] else [CHR 0x27, c, CHR 0x27])"

definition quote_word :: "string \<Rightarrow> string" where
  "quote_word w = [CHR 0x27, CHR 0x27] @ concat (map quote_char w)"

lemma foldl_quote_char:
  "sp_quote s = None \<Longrightarrow> sp_in_word s \<Longrightarrow> foldl split_step s (quote_char c) = s\<lparr>sp_cur := sp_cur s @ [c]\<rparr>"
  by (cases s) (auto simp: quote_char_def split_step_def is_quote_def)

lemma foldl_quoted:
  "sp_quote s = None \<Longrightarrow> sp_in_word s \<Longrightarrow> foldl split_step s (concat (map quote_char w)) = s\<lparr>sp_cur := sp_cur s @ w\<rparr>"
proof (induction w arbitrary: s)
  case (Cons c w)
  then show ?case using Cons.IH [of "s\<lparr>sp_cur := sp_cur s @ [c]\<rparr>"] by (simp add: foldl_quote_char)
qed (cases s; simp)

lemma foldl_quote_word:
  "sp_quote s = None \<Longrightarrow> \<not> sp_in_word s \<Longrightarrow> foldl split_step s (quote_word w) = s\<lparr>sp_in_word := True, sp_cur := sp_cur s @ w\<rparr>"
proof -
  assume s: "sp_quote s = None" "\<not> sp_in_word s"
  have "foldl split_step s [CHR 0x27, CHR 0x27] = s\<lparr>sp_in_word := True\<rparr>"
    using s by (cases s) (simp add: split_step_def is_quote_def)
  then have "foldl split_step s (quote_word w) = foldl split_step (s\<lparr>sp_in_word := True\<rparr>) (concat (map quote_char w))"
    by (simp only: quote_word_def foldl_append)
  then show ?thesis using foldl_quoted [of "s\<lparr>sp_in_word := True\<rparr>" w] s by simp
qed

lemma split_step_blank: "sp_quote s = None \<Longrightarrow> split_step s CHR '' '' = split_flush s"
  by (simp add: split_step_def is_quote_def is_blank_char_def)

lemma foldl_quote_words:
  "ws \<noteq> [] \<Longrightarrow> sp_quote s = None \<Longrightarrow> \<not> sp_in_word s \<Longrightarrow> sp_cur s = [] \<Longrightarrow>
     sp_out (split_flush (foldl split_step s (str_join '' '' (map quote_word ws)))) = sp_out s @ ws \<and>
     sp_quote (foldl split_step s (str_join '' '' (map quote_word ws))) = None"
proof (induction ws arbitrary: s)
  case (Cons w ws)
  let ?s1 = "s\<lparr>sp_in_word := True, sp_cur := w\<rparr>"
  have w: "foldl split_step s (quote_word w) = ?s1" using Cons.prems by (simp add: foldl_quote_word)
  show ?case
  proof (cases "ws = []")
    case True
    then show ?thesis using w Cons.prems by (simp add: split_flush_def)
  next
    case False
    let ?s2 = "split_flush ?s1"
    have "foldl split_step s (str_join '' '' (map quote_word (w # ws))) = foldl split_step ?s2 (str_join '' '' (map quote_word ws))"
      using False Cons.prems(2) by (simp add: str_join_Cons w split_step_blank)
    moreover have "sp_out ?s2 = sp_out s @ [w]" "sp_quote ?s2 = None" "\<not> sp_in_word ?s2" "sp_cur ?s2 = []"
      using Cons.prems by (simp_all add: split_flush_def)
    ultimately show ?thesis using Cons.IH [OF False, of ?s2] by simp
  qed
qed simp

text \<open>
  C40: a command line built by quoting each word is split back into exactly those words, whatever
  bytes they hold; every line that is not empty of words and closes its quotes is accepted.
\<close>

theorem split_command_quoted:
  "split_command (str_join '' '' (map quote_word ws)) = (if ws = [] then Err EmptyCommand else Ok ws)"
  using foldl_quote_words [of ws split_start]
  by (auto simp: split_command_def split_start_def split_flush_def Let_def)

text \<open>A backslash is an ordinary byte, so it does not escape a quote.\<close>

lemma split_command_backslash: "split_command [CHR ''a'', CHR 0x5C, CHR 0x22] = Err (UnterminatedQuote CHR 0x22)"
  by code_simp

section \<open>The environment the child sees\<close>

lemma getenv_append: "getenv (es @ fs) k = (case getenv fs k of Some v \<Rightarrow> Some v | None \<Rightarrow> getenv es k)"
  by (simp add: getenv_def List.map_filter_def split: list.splits)

lemma env_entry_pair: "CHR ''='' \<notin> set n \<Longrightarrow> env_entry k (n @ CHR ''='' # v) = (if n = k then Some v else None)"
  by (simp add: env_entry_def cut_at_char)

lemma getenv_Nil [simp]: "getenv [] k = None"
  by (simp add: getenv_def List.map_filter_def)

lemma getenv_single: "getenv [e] k = env_entry k e"
  by (simp add: getenv_def List.map_filter_def split: option.splits)

lemma getenv_pairs:
  "wf_gomap m \<Longrightarrow> \<forall>n\<in>fst ` set m. CHR ''='' \<notin> set n \<Longrightarrow> getenv (map (\<lambda>(k, v). k @ ''='' @ v) m) k = map_of m k"
proof (induction m)
  case (Cons p m)
  obtain n v where p: "p = (n, v)" by (cases p)
  have "getenv (map (\<lambda>(k, v). k @ ''='' @ v) (p # m)) k = (case map_of m k of Some v \<Rightarrow> Some v | None \<Rightarrow> env_entry k (n @ ''='' @ v))"
    using getenv_append [of "[n @ ''='' @ v]" "map (\<lambda>(k, v). k @ ''='' @ v) m" k] Cons p
    by (simp add: getenv_single wf_gomap_def split: option.splits)
  moreover have "env_entry k (n @ ''='' @ v) = (if n = k then Some v else None)" using Cons.prems p by (simp add: env_entry_pair)
  ultimately show ?case using Cons.prems p by (auto simp: wf_gomap_def map_of_eq_None_iff [symmetric] split: option.splits)
qed simp

text \<open>
  The child of a run route reads its manifest variables as given, otherwise the assigned PORT and
  the loopback HOST, otherwise the environment of the shell.
\<close>

theorem build_cmd_environment:
  assumes cmd: "build_cmd environ opts = Ok c" and m: "wf_gomap (so_environment opts)" "\<forall>n\<in>fst ` set (so_environment opts). CHR ''='' \<notin> set n"
  shows "getenv (c_env c) k =
    (case map_of (so_environment opts) k of
       Some v \<Rightarrow> Some v
     | None \<Rightarrow> if k = ''PORT'' then Some (itoa (so_port opts)) else if k = ''HOST'' then Some ''127.0.0.1'' else getenv environ k)"
proof -
  let ?m = "map (\<lambda>(k, v). k @ ''='' @ v) (so_environment opts)"
  have c: "c_env c = environ @ [''PORT='' @ itoa (so_port opts)] @ [''HOST=127.0.0.1''] @ ?m"
    using cmd by (auto simp: build_cmd_def res_bind_eq_Ok)
  have ph: "env_entry k (''PORT='' @ itoa (so_port opts)) = (if k = ''PORT'' then Some (itoa (so_port opts)) else None)"
    "env_entry k ''HOST=127.0.0.1'' = (if k = ''HOST'' then Some ''127.0.0.1'' else None)"
    using env_entry_pair [of "''PORT''" k "itoa (so_port opts)"] env_entry_pair [of "''HOST''" k "''127.0.0.1''"] by auto
  show ?thesis
    unfolding c getenv_append getenv_single ph getenv_pairs [OF m] by (auto split: option.splits)
qed

theorem build_cmd_environment_witness:
  "\<exists>c. build_cmd [''PORT=1'', ''A=x''] \<lparr>so_name = ''n'', so_cwd = ''/w'', so_command = ''go run .'', so_port = 7,
      so_environment = [(''HOST'', ''0.0.0.0'')], so_log_file = []\<rparr> = Ok c \<and>
    getenv (c_env c) ''PORT'' = Some ''7'' \<and> getenv (c_env c) ''HOST'' = Some ''0.0.0.0'' \<and> getenv (c_env c) ''A'' = Some ''x''"
proof -
  let ?o = "\<lparr>so_name = ''n'', so_cwd = ''/w'', so_command = ''go run .'', so_port = 7, so_environment = [(''HOST'', ''0.0.0.0'')], so_log_file = []\<rparr>"
  have "split_command ''go run .'' = Ok [''go'', ''run'', ''.'']" by code_simp
  then obtain c where c: "build_cmd [''PORT=1'', ''A=x''] ?o = Ok c" by (simp add: build_cmd_def)
  have m: "wf_gomap (so_environment ?o)" "\<forall>n\<in>fst ` set (so_environment ?o). CHR ''='' \<notin> set n" by (simp_all add: wf_gomap_def)
  have v: "itoa (so_port ?o) = ''7''" "getenv [''PORT=1'', ''A=x''] ''A'' = Some ''x''"
    "map_of (so_environment ?o) ''PORT'' = None" "map_of (so_environment ?o) ''HOST'' = Some ''0.0.0.0''" "map_of (so_environment ?o) ''A'' = None"
    by code_simp+
  have ne: "''A'' \<noteq> ''PORT''" "''A'' \<noteq> ''HOST''" by simp_all
  note e = build_cmd_environment [OF c m]
  have "getenv (c_env c) ''PORT'' = Some ''7''" using e [of "''PORT''"] unfolding v by simp
  moreover have "getenv (c_env c) ''HOST'' = Some ''0.0.0.0''" using e [of "''HOST''"] unfolding v by simp
  moreover have "getenv (c_env c) ''A'' = Some ''x''" using e [of "''A''"] ne unfolding v by simp
  ultimately show ?thesis using c by blast
qed

end
