(* ===== verification/CliArgs.thy ===== *)
theory CliArgs
  imports Manifest Preview
begin

text \<open>
  \<open>cli/main.go\<close>: the command lines of \<open>roxey\<close> and the names it derives. A command line is the
  list of its arguments; the loops over an index are recursions over that list.
\<close>

datatype usage_error = Usage | NeedsSecret | EmptySecret | Unexpected string | AutostartUsage

section \<open>Services and keys\<close>

text \<open>\<open>env\<close> and \<open>defaultTLD\<close>, from the value of the variable (empty when unset).\<close>

definition env_or :: "string \<Rightarrow> string \<Rightarrow> string" where
  "env_or v dflt = (if v \<noteq> [] then v else dflt)"

definition default_tld :: "string \<Rightarrow> string" where
  "default_tld roxey_domain = env_or roxey_domain ''f43.run''"

definition parse_service_spec :: "string \<Rightarrow> string \<times> string" where
  "parse_service_spec spec =
     (case cut_at spec ''/'' of
        None \<Rightarrow> (spec, [])
      | Some (service, rest) \<Rightarrow> (service, trim_suffix (trim_suffix (CHR ''/'' # rest) ''/*'') ''/''))"

definition tunnel_key :: "string \<Rightarrow> string \<Rightarrow> string" where
  "tunnel_key service pathPrefix = (if pathPrefix = [] then service else service @ pathPrefix)"

definition target_port :: "string \<Rightarrow> int option" where
  "target_port target =
     (let s = trim_prefix (trim_prefix target ''http://'') ''https://'';
          hostport = (case cut_at s ''/'' of None \<Rightarrow> s | Some (a, _) \<Rightarrow> a)
      in case split_host_port hostport of None \<Rightarrow> None | Some (_, rawPort) \<Rightarrow> parse_int rawPort)"

definition slash_to_underscore :: "string \<Rightarrow> string" where
  "slash_to_underscore s = map (\<lambda>c. if c = CHR ''/'' then CHR ''_'' else c) s"

definition svc_key :: "string \<Rightarrow> string \<Rightarrow> string" where
  "svc_key manifestPath name =
     map (\<lambda>c. if c = CHR '':'' then CHR ''_'' else c) (path_base (path_dir manifestPath)) @ '':'' @ name"

definition sanitize_name :: "string \<Rightarrow> string" where
  "sanitize_name n = map (\<lambda>c. if c = CHR ''/'' \<or> c = CHR '':'' then CHR ''_'' else c) n"

section \<open>Flags\<close>

fun parse_auth_args :: "string \<Rightarrow> string list \<Rightarrow> string \<times> string list" where
  "parse_auth_args tld [] = (tld, [])"
| "parse_auth_args tld (a # rest) =
     (case rest of
        v # vs \<Rightarrow> if a = ''--tld'' then parse_auth_args v vs
          else (let (t, r) = parse_auth_args tld rest in (t, a # r))
      | [] \<Rightarrow> (tld, [a]))"

fun parse_start_args :: "string \<Rightarrow> string list \<Rightarrow> string \<times> string list" where
  "parse_start_args protect [] = (protect, [])"
| "parse_start_args protect (a # rest) =
     (if a = ''--protect'' \<and> rest \<noteq> [] then parse_start_args (hd rest) (tl rest)
      else if has_prefix a ''--protect='' then parse_start_args (trim_prefix a ''--protect='') rest
      else (let (p, r) = parse_start_args protect rest in (p, a # r)))"

record up_options =
  uo_detach :: bool
  uo_preview :: bool
  uo_slug :: string
  uo_online :: bool
  uo_protect :: string
  uo_file :: string
  uo_project :: string

definition no_up_options :: up_options where
  "no_up_options = \<lparr>uo_detach = False, uo_preview = False, uo_slug = [], uo_online = False, uo_protect = [], uo_file = [], uo_project = []\<rparr>"

fun up_loop :: "up_options \<Rightarrow> bool \<Rightarrow> string list \<Rightarrow> (usage_error, up_options \<times> bool) res" where
  "up_loop u protectSet [] = Ok (u, protectSet)"
| "up_loop u protectSet (a # rest) =
     (if a = ''-d'' \<or> a = ''--detach'' then up_loop (u\<lparr>uo_detach := True\<rparr>) protectSet rest
      else if a = ''--preview'' then up_loop (u\<lparr>uo_preview := True\<rparr>) protectSet rest
      else if has_prefix a ''--preview='' then
        up_loop (u\<lparr>uo_preview := True, uo_slug := trim_prefix a ''--preview=''\<rparr>) protectSet rest
      else if a = ''--online'' then up_loop (u\<lparr>uo_online := True\<rparr>) protectSet rest
      else if a = ''--protect'' then
        (if rest = [] \<or> has_prefix (hd rest) ''--'' then Err NeedsSecret
         else up_loop (u\<lparr>uo_protect := hd rest\<rparr>) True (tl rest))
      else if has_prefix a ''--protect='' then up_loop (u\<lparr>uo_protect := trim_prefix a ''--protect=''\<rparr>) True rest
      else if a = ''--project'' \<and> rest \<noteq> [] then up_loop (u\<lparr>uo_project := hd rest\<rparr>) protectSet (tl rest)
      else if has_prefix a ''--project='' then up_loop (u\<lparr>uo_project := trim_prefix a ''--project=''\<rparr>) protectSet rest
      else if uo_file u = [] \<and> \<not> has_prefix a ''-'' then up_loop (u\<lparr>uo_file := a\<rparr>) protectSet rest
      else Err (Unexpected a))"

definition parse_up_options :: "string list \<Rightarrow> (usage_error, up_options) res" where
  "parse_up_options args =
     res_bind (up_loop no_up_options False args) (\<lambda>(u, protectSet).
       if protectSet \<and> uo_protect u = [] then Err EmptySecret else Ok u)"

text \<open>The file and project of \<open>down\<close>, and of \<open>doctor\<close>, which ignores other flags.\<close>

fun parse_down_args :: "string \<Rightarrow> string \<Rightarrow> string list \<Rightarrow> (usage_error, string \<times> string) res" where
  "parse_down_args fl project [] = Ok (fl, project)"
| "parse_down_args fl project (a # rest) =
     (if a = ''-d'' \<or> a = ''--detach'' then parse_down_args fl project rest
      else if has_prefix a ''--project='' then parse_down_args fl (trim_prefix a ''--project='') rest
      else if a = ''--project'' \<and> rest \<noteq> [] then parse_down_args fl (hd rest) (tl rest)
      else if fl = [] then parse_down_args a project rest
      else Err (Unexpected a))"

fun parse_doctor_args :: "string \<Rightarrow> string \<Rightarrow> string list \<Rightarrow> string \<times> string" where
  "parse_doctor_args fl project [] = (fl, project)"
| "parse_doctor_args fl project (a # rest) =
     (if has_prefix a ''--project='' then parse_doctor_args fl (trim_prefix a ''--project='') rest
      else if a = ''--project'' \<and> rest \<noteq> [] then parse_doctor_args fl (hd rest) (tl rest)
      else if has_prefix a ''-'' then parse_doctor_args fl project rest
      else if fl = [] then parse_doctor_args a project rest
      else parse_doctor_args fl project rest)"

text \<open>\<open>--state-dir\<close> and \<open>--relay-bin\<close> of the daemon's entry points.\<close>

fun parse_daemon_args :: "string \<Rightarrow> string \<Rightarrow> string list \<Rightarrow> string \<times> string" where
  "parse_daemon_args stateDir relayBin [] = (stateDir, relayBin)"
| "parse_daemon_args stateDir relayBin (a # rest) =
     (if a = ''--state-dir'' \<and> rest \<noteq> [] then parse_daemon_args (hd rest) relayBin (tl rest)
      else if has_prefix a ''--state-dir='' then parse_daemon_args (trim_prefix a ''--state-dir='') relayBin rest
      else if a = ''--relay-bin'' \<and> rest \<noteq> [] then parse_daemon_args stateDir (hd rest) (tl rest)
      else if has_prefix a ''--relay-bin='' then parse_daemon_args stateDir (trim_prefix a ''--relay-bin='') rest
      else parse_daemon_args stateDir relayBin rest)"

record projects_options =
  po_forget :: string
  po_prune :: bool
  po_autostart :: string
  po_on :: bool

fun parse_projects_args :: "projects_options \<Rightarrow> string list \<Rightarrow> (usage_error, projects_options) res" where
  "parse_projects_args u [] = Ok u"
| "parse_projects_args u (a # rest) =
     (if a = ''--prune'' then parse_projects_args (u\<lparr>po_prune := True\<rparr>) rest
      else if (a = ''--forget'' \<or> a = ''-f'') \<and> rest \<noteq> [] then parse_projects_args (u\<lparr>po_forget := hd rest\<rparr>) (tl rest)
      else if has_prefix a ''--autostart='' then
        (let v = trim_prefix a ''--autostart='' in
         if has_prefix v ''off:'' \<or> v = ''off'' then Err AutostartUsage
         else parse_projects_args (u\<lparr>po_autostart := v, po_on := True\<rparr>) rest)
      else if a = ''--autostart'' \<and> rest \<noteq> [] then parse_projects_args (u\<lparr>po_autostart := hd rest, po_on := True\<rparr>) (tl rest)
      else if a = ''--autostart-off'' \<and> rest \<noteq> [] then parse_projects_args (u\<lparr>po_autostart := hd rest, po_on := False\<rparr>) (tl rest)
      else Err (Unexpected a))"

section \<open>The worker's arguments\<close>

record run_spec =
  ru_tld :: string
  ru_service :: string
  ru_path :: string
  ru_target :: string
  ru_protect :: string
  ru_group :: string

definition run_args :: "run_spec \<Rightarrow> string list" where
  "run_args r =
     [''_run'', ru_tld r, ru_service r, ru_path r, ru_target r] @
     (if ru_protect r \<noteq> [] \<or> ru_group r \<noteq> [] then [ru_protect r] else []) @
     (if ru_group r \<noteq> [] then [ru_group r] else [])"

text \<open>\<open>cmdRun\<close>: what it passes to the worker, from the arguments after the command.\<close>

definition parse_run_args :: "string list \<Rightarrow> (usage_error, run_spec) res" where
  "parse_run_args args =
     (if length args < 4 then Err Usage
      else Ok \<lparr>ru_tld = args ! 0, ru_service = args ! 1, ru_path = args ! 2, ru_target = args ! 3,
          ru_protect = (if length args > 4 then args ! 4 else []), ru_group = (if length args > 5 then args ! 5 else [])\<rparr>)"

lemma run_args_roundtrip: "parse_run_args (tl (run_args r)) = Ok r"
  by (simp add: run_args_def parse_run_args_def)

section \<open>Keys\<close>

lemma cut_slash: "CHR ''/'' \<notin> set s \<Longrightarrow> cut_at (s @ CHR ''/'' # t) ''/'' = Some (s, t)"
  by (rule cut_at_char)

text \<open>A path prefix as the manifest's routes and \<open>parse_service_spec\<close> leave it.\<close>

definition path_prefix :: "string \<Rightarrow> bool" where
  "path_prefix p \<longleftrightarrow> p = [] \<or> hd p = CHR ''/'' \<and> \<not> has_suffix p ''/'' \<and> \<not> has_suffix p ''/*''"

lemma tunnel_key_inj:
  assumes "CHR ''/'' \<notin> set s" "CHR ''/'' \<notin> set t" "p = [] \<or> hd p = CHR ''/''" "q = [] \<or> hd q = CHR ''/''"
  shows "tunnel_key s p = tunnel_key t q \<longleftrightarrow> s = t \<and> p = q"
proof -
  have k: "takeWhile (\<lambda>c. c \<noteq> CHR ''/'') (tunnel_key u r) = u \<and> dropWhile (\<lambda>c. c \<noteq> CHR ''/'') (tunnel_key u r) = r"
    if u: "CHR ''/'' \<notin> set u" and r: "r = [] \<or> hd r = CHR ''/''" for u r
    using u r by (cases r) (auto simp: tunnel_key_def takeWhile_append dropWhile_append dest: set_takeWhileD)
  show ?thesis using k [OF assms(1,3)] k [OF assms(2,4)] by metis
qed

lemma trim_suffix_no: "\<not> has_suffix s t \<Longrightarrow> trim_suffix s t = s"
  by (simp add: trim_suffix_def)

lemma parse_service_spec_key: "CHR ''/'' \<notin> set s \<Longrightarrow> path_prefix p \<Longrightarrow> parse_service_spec (tunnel_key s p) = (s, p)"
proof (cases p)
  case Nil
  moreover assume "CHR ''/'' \<notin> set s"
  ultimately show ?thesis by (simp add: parse_service_spec_def tunnel_key_def cut_at_char_None [THEN iffD2])
next
  case (Cons c p')
  moreover assume "CHR ''/'' \<notin> set s" "path_prefix p"
  ultimately show ?thesis by (simp add: parse_service_spec_def tunnel_key_def cut_slash path_prefix_def)
    (metis trim_suffix_no)
qed

end
