(* ===== verification/Config.thy ===== *)
theory Config
  imports Paths Prelude
begin

text \<open>
  \<open>cli/internal/config/config.go\<close>: the state files under \<open>~/.roxey\<close>. A file is missing, does not
  parse, or holds a value; whether a write succeeds is an argument of the operation that writes.
\<close>

datatype 'a state_file = Missing | Unreadable | Holds 'a

record server_config =
  sc_api_key :: string
  sc_local :: bool
  sc_admin_email :: string
  sc_admin_pass :: string

definition no_server :: server_config where
  "no_server = \<lparr>sc_api_key = [], sc_local = False, sc_admin_email = [], sc_admin_pass = []\<rparr>"

type_synonym servers = "(string, server_config) gomap"

record tunnel_info =
  ti_pid :: int
  ti_service :: string
  ti_path_prefix :: string
  ti_tld :: string
  ti_target :: string
  ti_manifest :: string
  ti_started :: string
  ti_log :: string

record service_info =
  si_name :: string
  si_pid :: int
  si_port :: int
  si_command :: string
  si_cwd :: string
  si_manifest :: string
  si_started :: string
  si_log :: string

section \<open>Directories\<close>

definition state_dir :: "string \<Rightarrow> string \<Rightarrow> string" where
  "state_dir override home = (if override \<noteq> [] then override else path_join [home, ''.roxey''])"

definition log_dir :: "string \<Rightarrow> string" where "log_dir dir = path_join [dir, ''logs'']"
definition bin_dir :: "string \<Rightarrow> string" where "bin_dir dir = path_join [dir, ''bin'']"
definition cert_dir :: "string \<Rightarrow> string" where "cert_dir dir = path_join [dir, ''certs'']"
definition socket_path :: "string \<Rightarrow> string" where "socket_path dir = path_join [dir, ''helper.sock'']"

section \<open>Files\<close>

text \<open>\<open>LoadConfig\<close>: \<open>Ok None\<close> is the nil configuration of a missing file.\<close>

definition load_config :: "servers state_file \<Rightarrow> (unit, servers option) res" where
  "load_config fl = (case fl of Missing \<Rightarrow> Ok None | Unreadable \<Rightarrow> Err () | Holds s \<Rightarrow> Ok (Some s))"

definition save_file :: "bool \<Rightarrow> 'a \<Rightarrow> 'a state_file \<Rightarrow> 'a state_file \<times> (unit, unit) res" where
  "save_file written v fl = (if written then (Holds v, Ok ()) else (fl, Err ()))"

definition server_for :: "servers state_file \<Rightarrow> string \<Rightarrow> server_config option" where
  "server_for fl tld = (case load_config fl of Inr (Some s) \<Rightarrow> map_of s tld | _ \<Rightarrow> None)"

definition set_server :: "bool \<Rightarrow> string \<Rightarrow> server_config \<Rightarrow> servers state_file \<Rightarrow> servers state_file \<times> (unit, unit) res" where
  "set_server written tld sc fl =
     (case load_config fl of
        Inl e \<Rightarrow> (fl, Err e)
      | Inr c \<Rightarrow> save_file written (gput tld sc (case c of None \<Rightarrow> [] | Some s \<Rightarrow> s)) fl)"

text \<open>\<open>LoadTunnels\<close> and \<open>LoadServices\<close>: a missing file is an empty map.\<close>

definition load_map :: "('k, 'v) gomap state_file \<Rightarrow> (unit, ('k, 'v) gomap) res" where
  "load_map fl = (case fl of Missing \<Rightarrow> Ok [] | Unreadable \<Rightarrow> Err () | Holds m \<Rightarrow> Ok m)"

lemma server_for_set: "set_server True tld sc fl = (fl', Ok ()) \<Longrightarrow> server_for fl' t = (if t = tld then Some sc else server_for fl t)"
  by (auto simp: set_server_def server_for_def load_config_def save_file_def split: state_file.splits)

text \<open>
  The credentials \<open>RelayEnv\<close> starts a relay with: those saved for the TLD, or fresh ones that it saves.
\<close>

definition relay_credentials :: "string \<Rightarrow> string \<Rightarrow> bool \<Rightarrow> string \<Rightarrow> servers state_file \<Rightarrow> servers state_file \<times> (unit, string \<times> string) res" where
  "relay_credentials fresh_name fresh_pass written tld fl =
     (let sc = (case server_for fl tld of None \<Rightarrow> no_server | Some sc \<Rightarrow> sc) in
      if sc_admin_email sc = [] \<or> sc_admin_pass sc = [] then
        let email = fresh_name @ ''@localhost'';
            (fl', r) = set_server written tld
              \<lparr>sc_api_key = sc_api_key sc, sc_local = True, sc_admin_email = email, sc_admin_pass = fresh_pass\<rparr> fl
        in (fl', case r of Inl e \<Rightarrow> Err e | Inr _ \<Rightarrow> Ok (email, fresh_pass))
      else (fl, Ok (sc_admin_email sc, sc_admin_pass sc)))"

definition relay_env :: "string \<Rightarrow> string \<Rightarrow> string \<times> string \<Rightarrow> string list" where
  "relay_env dir tld creds =
     [''ROXEY_DOMAIN='' @ tld, ''ROXEY_ADMIN_HOST=roxey.'' @ tld, ''ROXEY_SINGLE_USER=1'',
      ''ROXEY_ADMIN_EMAIL='' @ fst creds, ''ROXEY_ADMIN_PASSWORD='' @ snd creds,
      ''ROXEY_DB_PATH='' @ path_join [dir, ''local_'' @ map (\<lambda>c. if c = CHR ''.'' then CHR ''_'' else c) tld @ ''.db''],
      ''PORT=443'', ''ROXEY_TLS_CERT='' @ path_join [cert_dir dir, ''leaf.crt''], ''ROXEY_TLS_KEY='' @ path_join [cert_dir dir, ''leaf.key'']]"

text \<open>\<open>RandomToken\<close> from its random bytes.\<close>

definition token_charset :: string where
  "token_charset = ''abcdefghijklmnopqrstuvwxyzABCDEFGHIJKLMNOPQRSTUVWXYZ0123456789''"

definition random_token :: "nat list \<Rightarrow> string" where
  "random_token raw = map (\<lambda>b. token_charset ! (b mod length token_charset)) raw"

end
