(* ===== verification/CliState.thy ===== *)
theory CliState
  imports CliArgs Config HelperProps
begin

text \<open>
  \<open>cli/main.go\<close>: the commands that start and stop tunnels and services, on the state files they
  read and write. Which processes are alive is a predicate, whether a file can be written, a
  process started or a helper call made is an input; the signals a command sends are its output.
\<close>

datatype cli_error = BadUsage usage_error | StateUnreadable | StateUnwritable | AlreadyRunning string int
  | NoExecutable | NoLogFile | WorkerNotStarted | NoKeyFor string | NoTunnel string
  | UnknownProject string | FileAndProject | ManifestInvalid | ServiceExit string

datatype action = TermProcess int | KillGroup int | ReclaimPort int | StartWorker int "string list" | DeleteTopology string
  | SyncHosts "string list" | TrustCa | EnsureRelay | StartRelay "string list" | InstallHelper "string list"
  | PublishTopology string "(string \<times> (string \<times> int) list) list"

type_synonym tunnels = "(string, tunnel_info) gomap"
type_synonym services = "(string, service_info) gomap"

definition write_back :: "bool \<Rightarrow> 'a \<Rightarrow> 'a state_file \<Rightarrow> 'a state_file \<times> (cli_error, unit) res" where
  "write_back written v fl = (if written then (Holds v, Ok ()) else (fl, Err StateUnwritable))"

definition read_map :: "('k, 'v) gomap state_file \<Rightarrow> (cli_error, ('k, 'v) gomap) res" where
  "read_map fl = (case load_map fl of Inl _ \<Rightarrow> Err StateUnreadable | Inr m \<Rightarrow> Ok m)"

definition content :: "('k, 'v) gomap state_file \<Rightarrow> ('k, 'v) gomap" where
  "content fl = (case fl of Holds m \<Rightarrow> m | _ \<Rightarrow> [])"

section \<open>Starting a tunnel\<close>

record start_env =
  st_exec_ok :: bool
  st_log_ok :: bool
  st_pid :: "int option"
  st_now :: string
  st_logs :: string
  st_written :: bool

definition is_running :: "(int \<Rightarrow> bool) \<Rightarrow> tunnels \<Rightarrow> string \<Rightarrow> bool" where
  "is_running alive tunnels key = (case map_of tunnels key of None \<Rightarrow> False | Some existing \<Rightarrow> alive (ti_pid existing))"

definition new_tunnel :: "start_env \<Rightarrow> run_spec \<Rightarrow> string \<Rightarrow> int \<Rightarrow> tunnel_info" where
  "new_tunnel en r manifestPath pid =
     \<lparr>ti_pid = pid, ti_service = ru_service r, ti_path_prefix = ru_path r, ti_tld = ru_tld r,
      ti_target = ru_target r, ti_manifest = manifestPath, ti_started = st_now en,
      ti_log = path_join [st_logs en, slash_to_underscore (tunnel_key (ru_service r) (ru_path r)) @ ''.log'']\<rparr>"

definition start_one ::
  "(int \<Rightarrow> bool) \<Rightarrow> start_env \<Rightarrow> run_spec \<Rightarrow> string \<Rightarrow> tunnels state_file \<Rightarrow> tunnels state_file \<times> action list \<times> (cli_error, unit) res"
where
  "start_one alive en r manifestPath fl =
     (let key = tunnel_key (ru_service r) (ru_path r) in
      case read_map fl of
        Inl e \<Rightarrow> (fl, [], Err e)
      | Inr tunnels \<Rightarrow>
          if is_running alive tunnels key then (fl, [], Err (AlreadyRunning key (ti_pid (the (map_of tunnels key)))))
          else if \<not> st_exec_ok en then (fl, [], Err NoExecutable)
          else if \<not> st_log_ok en then (fl, [], Err NoLogFile)
          else case st_pid en of
            None \<Rightarrow> (fl, [], Err WorkerNotStarted)
          | Some pid \<Rightarrow>
              (let (fl', res) = write_back (st_written en) (gput key (new_tunnel en r manifestPath pid) tunnels) fl
               in (fl', [StartWorker pid (run_args r)], res)))"

definition cmd_start ::
  "(int \<Rightarrow> bool) \<Rightarrow> start_env \<Rightarrow> string \<Rightarrow> servers state_file \<Rightarrow> string list \<Rightarrow> tunnels state_file \<Rightarrow>
     tunnels state_file \<times> action list \<times> (cli_error, unit) res"
where
  "cmd_start alive en roxey_domain srv args fl =
     (case parse_start_args [] args of
        (protect, spec # target # _) \<Rightarrow>
          (let tld = default_tld roxey_domain in
           case server_for srv tld of
             None \<Rightarrow> (fl, [], Err (NoKeyFor tld))
           | Some sc \<Rightarrow>
               if sc_api_key sc = [] then (fl, [], Err (NoKeyFor tld))
               else
                 let (service, pathPrefix) = parse_service_spec spec in
                 start_one alive en
                   \<lparr>ru_tld = tld, ru_service = service, ru_path = pathPrefix, ru_target = target, ru_protect = protect, ru_group = []\<rparr>
                   [] fl)
      | _ \<Rightarrow> (fl, [], Err (BadUsage Usage)))"

section \<open>Stopping\<close>

definition stop_key :: "string \<Rightarrow> tunnels \<Rightarrow> tunnels \<times> action list" where
  "stop_key k tunnels =
     (gdel k tunnels, case map_of tunnels k of None \<Rightarrow> [TermProcess 0] | Some info \<Rightarrow> [TermProcess (ti_pid info)])"

fun stop_keys :: "string list \<Rightarrow> tunnels \<Rightarrow> tunnels \<times> action list" where
  "stop_keys [] tunnels = (tunnels, [])"
| "stop_keys (k # ks) tunnels =
     (let (t1, a1) = stop_key k tunnels; (t2, a2) = stop_keys ks t1 in (t2, a1 @ a2))"

definition keys_to_stop :: "string \<Rightarrow> tunnels \<Rightarrow> string list" where
  "keys_to_stop spec tunnels =
     (let (service, pathPrefix) = parse_service_spec spec; key = tunnel_key service pathPrefix in
      if map_of tunnels key \<noteq> None then [key]
      else if \<not> str_contains spec ''/'' then map fst (filter (\<lambda>(_, info). ti_service info = service) tunnels)
      else [])"

definition cmd_stop :: "bool \<Rightarrow> string list \<Rightarrow> tunnels state_file \<Rightarrow> tunnels state_file \<times> action list \<times> (cli_error, unit) res" where
  "cmd_stop written args fl =
     (case args of
        [] \<Rightarrow> (fl, [], Err (BadUsage Usage))
      | spec # _ \<Rightarrow>
          (case read_map fl of
             Inl e \<Rightarrow> (fl, [], Err e)
           | Inr tunnels \<Rightarrow>
               if keys_to_stop spec tunnels = [] then (fl, [], Err (NoTunnel spec))
               else
                 let (tunnels', acts) = stop_keys (keys_to_stop spec tunnels) tunnels;
                     (fl', res) = write_back written tunnels' fl
                 in (fl', acts, res)))"

text \<open>
  The loops over the recorded tunnels and services that end those a predicate selects, in the
  iteration order of the map: SIGTERM for tunnel workers, \<open>KillGroup\<close> for services.
\<close>

definition end_tunnels :: "(string \<Rightarrow> tunnel_info \<Rightarrow> bool) \<Rightarrow> tunnels \<Rightarrow> tunnels \<times> action list" where
  "end_tunnels P tunnels =
     (filter (\<lambda>(k, info). \<not> P k info) tunnels,
      map (\<lambda>(k, info). TermProcess (ti_pid info)) (filter (\<lambda>(k, info). P k info) tunnels))"

definition end_services :: "(service_info \<Rightarrow> bool) \<Rightarrow> services \<Rightarrow> services \<times> action list" where
  "end_services P services =
     (filter (\<lambda>(_, svc). \<not> P svc) services, map (\<lambda>(_, svc). KillGroup (si_pid svc)) (filter (\<lambda>(_, svc). P svc) services))"

definition teardown_manifest ::
  "bool \<Rightarrow> bool \<Rightarrow> string \<Rightarrow> tunnels state_file \<times> services state_file \<Rightarrow>
     (tunnels state_file \<times> services state_file) \<times> action list \<times> (cli_error, unit) res"
where
  "teardown_manifest written1 written2 path st =
     (let (tf, sf) = st in
      case read_map tf of
        Inl e \<Rightarrow> (st, [], Err e)
      | Inr tunnels \<Rightarrow>
          let (tunnels', acts1) = end_tunnels (\<lambda>_ info. ti_manifest info = path) tunnels;
              (tf', r1) = write_back written1 tunnels' tf
          in case r1 of
               Inl e \<Rightarrow> ((tf', sf), acts1, Err e)
             | Inr _ \<Rightarrow>
                 (case read_map sf of
                    Inl e \<Rightarrow> ((tf', sf), acts1, Err e)
                  | Inr services \<Rightarrow>
                      let (services', acts2) = end_services (\<lambda>svc. si_manifest svc = path) services;
                          (sf', r2) = write_back written2 services' sf
                      in ((tf', sf'), acts1 @ acts2, r2)))"

text \<open>\<open>waitForeground\<close> after its signal (\<open>None\<close>) or the exit of a service.\<close>

definition wait_foreground ::
  "string option \<Rightarrow> bool \<Rightarrow> bool \<Rightarrow> string \<Rightarrow> tunnels state_file \<times> services state_file \<Rightarrow>
     (tunnels state_file \<times> services state_file) \<times> action list \<times> (cli_error, unit) res"
where
  "wait_foreground exited written1 written2 path st =
     (let (st', acts, r) = teardown_manifest written1 written2 path st
      in (st', acts, case exited of Some name \<Rightarrow> Err (ServiceExit name) | None \<Rightarrow> r))"

definition same_host :: "string \<Rightarrow> manifest \<Rightarrow> bool" where
  "same_host key m = list_ex (\<lambda>e. key = me_host e \<or> has_prefix key (me_host e @ ''/'')) (mf_envs m)"

definition prune_dead_services :: "(int \<Rightarrow> bool) \<Rightarrow> services \<Rightarrow> services" where
  "prune_dead_services alive services = filter (\<lambda>(_, info). alive (si_pid info)) services"

definition any_survivor_on :: "(int \<Rightarrow> bool) \<Rightarrow> tunnels \<Rightarrow> services \<Rightarrow> string \<Rightarrow> bool" where
  "any_survivor_on alive tunnels services tld =
     (list_ex (\<lambda>(_, t). alive (ti_pid t) \<and> ti_tld t = tld) tunnels \<or> list_ex (\<lambda>(_, s). alive (si_pid s)) services)"

definition project_status :: "(int \<Rightarrow> bool) \<Rightarrow> project \<Rightarrow> tunnels \<Rightarrow> services \<Rightarrow> string \<times> nat" where
  "project_status alive p tunnels services =
     (let live = length (filter (\<lambda>(_, t). same_dir (path_dir (ti_manifest t)) (p_path p) \<and> ti_manifest t \<noteq> [] \<and> alive (ti_pid t)) tunnels);
          svcLive = length (filter (\<lambda>(_, s). same_dir (si_manifest s) (p_path p) \<and> si_manifest s \<noteq> [] \<and> alive (si_pid s)) services);
          total = live + svcLive
      in if total > 0 \<and> svcLive > 0 \<and> live = 0 then (''services'', total)
         else if total > 0 then (''running'', total) else (''stopped'', 0))"

section \<open>Down\<close>

record down_env =
  dn_manifest :: "string \<Rightarrow> manifest option"
  dn_cwd :: string
  dn_control_plane :: bool
  dn_written1 :: bool
  dn_written2 :: bool
  dn_written3 :: bool

text \<open>The manifest a project name or a file argument stands for.\<close>

definition resolve_file :: "string \<Rightarrow> string \<Rightarrow> project_registry state_file \<Rightarrow> string \<Rightarrow> (cli_error, string) res" where
  "resolve_file fl project reg cwd =
     (if project \<noteq> [] then
        (if fl \<noteq> [] then Err FileAndProject
         else case read_map reg of
           Inl e \<Rightarrow> Err e
         | Inr rg \<Rightarrow>
             (case get_project rg project of
                None \<Rightarrow> Err (UnknownProject project)
              | Some p \<Rightarrow> Ok (path_abs cwd (path_join [p_path p, ''roxey.yaml'']))))
      else Ok (path_abs cwd (if fl = [] then ''roxey.yaml'' else fl)))"

text \<open>
  The bookkeeping at the end of \<open>cmdDown\<close>: every project of the directory is forgotten (the
  results of \<open>Save\<close> are ignored), then the hosts that remain are synced.
\<close>

definition forget_dir :: "bool \<Rightarrow> string \<Rightarrow> project_registry \<Rightarrow> project_registry state_file \<Rightarrow> project_registry \<times> project_registry state_file" where
  "forget_dir written dir rg fl =
     (let gone = filter (\<lambda>(_, p). same_dir (p_path p) dir) rg;
          rg' = foldl (\<lambda>r (_, p). gdel (p_name p) r) rg gone
      in (rg', if gone \<noteq> [] \<and> written then Holds rg' else fl))"

definition cmd_down ::
  "down_env \<Rightarrow> string list \<Rightarrow> tunnels state_file \<times> services state_file \<times> project_registry state_file \<Rightarrow>
     (tunnels state_file \<times> services state_file \<times> project_registry state_file) \<times> action list \<times> (cli_error, nat \<times> nat) res"
where
  "cmd_down en args st =
     (let (tf, sf, pf) = st in
      case parse_down_args [] [] args of
        Inl e \<Rightarrow> (st, [], Err (BadUsage e))
      | Inr (fl, project) \<Rightarrow>
          (case resolve_file fl project pf (dn_cwd en) of
             Inl e \<Rightarrow> (st, [], Err e)
           | Inr absFile \<Rightarrow>
               (case dn_manifest en absFile of
                  None \<Rightarrow> (st, [], Err ManifestInvalid)
                | Some m \<Rightarrow>
                    let acts0 = (if dn_control_plane en then [DeleteTopology (path_slug (dn_cwd en) (path_base (path_dir absFile)) (mf_dir m))] else []) in
                    case read_map tf of
                      Inl e \<Rightarrow> (st, acts0, Err e)
                    | Inr tunnels \<Rightarrow>
                        let mine = (\<lambda>k info. ti_manifest info = absFile \<or> ti_manifest info = [] \<and> same_host k m);
                            (tunnels', acts1) = end_tunnels mine tunnels;
                            (tf', r1) = write_back (dn_written1 en) tunnels' tf in
                        case r1 of
                          Inl e \<Rightarrow> ((tf', sf, pf), acts0 @ acts1, Err e)
                        | Inr _ \<Rightarrow>
                            (case read_map sf of
                               Inl e \<Rightarrow> ((tf', sf, pf), acts0 @ acts1, Err e)
                             | Inr services \<Rightarrow>
                                 let (services', acts2) = end_services (\<lambda>svc. si_manifest svc = absFile) services;
                                     (sf', r2) = write_back (dn_written2 en) services' sf in
                                 case r2 of
                                   Inl e \<Rightarrow> ((tf', sf', pf), acts0 @ acts1 @ acts2, Err e)
                                 | Inr _ \<Rightarrow>
                                     (case read_map pf of
                                        Inl e \<Rightarrow> ((tf', sf', pf), acts0 @ acts1 @ acts2, Err e)
                                      | Inr rg \<Rightarrow>
                                          let (rg', pf') = forget_dir (dn_written3 en) (mf_dir m) rg pf;
                                              acts3 = (if rs_local (mf_relay m) \<and> needs_hosts (rs_tld (mf_relay m))
                                                then [SyncHosts (all_local_host_fqdns rg')] else [])
                                          in ((tf', sf', pf'), acts0 @ acts1 @ acts2 @ acts3,
                                              Ok (length tunnels - length tunnels', length services - length services')))))))"

end
