(* ===== verification/LocalRelay.thy ===== *)
theory LocalRelay
  imports Config Runner Hosts ServerProps
begin

text \<open>
  \<open>cli/internal/localrelay/ensure.go\<close>: the relay binary, starting the relay on this machine and
  logging in to it, and the start of the relay itself (\<open>main\<close> of \<open>backend/main.go\<close>) from the
  environment it is given. A release is the list of its assets, an archive the names of its entries;
  a wait is the list of its polls.
\<close>

section \<open>The binary\<close>

datatype relay_error = OverrideMissing string | ReleaseFailed | AssetMissing string | DownloadFailed | NotInArchive
  | BinaryUnwritable | FetchFailed relay_error | CredentialsUnsaved | PortInUse | SpawnFailed | NeverHealthy
  | NoRelayAccount string | CaUnreadable | RelayUnreachable | LoginRefused nat | KeyRefused nat | BadKeyReply | EmptyKey

definition binary_name :: string where "binary_name = ''roxey-relay''"

definition bin_path :: "string \<Rightarrow> string" where
  "bin_path dir = path_join [bin_dir dir, binary_name]"

record machine =
  mc_override :: string
  mc_exists :: "string \<Rightarrow> bool"
  mc_binary :: bool
  mc_os :: string
  mc_arch :: string
  mc_release :: "(string \<times> string) list option"
  mc_archive :: "string \<Rightarrow> (string list \<times> bool) option"
  mc_dirs :: bool
  mc_copied :: bool
  mc_renamed :: bool
  mc_chmod :: bool

definition latest_release_asset :: "machine \<Rightarrow> string \<Rightarrow> (relay_error, string) res" where
  "latest_release_asset mc name =
     (case mc_release mc of
        None \<Rightarrow> Err ReleaseFailed
      | Some assets \<Rightarrow> (case find (\<lambda>(n, _). n = name) assets of None \<Rightarrow> Err (AssetMissing name) | Some (_, url) \<Rightarrow> Ok url))"

text \<open>The entries in order up to the binary; the flag says whether the archive ends where its entries do.\<close>

fun extract_relay :: "string list \<Rightarrow> bool \<Rightarrow> bool \<Rightarrow> (relay_error, unit) res" where
  "extract_relay [] clean copied = Err (if clean then NotInArchive else DownloadFailed)"
| "extract_relay (n # ns) clean copied =
     (if path_base n = binary_name then (if copied then Ok () else Err BinaryUnwritable) else extract_relay ns clean copied)"

definition download_extract :: "machine \<Rightarrow> string \<Rightarrow> (relay_error, unit) res" where
  "download_extract mc url =
     (case mc_archive mc url of None \<Rightarrow> Err DownloadFailed | Some (names, clean) \<Rightarrow> extract_relay names clean (mc_copied mc))"

definition ensure_binary :: "machine \<Rightarrow> string \<Rightarrow> (relay_error, string) res" where
  "ensure_binary mc dir =
     (if mc_override mc \<noteq> [] then
        (if mc_exists mc (mc_override mc) then Ok (mc_override mc) else Err (OverrideMissing (mc_override mc)))
      else if mc_binary mc then Ok (bin_path dir)
      else res_bind (latest_release_asset mc (binary_name @ ''_'' @ mc_os mc @ ''_'' @ mc_arch mc @ ''.tar.gz'')) (\<lambda>url.
        if \<not> mc_dirs mc then Err BinaryUnwritable
        else res_bind (download_extract mc url) (\<lambda>_.
          if mc_renamed mc \<and> mc_chmod mc then Ok (bin_path dir) else Err BinaryUnwritable)))"

section \<open>Starting the relay\<close>

text \<open>\<open>HealthOK\<close>: the CA parses and the probe is answered with 200.\<close>

definition health_ok :: "bool \<Rightarrow> nat option \<Rightarrow> bool" where
  "health_ok ca answer = (ca \<and> answer = Some 200)"

text \<open>A loop that polls until a deadline: the time and the answer of every round.\<close>

fun wait_until :: "int \<Rightarrow> (int \<times> bool) list \<Rightarrow> bool option" where
  "wait_until deadline [] = None"
| "wait_until deadline ((now, ok) # ps) =
     (if \<not> now < deadline then Some False else if ok then Some True else wait_until deadline ps)"

record start_relay_env =
  sr_healthy :: bool
  sr_port_busy :: bool
  sr_machine :: machine
  sr_name :: string
  sr_pass :: string
  sr_saved :: bool
  sr_spawns :: bool
  sr_now :: int
  sr_polls :: "(int \<times> bool) list"

definition ensure_running ::
  "start_relay_env \<Rightarrow> string \<Rightarrow> string \<Rightarrow> servers state_file \<Rightarrow> (servers state_file \<times> string list \<times> (relay_error, unit) res) option"
where
  "ensure_running en dir tld fl =
     (if sr_healthy en then Some (fl, [], Ok ())
      else if sr_port_busy en then Some (fl, [], Err PortInUse)
      else case ensure_binary (sr_machine en) dir of
        Inl e \<Rightarrow> Some (fl, [], Err (FetchFailed e))
      | Inr bin \<Rightarrow>
          (case relay_credentials (sr_name en) (sr_pass en) (sr_saved en) tld fl of
             (fl', Inl _) \<Rightarrow> Some (fl', [], Err CredentialsUnsaved)
           | (fl', Inr creds) \<Rightarrow>
               (let args = [''-b'', ''env''] @ relay_env dir tld creds @ [bin] in
                if \<not> sr_spawns en then Some (fl', args, Err SpawnFailed)
                else case wait_until (sr_now en + 30) (sr_polls en) of
                  None \<Rightarrow> None
                | Some True \<Rightarrow> Some (fl', args, Ok ())
                | Some False \<Rightarrow> Some (fl', args, Err NeverHealthy))))"

section \<open>Logging in\<close>

text \<open>
  The client's requests go to a relay with a state of its own; \<open>None\<close> is a request without an
  answer. The cookie jar keeps the cookies the login sets.
\<close>

definition relay_call :: "string \<Rightarrow> string \<Rightarrow> string list \<Rightarrow> (string \<times> string) option \<Rightarrow> string \<Rightarrow> api_request" where
  "relay_call tld path cookies creds label =
     \<lparr>rq_method = ''POST'', rq_host = relay_host tld, rq_path = path, rq_raw_query = [], rq_cookies = cookies,
      rq_authorization = [], rq_cf_ip = [], rq_forwarded_for = [], rq_remote = ''127.0.0.1:1'', rq_form_password = None,
      ar_accept = [], ar_credentials = creds, ar_label = label\<rparr>"

definition jar_header :: "cookie list \<Rightarrow> string list" where
  "jar_header cs =
     (case filter (\<lambda>c. 0 \<le> ck_max_age c) cs of [] \<Rightarrow> [] | kept \<Rightarrow> [str_join ''; '' (map cookie_line kept)])"

definition login_and_create_key ::
  "('w \<Rightarrow> api_request \<Rightarrow> 'w \<times> reply option) \<Rightarrow> bool \<Rightarrow> string \<Rightarrow> string \<Rightarrow> servers state_file \<Rightarrow> 'w \<Rightarrow> 'w \<times> (relay_error, string) res"
where
  "login_and_create_key send ca label tld fl w =
     (case server_for fl tld of
        None \<Rightarrow> (w, Err (NoRelayAccount tld))
      | Some sc \<Rightarrow>
          if sc_admin_email sc = [] \<or> sc_admin_pass sc = [] then (w, Err (NoRelayAccount tld))
          else if \<not> ca then (w, Err CaUnreadable)
          else case send w (relay_call tld ''/api/auth/login'' [] (Some (sc_admin_email sc, sc_admin_pass sc)) []) of
            (w1, None) \<Rightarrow> (w1, Err RelayUnreachable)
          | (w1, Some rep1) \<Rightarrow>
              if rp_status rep1 \<noteq> 200 then (w1, Err (LoginRefused (rp_status rep1)))
              else (case send w1 (relay_call tld ''/api/keys'' (jar_header (rp_cookies rep1)) None label) of
                (w2, None) \<Rightarrow> (w2, Err RelayUnreachable)
              | (w2, Some rep2) \<Rightarrow>
                  if rp_status rep2 \<noteq> 200 then (w2, Err (KeyRefused (rp_status rep2)))
                  else case rp_body rep2 of
                    NewKeyJson _ key \<Rightarrow> (w2, if key = [] then Err EmptyKey else Ok key)
                  | _ \<Rightarrow> (w2, Err BadKeyReply)))"

section \<open>The relay's start\<close>

definition getenv_or :: "string list \<Rightarrow> string \<Rightarrow> string \<Rightarrow> string" where
  "getenv_or es key dflt = (case getenv es key of None \<Rightarrow> dflt | Some v \<Rightarrow> if v = [] then dflt else v)"

datatype boot_error = NoAdminAccount | StoreUnopened | PasswordUnhashed | SeedFailed store_error

record boot_env =
  bo_store :: "store option"
  bo_hash :: "string option"
  bo_fails :: "bool \<times> bool"
  bo_bytes :: string
  bo_stamp :: string
  bo_secret :: string
  bo_mono :: int

record booted =
  bt_config :: relay_config
  bt_state :: relay_state
  bt_admin_host :: string

definition boot :: "boot_env \<Rightarrow> string list \<Rightarrow> (boot_error, booted) res" where
  "boot bo es =
     (let domain = getenv_or es ''ROXEY_DOMAIN'' ''f43.run'';
          admin_host = getenv_or es ''ROXEY_ADMIN_HOST'' (''roxey.'' @ domain);
          single = (getenv_or es ''ROXEY_SINGLE_USER'' [] = ''1'');
          email = to_lower (getenv_or es ''ROXEY_ADMIN_EMAIL'' []);
          password = getenv_or es ''ROXEY_ADMIN_PASSWORD'' [];
          done = (\<lambda>st. Ok \<lparr>bt_config = \<lparr>rc_sessions = new_sessions (bo_secret bo), rc_domain = domain, rc_single = single\<rparr>,
            bt_state = \<lparr>rl_store = st, rl_signup = new_limiter minute 10 (bo_mono bo)\<rparr>, bt_admin_host = admin_host\<rparr>)
      in if single \<and> (email = [] \<or> password = []) then Err NoAdminAccount
         else case bo_store bo of
           None \<Rightarrow> Err StoreUnopened
         | Some st \<Rightarrow>
             if \<not> single then done st
             else case bo_hash bo of
               None \<Rightarrow> Err PasswordUnhashed
             | Some hash \<Rightarrow>
                 (case seed_single_user (bo_fails bo) (bo_bytes bo) (bo_stamp bo) st email hash of
                    (_, Inl e) \<Rightarrow> Err (SeedFailed e)
                  | (st', Inr _) \<Rightarrow> done st'))"

text \<open>
  A request to the running relay, as the handler of \<open>main\<close> routes it. Tunnel upgrades and the
  visitors of tunnels are the theories \<open>TunnelConn\<close> and \<open>Gate\<close>: here they have no reply.
\<close>

definition booted_send ::
  "(string \<Rightarrow> string \<Rightarrow> bool) \<Rightarrow> booted \<Rightarrow> registry \<Rightarrow> (nat \<Rightarrow> api_env) \<Rightarrow> relay_state \<times> nat \<Rightarrow> api_request \<Rightarrow> (relay_state \<times> nat) \<times> reply option"
where
  "booted_send check_pw bt reg en w r =
     (let (s, n) = w in
      case dispatch_request (bt_admin_host bt) (rc_domain (bt_config bt)) (rq_host r) (rq_path r) of
        Healthz \<Rightarrow> ((s, Suc n), Some (write_json 200 (PlainText ''ok'')))
      | AdminMux \<Rightarrow> (let (s', rep) = serve_mux check_pw (bt_config bt) reg s r (en n) in ((s', Suc n), Some rep))
      | UnknownHost \<Rightarrow> ((s, Suc n), Some (http_error 404 ''unknown host''))
      | _ \<Rightarrow> ((s, Suc n), None))"

end
