(* ===== verification/HelperClient.thy ===== *)
theory HelperClient
  imports HelperProps
begin

text \<open>
  \<open>cli/internal/helper/client.go\<close>: the CLI's side of the helper's socket. A call has three fates: it
  does not reach the daemon, it is handled but its answer is lost, or it is answered.
\<close>

datatype fate = Unreached | Unanswered | Answered

definition call_op :: "fate \<Rightarrow> os_env \<Rightarrow> int \<Rightarrow> int \<Rightarrow> request \<Rightarrow> daemon \<Rightarrow> daemon \<times> reply option" where
  "call_op fate env owner uid req d =
     (case fate of
        Unreached \<Rightarrow> (d, None)
      | Unanswered \<Rightarrow> (fst (handle_conn env owner d (Some uid) (Some req)), None)
      | Answered \<Rightarrow> (let (d', rep) = handle_conn env owner d (Some uid) (Some req) in (d', Some rep)))"

text \<open>\<open>do\<close>: the daemon afterwards, and whether the call succeeded.\<close>

definition helper_do :: "fate \<Rightarrow> os_env \<Rightarrow> int \<Rightarrow> int \<Rightarrow> request \<Rightarrow> daemon \<Rightarrow> daemon \<times> bool" where
  "helper_do fate env owner uid req d =
     (let (d', rep) = call_op fate env owner uid req d in (d', case rep of None \<Rightarrow> False | Some r \<Rightarrow> rp_ok r))"

definition sync_hosts_request :: "string list \<Rightarrow> request" where
  "sync_hosts_request hosts = \<lparr>rq_op = ''sync_hosts'', rq_hosts = hosts\<rparr>"

definition ensure_relay_request :: request where
  "ensure_relay_request = \<lparr>rq_op = ''ensure_relay'', rq_hosts = []\<rparr>"

definition trust_ca_request :: request where
  "trust_ca_request = \<lparr>rq_op = ''trust_ca'', rq_hosts = []\<rparr>"

definition available :: "fate \<Rightarrow> os_env \<Rightarrow> int \<Rightarrow> int \<Rightarrow> daemon \<Rightarrow> bool" where
  "available fate env owner uid d = snd (helper_do fate env owner uid \<lparr>rq_op = ''ping'', rq_hosts = []\<rparr> d)"

definition relay_status_of :: "fate \<Rightarrow> os_env \<Rightarrow> int \<Rightarrow> int \<Rightarrow> daemon \<Rightarrow> (string \<times> bool) option" where
  "relay_status_of fate env owner uid d =
     map_option (\<lambda>rep. (rp_tld rep, rp_relay_up rep)) (snd (call_op fate env owner uid \<lparr>rq_op = ''relay_status'', rq_hosts = []\<rparr> d))"

section \<open>What a call does\<close>

lemma helper_do_sync:
  "helper_do Answered env owner uid (sync_hosts_request hosts) d =
     (if uid = owner then (fst (sync_hosts env d hosts), rp_ok (snd (sync_hosts env d hosts))) else (d, False))"
  by (auto simp: helper_do_def call_op_def handle_conn_def handle_def sync_hosts_request_def reply_err_def reply_ok_def case_prod_unfold Let_def)

lemma helper_do_relay_hosts: "d_hosts (fst (helper_do fate env owner uid ensure_relay_request d)) = d_hosts d"
  by (simp add: helper_do_def call_op_def handle_conn_def handle_def ensure_relay_request_def case_prod_unfold Let_def ensure_relay_hosts
      split: fate.splits)

lemma helper_do_trust: "fst (helper_do fate env owner uid trust_ca_request d) = d"
  by (simp add: helper_do_def call_op_def handle_conn_def handle_def trust_ca_request_def case_prod_unfold Let_def split: fate.splits)

lemma available_ping: "available fate env owner uid d \<longleftrightarrow> fate = Answered \<and> uid = owner"
  by (auto simp: available_def helper_do_def call_op_def handle_conn_def handle_def reply_err_def reply_ok_def split: fate.splits)

end
