(* ===== verification/CliUp.thy ===== *)
theory CliUp
  imports CliState LocalRelay HelperClient
begin

text \<open>
  \<open>cmdUp\<close> in \<open>cli/main.go\<close>, from the parsed options to the running tunnels: which manifest, the
  preview it is rewritten to, the relay and its key, the ports and templates, the services and
  the tunnels. The steps run on the state files; every answer from outside is a field of \<open>up_env\<close>.
  A step returns \<open>None\<close> while the port allocator still repeats itself.
\<close>

section \<open>State and inputs\<close>

record up_world =
  uw_servers :: "servers state_file"
  uw_tunnels :: "tunnels state_file"
  uw_services :: "services state_file"
  uw_projects :: "project_registry state_file"
  uw_machine :: daemon
  uw_acts :: "action list"

text \<open>
  The machine of local mode: what the helper, \<open>sudo\<close>, the trust store and the local relay answer.
  The file of \<open>/etc/hosts\<close> and the helper's relay are the component \<open>uw_machine\<close> of the state.
\<close>

record local_env =
  le_os :: os_env
  le_owner :: int
  le_uid :: int
  le_ping :: fate
  le_calls :: "string \<Rightarrow> fate"
  le_interactive :: bool
  le_machine :: machine
  le_exe :: string
  le_installs :: bool
  le_helper_wait :: "int \<times> (int \<times> bool) list"
  le_relay_wait :: "int \<times> (int \<times> bool) list"
  le_trusted :: bool
  le_trusts :: bool
  le_sudo_hosts :: bool
  le_start :: start_relay_env
  le_certs :: bool
  le_ca :: bool
  le_relay :: "nat \<Rightarrow> api_request \<Rightarrow> RelayServer.reply option"

record up_env =
  ue_cwd :: string
  ue_dir :: string
  ue_domain :: string
  ue_manifest :: "string \<Rightarrow> manifest option"
  ue_control :: "string option"
  ue_detect :: "string \<Rightarrow> string \<times> bool"
  ue_now :: string
  ue_written :: bool
  ue_local :: local_env
  ue_ports :: "int option list"
  ue_lookup :: "string list \<Rightarrow> (string, string) gomap option"
  ue_alive :: "int \<Rightarrow> bool"
  ue_service :: "string \<Rightarrow> int option"
  ue_group :: "string option"
  ue_start :: "string \<Rightarrow> start_env"
  ue_published :: bool

datatype up_error = UpCli cli_error | NoSuchManifest | PortFailed port_error | TemplateFailed template_error
  | LookupFailed | NotAssigned string | LocalCerts | TrustFailure | HostsSyncFailed | EnsureFailed | RelayNotHealthy | SudoRelay relay_error | LocalLogin relay_error | NoApiKey string | NoRandom | PublishFailed

type_synonym 'a up = "up_world \<Rightarrow> (up_world \<times> (up_error, 'a) res) option"

definition up_return :: "'a \<Rightarrow> 'a up" where "up_return x w = Some (w, Ok x)"
definition up_fail :: "up_error \<Rightarrow> 'a up" where "up_fail e w = Some (w, Err e)"

definition up_bind :: "'a up \<Rightarrow> ('a \<Rightarrow> 'b up) \<Rightarrow> 'b up" where
  "up_bind m f w = (case m w of None \<Rightarrow> None | Some (w', Inl e) \<Rightarrow> Some (w', Err e) | Some (w', Inr x) \<Rightarrow> f x w')"

definition up_lift :: "(up_error, 'a) res \<Rightarrow> 'a up" where "up_lift r w = Some (w, r)"
definition up_get :: "(up_world \<Rightarrow> 'b) \<Rightarrow> ('b \<Rightarrow> 'a up) \<Rightarrow> 'a up" where "up_get g f w = f (g w) w"
definition up_set :: "(up_world \<Rightarrow> up_world) \<Rightarrow> unit up" where "up_set f w = Some (f w, Ok ())"
definition up_acts :: "action list \<Rightarrow> unit up" where "up_acts as w = Some (w\<lparr>uw_acts := uw_acts w @ as\<rparr>, Ok ())"

section \<open>The manifest and its preview\<close>

definition up_file :: "up_options \<Rightarrow> string \<Rightarrow> project_registry state_file \<Rightarrow> (cli_error, string) res" where
  "up_file opts cwd reg = resolve_file (uo_file opts) (uo_project opts) reg cwd"

text \<open>Whether this is a preview, its slug, and the branch recorded for it.\<close>

definition preview_identity :: "up_options \<Rightarrow> (string \<Rightarrow> string \<times> bool) \<Rightarrow> string \<Rightarrow> bool \<times> string \<times> string" where
  "preview_identity opts detect_in dir =
     (let (b, found) = detect_in dir in
      if uo_preview opts then
        (if uo_slug opts \<noteq> [] then (True, slugify (uo_slug opts), uo_slug opts)
         else if found then (True, slugify b, b) else (True, ''local'', ''local''))
      else if found then (True, slugify b, b)
      else (False, uo_slug opts, []))"

definition has_dotted_hosts :: "manifest \<Rightarrow> bool" where
  "has_dotted_hosts m = list_ex (\<lambda>e. str_contains (me_host e) ''.'') (mf_envs m)"

definition has_protected :: "manifest \<Rightarrow> bool" where
  "has_protected m = list_ex (\<lambda>e. me_protect e \<noteq> []) (mf_envs m)"

definition preview_mode :: "manifest \<Rightarrow> mode" where
  "preview_mode m = (if rs_local (mf_relay m) then ModeSubdomain else ModeFlatten)"

definition go_online :: "string \<Rightarrow> manifest \<Rightarrow> manifest" where
  "go_online tld m =
     (let rs = mf_relay m in
      m\<lparr>mf_relay := rs\<lparr>rs_local := False, rs_tld := tld,
          rs_api_key := (if rs_local rs \<or> rs_tld rs \<noteq> tld then [] else rs_api_key rs)\<rparr>\<rparr>)"

definition protect_all :: "string \<Rightarrow> manifest \<Rightarrow> manifest" where
  "protect_all secret m = (if secret = [] then m else m\<lparr>mf_envs := map (\<lambda>e. e\<lparr>me_protect := secret\<rparr>) (mf_envs m)\<rparr>)"

text \<open>The manifest \<open>up\<close> runs, with the branch and whether it is a preview.\<close>

definition rewrite_manifest :: "up_env \<Rightarrow> up_options \<Rightarrow> string \<Rightarrow> manifest \<Rightarrow> manifest \<times> string \<times> bool" where
  "rewrite_manifest en opts projectName m0 =
     (let (isPreview0, slug0, branch0) = preview_identity opts (ue_detect en) (mf_dir m0) in
      case ue_control en of
        Some domain \<Rightarrow>
          (protect_all (uo_protect opts) (m0\<lparr>mf_relay := (mf_relay m0)\<lparr>rs_local := False, rs_api_key := [], rs_tld := domain\<rparr>\<rparr>), branch0, isPreview0)
      | None \<Rightarrow>
          let m1 = (if uo_online opts then go_online (default_tld (ue_domain en)) m0 else m0);
              auto = uo_online opts \<and> \<not> isPreview0 \<and> has_dotted_hosts m1;
              slug = (if auto then path_slug (ue_cwd en) projectName (mf_dir m1) else slug0);
              branch = (if auto then slug else branch0);
              isPreview = (isPreview0 \<or> auto);
              m2 = (if isPreview then fst (apply_mode m1 projectName slug (preview_mode m1)) else m1)
          in (protect_all (uo_protect opts) m2, branch, isPreview))"

section \<open>The relay\<close>

text \<open>One step of the privileged setup that may fail, and a wait for something to come up.\<close>

definition up_step :: "action \<Rightarrow> bool \<Rightarrow> up_error \<Rightarrow> unit up" where
  "up_step act ok e = up_bind (up_acts [act]) (\<lambda>_. if ok then up_return () else up_fail e)"

definition up_when :: "bool \<Rightarrow> unit up \<Rightarrow> unit up" where
  "up_when b m = (if b then m else up_return ())"

definition up_wait :: "int \<Rightarrow> int \<times> (int \<times> bool) list \<Rightarrow> bool up" where
  "up_wait timeout polls w = (case wait_until (fst polls + timeout) (snd polls) of None \<Rightarrow> None | Some b \<Rightarrow> Some (w, Ok b))"

text \<open>A call of the helper, which reads the registry the CLI has saved.\<close>

definition machine_os :: "local_env \<Rightarrow> up_world \<Rightarrow> os_env" where
  "machine_os le w =
     (le_os le)\<lparr>registry_file := (case uw_projects w of Missing \<Rightarrow> Some [] | Unreadable \<Rightarrow> None | Holds rg \<Rightarrow> Some rg)\<rparr>"

definition helper_call :: "local_env \<Rightarrow> Helper.request \<Rightarrow> action \<Rightarrow> up_error \<Rightarrow> unit up" where
  "helper_call le req act e w =
     (let (d, ok) = helper_do (le_calls le (rq_op req)) (machine_os le w) (le_owner le) (le_uid le) req (uw_machine w)
      in up_step act ok e (w\<lparr>uw_machine := d\<rparr>))"

definition apply_via_helper :: "local_env \<Rightarrow> string \<Rightarrow> string list \<Rightarrow> unit up" where
  "apply_via_helper le tld hosts =
     up_bind (up_when (\<not> le_trusted le) (helper_call le trust_ca_request TrustCa TrustFailure)) (\<lambda>_.
     up_bind (up_when (needs_hosts tld) (helper_call le (sync_hosts_request hosts) (SyncHosts hosts) HostsSyncFailed)) (\<lambda>_.
     up_bind (helper_call le ensure_relay_request EnsureRelay EnsureFailed) (\<lambda>_.
     up_bind (up_wait 30 (le_relay_wait le)) (\<lambda>healthy. if healthy then up_return () else up_fail RelayNotHealthy))))"

text \<open>\<open>localrelay.SyncHosts\<close> through sudo, and \<open>EnsureRunning\<close>, which may save fresh credentials.\<close>

definition sudo_hosts :: "local_env \<Rightarrow> string list \<Rightarrow> unit up" where
  "sudo_hosts le hosts =
     up_get uw_machine (\<lambda>d.
       case sync_hosts_content (d_hosts d) hosts of
         None \<Rightarrow> up_return ()
       | Some new \<Rightarrow>
           if le_sudo_hosts le then up_bind (up_set (uw_machine_update (d_hosts_update (\<lambda>_. new)))) (\<lambda>_. up_step (SyncHosts hosts) True HostsSyncFailed)
           else up_step (SyncHosts hosts) False HostsSyncFailed)"

definition sudo_relay :: "local_env \<Rightarrow> string \<Rightarrow> string \<Rightarrow> unit up" where
  "sudo_relay le dir tld w =
     (case ensure_running (le_start le) dir tld (uw_servers w) of
        None \<Rightarrow> None
      | Some (fl, args, r) \<Rightarrow>
          up_bind (up_acts (if args = [] then [] else [StartRelay args])) (\<lambda>_. case r of Inl e \<Rightarrow> up_fail (SudoRelay e) | Inr _ \<Rightarrow> up_return ())
            (w\<lparr>uw_servers := fl\<rparr>))"

definition apply_via_sudo :: "local_env \<Rightarrow> string \<Rightarrow> string \<Rightarrow> string list \<Rightarrow> unit up" where
  "apply_via_sudo le dir tld hosts =
     up_bind (up_when (\<not> le_trusted le) (up_step TrustCa (le_trusts le) TrustFailure)) (\<lambda>_.
     up_bind (up_when (needs_hosts tld) (sudo_hosts le hosts)) (\<lambda>_. sudo_relay le dir tld))"

text \<open>\<open>installDaemon\<close>: the arguments of the elevated command, when there is a relay binary to hand over.\<close>

definition install_daemon :: "local_env \<Rightarrow> string \<Rightarrow> bool up" where
  "install_daemon le dir =
     (case ensure_binary (le_machine le) dir of
        Inl _ \<Rightarrow> up_return False
      | Inr bin \<Rightarrow> up_bind (up_acts [InstallHelper [le_exe le, ''_install-daemon'', ''--state-dir'', dir, ''--relay-bin'', bin]])
          (\<lambda>_. up_return (le_installs le)))"

definition helper_available :: "local_env \<Rightarrow> bool" where
  "helper_available le = available (le_ping le) (le_os le) (le_owner le) (le_uid le) \<lparr>d_hosts = [], d_relay = None\<rparr>"

definition apply_local_privileged :: "local_env \<Rightarrow> string \<Rightarrow> string \<Rightarrow> string list \<Rightarrow> unit up" where
  "apply_local_privileged le dir tld hosts =
     (if helper_available le then apply_via_helper le tld hosts
      else if le_interactive le then
        up_bind (install_daemon le dir) (\<lambda>installed.
          if \<not> installed then apply_via_sudo le dir tld hosts
          else up_bind (up_wait 15 (le_helper_wait le)) (\<lambda>up. if up then apply_via_helper le tld hosts else apply_via_sudo le dir tld hosts))
      else apply_via_sudo le dir tld hosts)"

definition local_hosts :: "project_registry \<Rightarrow> manifest \<Rightarrow> string list" where
  "local_hosts rg m =
     (let tld = rs_tld (mf_relay m) in
      dedupe (all_local_host_fqdns rg @ map (\<lambda>e. fqdn (me_host e) tld) (mf_envs m) @
        (if tld = ''localhost'' then [''localhost''] else [])))"

definition saved_server :: "servers state_file \<Rightarrow> string \<Rightarrow> server_config" where
  "saved_server fl tld = (case server_for fl tld of None \<Rightarrow> no_server | Some sc \<Rightarrow> sc)"

definition up_cli :: "(cli_error, 'a) res \<Rightarrow> 'a up" where
  "up_cli r = up_lift (case r of Inl e \<Rightarrow> Err (UpCli e) | Inr x \<Rightarrow> Ok x)"

definition up_set_server :: "bool \<Rightarrow> string \<Rightarrow> server_config \<Rightarrow> unit up" where
  "up_set_server written tld sc =
     up_get uw_servers (\<lambda>fl0.
       let (fl, r) = set_server written tld sc fl0
       in up_bind (up_set (uw_servers_update (\<lambda>_. fl))) (\<lambda>_. case r of Inl _ \<Rightarrow> up_fail (UpCli StateUnwritable) | Inr _ \<Rightarrow> up_return ()))"

definition relay_login :: "local_env \<Rightarrow> string \<Rightarrow> servers state_file \<Rightarrow> (relay_error, string) res" where
  "relay_login le tld fl =
     snd (login_and_create_key (\<lambda>n r. (Suc n, le_relay le n r)) (le_ca le) ''auto-created by roxey up'' tld fl 0)"

definition ensure_local_relay :: "up_env \<Rightarrow> manifest \<Rightarrow> project_registry \<Rightarrow> string up" where
  "ensure_local_relay en m rg =
     (let le = ue_local en; tld = rs_tld (mf_relay m); hosts = local_hosts rg m in
      if \<not> le_certs le then up_fail LocalCerts
      else up_bind (apply_local_privileged le (ue_dir en) tld hosts) (\<lambda>_.
        up_get uw_servers (\<lambda>fl.
          let sc = saved_server fl tld in
          if sc_api_key sc \<noteq> [] then up_return (sc_api_key sc)
          else case relay_login le tld fl of
            Inl e \<Rightarrow> up_fail (LocalLogin e)
          | Inr key \<Rightarrow> up_bind (up_set_server (ue_written en) tld (sc\<lparr>sc_api_key := key\<rparr>)) (\<lambda>_. up_return key))))"

definition up_register :: "up_env \<Rightarrow> manifest \<Rightarrow> string \<Rightarrow> bool \<Rightarrow> project_registry up" where
  "up_register en m branch isPreview =
     up_get uw_projects (\<lambda>fl. up_bind (up_cli (read_map fl)) (\<lambda>rg.
       let ((rg', _), r) = register_project (ue_written en) (ue_now en) (rg, None) (mf_dir m) (rs_tld (mf_relay m))
             (rs_local (mf_relay m)) (map me_host (mf_envs m)) branch isPreview
       in case r of
            Inl _ \<Rightarrow> up_fail (UpCli StateUnwritable)
          | Inr _ \<Rightarrow> up_bind (up_set (uw_projects_update (\<lambda>_. Holds rg'))) (\<lambda>_. up_return rg')))"

text \<open>
  The key the tunnels run with, saved for the workers. In local mode the variable of the code
  keeps the manifest's (empty) key: the key of the local relay is saved by \<open>ensure_local_relay\<close>, and
  the copy of it that the code puts into the manifest's record is not read afterwards.
\<close>

definition up_key :: "up_env \<Rightarrow> manifest \<Rightarrow> project_registry \<Rightarrow> string up" where
  "up_key en m rg =
     (let tld = rs_tld (mf_relay m); key = rs_api_key (mf_relay m) in
      up_bind
        (if rs_local (mf_relay m) then up_bind (ensure_local_relay en m rg) (\<lambda>_. up_return key)
         else if key \<noteq> [] then up_return key
         else up_get uw_servers (\<lambda>fl. let sc = saved_server fl tld in
                if sc_api_key sc = [] then up_fail (NoApiKey tld) else up_return (sc_api_key sc)))
        (\<lambda>k. if k \<noteq> [] then
            up_bind (up_set_server (ue_written en) tld (no_server\<lparr>sc_api_key := k, sc_local := rs_local (mf_relay m)\<rparr>)) (\<lambda>_. up_return k)
          else up_return k))"

section \<open>Ports, hosts and templates\<close>

definition up_ports :: "up_env \<Rightarrow> bool \<Rightarrow> manifest \<Rightarrow> manifest up" where
  "up_ports en isPreview m w =
     (case assign_ports isPreview (ue_ports en) m of
        None \<Rightarrow> None
      | Some (Inl e) \<Rightarrow> up_fail (PortFailed e) w
      | Some (Inr m') \<Rightarrow> up_return m' w)"

fun assign_hosts :: "(string, string) gomap \<Rightarrow> (string \<times> string) list \<Rightarrow> (string, string) gomap \<Rightarrow> (up_error, (string, string) gomap) res" where
  "assign_hosts looked [] out = Ok out"
| "assign_hosts looked ((declared, effective) # rest) out =
     (case map_of looked effective of
        None \<Rightarrow> Err (NotAssigned effective)
      | Some h \<Rightarrow> if h = [] then Err (NotAssigned effective) else assign_hosts looked rest (gput declared h out))"

definition up_hosted :: "up_env \<Rightarrow> string \<Rightarrow> manifest \<Rightarrow> manifest up" where
  "up_hosted en key m =
     (if rs_local (mf_relay m) \<or> key = [] then up_return m
      else case ue_lookup en (map me_host (mf_envs m)) of
        None \<Rightarrow> up_fail LookupFailed
      | Some looked \<Rightarrow>
          up_bind (up_lift (assign_hosts looked (mf_host_map m) [])) (\<lambda>assigned. up_return (m\<lparr>mf_assigned := assigned\<rparr>)))"

text \<open>Control-plane mode: the labels replace the hosts of the environments.\<close>

fun relabel :: "(string, string) gomap \<Rightarrow> environment list \<Rightarrow> (up_error, environment list) res" where
  "relabel looked [] = Ok []"
| "relabel looked (e # es) =
     (case map_of looked (me_host e) of
        None \<Rightarrow> Err (NotAssigned (me_host e))
      | Some h \<Rightarrow> if h = [] then Err (NotAssigned (me_host e))
          else res_bind (relabel looked es) (\<lambda>es'. Ok (e\<lparr>me_host := h\<rparr> # es')))"

definition up_control :: "up_env \<Rightarrow> manifest \<Rightarrow> manifest up" where
  "up_control en m =
     (let origins = map me_host (mf_envs m) in
      case ue_lookup en origins of
        None \<Rightarrow> up_fail LookupFailed
      | Some looked \<Rightarrow>
          up_bind (up_lift (relabel looked (mf_envs m))) (\<lambda>es.
            let pairs = zip origins (map me_host es);
                put = (\<lambda>m0. foldl (\<lambda>acc (k, v). gput k v acc) m0 pairs)
            in up_return (m\<lparr>mf_envs := es, mf_host_map := put (mf_host_map m), mf_assigned := put []\<rparr>)))"

definition up_templates :: "bool \<Rightarrow> manifest \<Rightarrow> manifest up" where
  "up_templates online m = up_lift (case resolve_templates online m of Inl e \<Rightarrow> Err (TemplateFailed e) | Inr m' \<Rightarrow> Ok m')"

section \<open>Services\<close>

record run_route =
  rr_name :: string
  rr_env :: string
  rr_protect :: string
  rr_route :: route

definition all_routes :: "manifest \<Rightarrow> run_route list" where
  "all_routes m = concat (map (\<lambda>e. map (\<lambda>r. \<lparr>rr_name = me_host e @ rt_path r, rr_env = me_host e, rr_protect = me_protect e, rr_route = r\<rparr>) (me_routes e)) (mf_envs m))"

definition runs_of :: "manifest \<Rightarrow> run_route list" where "runs_of m = filter (\<lambda>rr. is_run (rr_route rr)) (all_routes m)"
definition proxies_of :: "manifest \<Rightarrow> run_route list" where "proxies_of m = filter (\<lambda>rr. \<not> is_run (rr_route rr)) (all_routes m)"

text \<open>What a previous run of the manifest left is stopped; \<open>KillGroup\<close> only for live processes.\<close>

definition restart_services :: "(int \<Rightarrow> bool) \<Rightarrow> string \<Rightarrow> services \<Rightarrow> services \<times> action list" where
  "restart_services alive absFile services = end_services (\<lambda>svc. si_manifest svc = absFile) (prune_dead_services alive services)"

definition restart_tunnels :: "(int \<Rightarrow> bool) \<Rightarrow> string \<Rightarrow> tunnels \<Rightarrow> tunnels \<times> action list" where
  "restart_tunnels alive absFile tunnels = end_tunnels (\<lambda>_ info. ti_manifest info = absFile \<and> alive (ti_pid info)) tunnels"

definition service_record :: "up_env \<Rightarrow> bool \<Rightarrow> string \<Rightarrow> run_route \<Rightarrow> int \<Rightarrow> service_info" where
  "service_record en detach absFile rr pid =
     (let r = rr_route rr in
      \<lparr>si_name = rr_name rr, si_pid = pid, si_port = rt_port r, si_command = rt_command r, si_cwd = rt_cwd r,
       si_manifest = absFile, si_started = ue_now en,
       si_log = (if detach then path_join [log_dir (ue_dir en), sanitize_name (rr_name rr) @ ''.log''] else [])\<rparr>)"

text \<open>The services that came up and the names of those that did not.\<close>

fun start_services :: "up_env \<Rightarrow> bool \<Rightarrow> string \<Rightarrow> run_route list \<Rightarrow> services \<Rightarrow> services \<times> string list" where
  "start_services en detach absFile [] services = (services, [])"
| "start_services en detach absFile (rr # rrs) services =
     (case ue_service en (rr_name rr) of
        None \<Rightarrow> (let (s, failed) = start_services en detach absFile rrs services in (s, rr_name rr # failed))
      | Some pid \<Rightarrow> start_services en detach absFile rrs
          (gput (svc_key absFile (rr_name rr)) (service_record en detach absFile rr pid) services))"

definition save_tunnels :: "bool \<Rightarrow> tunnels \<Rightarrow> unit up" where
  "save_tunnels written ts = (if written then up_set (uw_tunnels_update (\<lambda>_. Holds ts)) else up_fail (UpCli StateUnwritable))"

definition save_services :: "bool \<Rightarrow> services \<Rightarrow> unit up" where
  "save_services written ss = (if written then up_set (uw_services_update (\<lambda>_. Holds ss)) else up_fail (UpCli StateUnwritable))"

definition up_services :: "up_env \<Rightarrow> bool \<Rightarrow> string \<Rightarrow> manifest \<Rightarrow> string list up" where
  "up_services en detach absFile m =
     up_get uw_services (\<lambda>sf. up_bind (up_cli (read_map sf)) (\<lambda>services.
       let (services1, acts1) = restart_services (ue_alive en) absFile services in
       up_bind (up_acts acts1) (\<lambda>_.
       up_get uw_tunnels (\<lambda>tf. up_bind (up_cli (read_map tf)) (\<lambda>tunnels.
       let (tunnels1, acts2) = restart_tunnels (ue_alive en) absFile tunnels in
       up_bind (up_acts acts2) (\<lambda>_.
       up_bind (save_tunnels (ue_written en) tunnels1) (\<lambda>_.
       up_bind (up_acts (map (\<lambda>rr. ReclaimPort (rt_port (rr_route rr))) (runs_of m))) (\<lambda>_.
       let (services2, failed) = start_services en detach absFile (runs_of m) services1 in
       up_bind (save_services (ue_written en) services2) (\<lambda>_. up_return failed)))))))))"

section \<open>Tunnels\<close>

definition run_target :: "route \<Rightarrow> string" where
  "run_target r = (if is_run r then ''localhost:'' @ itoa (rt_port r) else rt_target r)"

definition worker_spec :: "string \<Rightarrow> string \<Rightarrow> run_route \<Rightarrow> run_spec" where
  "worker_spec tld gateGroup rr =
     \<lparr>ru_tld = tld, ru_service = rr_env rr, ru_path = trim_suffix (rt_path (rr_route rr)) ''/'', ru_target = run_target (rr_route rr),
      ru_protect = rr_protect rr, ru_group = gateGroup\<rparr>"

fun open_tunnels :: "up_env \<Rightarrow> string \<Rightarrow> run_spec list \<Rightarrow> unit up" where
  "open_tunnels en absFile [] w = Some (w, Ok ())"
| "open_tunnels en absFile (r # rs) w =
     (let key = tunnel_key (ru_service r) (ru_path r);
          (tf, acts, res) = start_one (ue_alive en) (ue_start en key) r absFile (uw_tunnels w);
          w' = w\<lparr>uw_tunnels := tf, uw_acts := uw_acts w @ acts\<rparr>
      in case res of Inl e \<Rightarrow> Some (w', Err (UpCli e)) | Inr _ \<Rightarrow> open_tunnels en absFile rs w')"

definition gate_group_of :: "up_env \<Rightarrow> manifest \<Rightarrow> (up_error, string) res" where
  "gate_group_of en m =
     (if \<not> has_protected m then Ok [] else case ue_group en of None \<Rightarrow> Err NoRandom | Some g \<Rightarrow> Ok (''up_'' @ g))"

text \<open>The topology handed to a control plane: environments without a port to dial are left out.\<close>

definition route_port :: "route \<Rightarrow> int" where
  "route_port r = (if is_run r then rt_port r else case target_port (rt_target r) of Some p \<Rightarrow> p | None \<Rightarrow> rt_port r)"

definition topology :: "manifest \<Rightarrow> (string \<times> (string \<times> int) list) list" where
  "topology m =
     filter (\<lambda>(_, rs). rs \<noteq> [])
       (map (\<lambda>e. (me_host e, filter (\<lambda>(_, p). 0 < p) (map (\<lambda>r. (rt_path r, route_port r)) (me_routes e)))) (mf_envs m))"

section \<open>Up\<close>

definition up_prepare :: "up_env \<Rightarrow> up_options \<Rightarrow> manifest \<Rightarrow> string \<Rightarrow> bool \<Rightarrow> manifest up" where
  "up_prepare en opts m branch isPreview =
     (if ue_control en \<noteq> None then
        up_bind (up_ports en False m) (\<lambda>m1. up_bind (up_control en m1) (up_templates True))
      else
        up_bind (up_register en m branch isPreview) (\<lambda>rg.
        up_bind (up_key en m rg) (\<lambda>key.
        up_bind (up_ports en isPreview m) (\<lambda>m1.
        up_bind (up_hosted en key m1) (up_templates (uo_online opts))))))"

definition up_tunnels :: "up_env \<Rightarrow> string \<Rightarrow> manifest \<Rightarrow> unit up" where
  "up_tunnels en absFile m =
     up_bind (up_lift (gate_group_of en m)) (\<lambda>grp.
       if ue_control en \<noteq> None then
         up_step (PublishTopology (path_slug (ue_cwd en) (path_base (path_dir absFile)) (mf_dir m)) (topology m)) (ue_published en) PublishFailed
       else open_tunnels en absFile (map (worker_spec (rs_tld (mf_relay m)) grp) (runs_of m @ proxies_of m)))"

definition up_run :: "up_env \<Rightarrow> up_options \<Rightarrow> string \<Rightarrow> manifest \<Rightarrow> string \<Rightarrow> bool \<Rightarrow> (manifest \<times> string list) up" where
  "up_run en opts absFile m branch isPreview =
     up_bind (up_prepare en opts m branch isPreview) (\<lambda>m2.
     up_bind (up_services en (uo_detach opts) absFile m2) (\<lambda>failed.
     up_bind (up_tunnels en absFile m2) (\<lambda>_. up_return (m2, failed))))"

definition cmd_up :: "up_env \<Rightarrow> string list \<Rightarrow> (manifest \<times> string list) up" where
  "cmd_up en args w =
     (case parse_up_options args of
        Inl e \<Rightarrow> up_fail (UpCli (BadUsage e)) w
      | Inr opts \<Rightarrow>
          (case up_file opts (ue_cwd en) (uw_projects w) of
             Inl e \<Rightarrow> up_fail (UpCli e) w
           | Inr absFile \<Rightarrow>
               (case ue_manifest en absFile of
                  None \<Rightarrow> up_fail NoSuchManifest w
                | Some m0 \<Rightarrow>
                    let (m, branch, isPreview) = rewrite_manifest en opts (path_base (path_dir absFile)) m0
                    in up_run en opts absFile m branch isPreview w)))"

end
