(* ===== verification/UpSteps.thy ===== *)
theory UpSteps
  imports CliUp
begin

text \<open>
  Reasoning about the steps of \<open>roxey up\<close>: a step started in a state with \<open>P\<close> ends, with or without
  an error, in a state with \<open>Q\<close> (\<open>ends_in\<close>), or ends well with \<open>Q\<close> of its result (\<open>yields\<close>). The locale
  \<open>relay_invariant\<close> is the contract of a predicate that setting up the relay keeps, and
  \<open>setup_invariant\<close> that of one that every step before the services keeps.
\<close>

section \<open>Every end of a step\<close>

definition ends_in :: "(up_world \<Rightarrow> bool) \<Rightarrow> 'a up \<Rightarrow> (up_world \<Rightarrow> bool) \<Rightarrow> bool" where
  "ends_in P m Q \<longleftrightarrow> (\<forall>w w' r. P w \<longrightarrow> m w = Some (w', r) \<longrightarrow> Q w')"

lemma ends_inD: "ends_in P m Q \<Longrightarrow> P w \<Longrightarrow> m w = Some (w', r) \<Longrightarrow> Q w'"
  by (auto simp: ends_in_def)

lemma ends_in_bind: "ends_in P m P' \<Longrightarrow> (\<And>x. ends_in P' (f x) Q) \<Longrightarrow> (\<And>w. P' w \<Longrightarrow> Q w) \<Longrightarrow> ends_in P (up_bind m f) Q"
  by (fastforce simp: ends_in_def up_bind_def split: option.splits prod.splits sum.splits)

lemma ends_in_keep: "ends_in P m P \<Longrightarrow> (\<And>x. ends_in P (f x) P) \<Longrightarrow> ends_in P (up_bind m f) P"
  by (rule ends_in_bind)

lemma ends_in_pre: "(\<And>w. P w \<Longrightarrow> P2 w) \<Longrightarrow> ends_in P2 m Q \<Longrightarrow> ends_in P m Q"
  by (auto simp: ends_in_def)

lemma ends_in_if: "(b \<Longrightarrow> ends_in P m Q) \<Longrightarrow> (\<not> b \<Longrightarrow> ends_in P m2 Q) \<Longrightarrow> ends_in P (if b then m else m2) Q"
  by simp

lemma ends_in_pure [simp, intro]: "ends_in P (up_return x) P" "ends_in P (up_fail e) P" "ends_in P (up_lift r) P" "ends_in P (up_cli c) P"
  by (simp_all add: ends_in_def up_return_def up_fail_def up_lift_def up_cli_def)

lemma ends_in_get: "(\<And>x. ends_in P (f x) Q) \<Longrightarrow> ends_in P (up_get g f) Q"
  by (auto simp: ends_in_def up_get_def)

lemma ends_in_set: "(\<And>w. P w \<Longrightarrow> Q (f w)) \<Longrightarrow> ends_in P (up_set f) Q"
  by (auto simp: ends_in_def up_set_def)

lemma ends_in_acts: "(\<And>w. P w \<Longrightarrow> Q (w\<lparr>uw_acts := uw_acts w @ as\<rparr>)) \<Longrightarrow> ends_in P (up_acts as) Q"
  by (auto simp: ends_in_def up_acts_def)

lemma ends_in_wait [simp, intro]: "ends_in P (up_wait t polls) P"
  by (auto simp: ends_in_def up_wait_def split: option.splits)

lemmas ends_in_rules = ends_in_keep ends_in_get ends_in_pure ends_in_wait

section \<open>The good end of a step\<close>

definition yields :: "'a up \<Rightarrow> up_world \<Rightarrow> up_world \<Rightarrow> 'a \<Rightarrow> bool" where
  "yields m w w' x \<longleftrightarrow> m w = Some (w', Ok x)"

lemma yields_bind [simp]: "yields (up_bind m f) w w' x \<longleftrightarrow> (\<exists>w1 y. yields m w w1 y \<and> yields (f y) w1 w' x)"
  by (auto simp: yields_def up_bind_def split: option.splits prod.splits sum.splits)

lemma yields_pure [simp]:
  "yields (up_return y) w w' x \<longleftrightarrow> w' = w \<and> x = y"
  "\<not> yields (up_fail e) w w' x"
  "yields (up_lift r) w w' x \<longleftrightarrow> w' = w \<and> r = Ok x"
  "yields (up_cli c) w w' x \<longleftrightarrow> w' = w \<and> c = Ok x"
  "yields (up_get g f) w w' x \<longleftrightarrow> yields (f (g w)) w w' x"
  "yields (up_set h) w w' u \<longleftrightarrow> w' = h w"
  "yields (up_acts as) w w' u \<longleftrightarrow> w' = w\<lparr>uw_acts := uw_acts w @ as\<rparr>"
  "yields (up_wait t polls) w w' b \<longleftrightarrow> w' = w \<and> wait_until (fst polls + t) (snd polls) = Some b"
  by (auto simp: yields_def up_return_def up_fail_def up_lift_def up_cli_def up_get_def up_set_def up_acts_def up_wait_def
      split: sum.splits option.splits)

lemma yields_if [simp]: "yields (if b then m else m2) w w' x \<longleftrightarrow> (if b then yields m w w' x else yields m2 w w' x)"
  by simp

lemma yields_ends_in: "ends_in P m Q \<Longrightarrow> P w \<Longrightarrow> yields m w w' x \<Longrightarrow> Q w'"
  by (auto simp: ends_in_def yields_def)

section \<open>Setting up\<close>

definition setup_action :: "action \<Rightarrow> bool" where
  "setup_action a = (case a of TrustCa \<Rightarrow> True | SyncHosts _ \<Rightarrow> True | EnsureRelay \<Rightarrow> True | StartRelay _ \<Rightarrow> True | InstallHelper _ \<Rightarrow> True | _ \<Rightarrow> False)"

locale relay_invariant =
  fixes I :: "up_world \<Rightarrow> bool"
  assumes keeps_servers: "I w \<Longrightarrow> I (w\<lparr>uw_servers := a\<rparr>)"
    and keeps_machine: "I w \<Longrightarrow> I (w\<lparr>uw_machine := d\<rparr>)"
    and keeps_acts: "I w \<Longrightarrow> list_all setup_action as \<Longrightarrow> I (w\<lparr>uw_acts := uw_acts w @ as\<rparr>)"
begin

lemma set_steps:
  "ends_in I (up_set (uw_servers_update f)) I" "ends_in I (up_set (uw_machine_update h)) I"
  using keeps_servers keeps_machine
  by (auto intro!: ends_in_set simp: up_world.defs) (metis up_world.surjective up_world.update_convs)+

lemma acts_step: "list_all setup_action as \<Longrightarrow> ends_in I (up_acts as) I"
  by (rule ends_in_acts) (rule keeps_acts)

lemma step_step: "setup_action act \<Longrightarrow> ends_in I (up_step act ok e) I"
  unfolding up_step_def by (intro ends_in_keep acts_step ends_in_if ends_in_pure) simp

lemma when_step: "ends_in I m I \<Longrightarrow> ends_in I (up_when b m) I"
  unfolding up_when_def by (intro ends_in_if ends_in_pure)

lemma helper_step: "setup_action act \<Longrightarrow> ends_in I (helper_call le req act e) I"
  using step_step [of act] keeps_machine unfolding ends_in_def helper_call_def case_prod_unfold Let_def by blast

lemma via_helper: "ends_in I (apply_via_helper le tld hosts) I"
  unfolding apply_via_helper_def
  by (intro ends_in_rules ends_in_if when_step helper_step) (simp_all add: setup_action_def)

lemma sudo_hosts_step: "ends_in I (sudo_hosts le hosts) I"
  unfolding sudo_hosts_def
  by (auto intro!: ends_in_rules set_steps step_step simp: setup_action_def split: option.splits)

lemma sudo_relay_step: "ends_in I (sudo_relay le dir tld) I"
proof -
  have "ends_in I (up_bind (up_acts (if args = [] then [] else [StartRelay args])) (\<lambda>_. case r of Inl e \<Rightarrow> up_fail (SudoRelay e) | Inr _ \<Rightarrow> up_return ())) I"
    for args and r :: "(relay_error, unit) res"
    by (rule ends_in_keep) (auto intro!: acts_step simp: setup_action_def split: sum.splits)
  note step = this
  show ?thesis
  proof (unfold ends_in_def, intro allI impI)
    fix w w' r
    assume w: "I w" and run: "sudo_relay le dir tld w = Some (w', r)"
    obtain fl args r1 where e: "ensure_running (le_start le) dir tld (uw_servers w) = Some (fl, args, r1)"
      using run by (auto simp: sudo_relay_def split: option.splits)
    show "I w'" using ends_inD [OF step keeps_servers [OF w]] run by (simp add: sudo_relay_def e)
  qed
qed

lemma via_sudo: "ends_in I (apply_via_sudo le dir tld hosts) I"
  unfolding apply_via_sudo_def
  by (intro ends_in_keep when_step step_step sudo_hosts_step sudo_relay_step) (simp add: setup_action_def)

lemma install_step: "ends_in I (install_daemon le dir) I"
  unfolding install_daemon_def by (auto intro!: ends_in_rules acts_step simp: setup_action_def split: sum.splits)

lemma privileged_step: "ends_in I (apply_local_privileged le dir tld hosts) I"
  unfolding apply_local_privileged_def
  by (intro ends_in_if ends_in_rules via_helper via_sudo install_step)

lemma set_server_step: "ends_in I (up_set_server written tld sc) I"
  unfolding up_set_server_def Let_def case_prod_unfold
  by (intro ends_in_rules set_steps) (auto split: sum.splits)

lemma local_relay_step: "ends_in I (ensure_local_relay en m rg) I"
  unfolding ensure_local_relay_def Let_def
  by (auto intro!: ends_in_rules privileged_step set_server_step split: sum.splits)

lemma key_step: "ends_in I (up_key en m rg) I"
  unfolding up_key_def Let_def
  by (auto intro!: ends_in_rules local_relay_step set_server_step)

lemma ports_step: "ends_in I (up_ports en isPreview m) I"
  by (auto simp: ends_in_def up_ports_def up_return_def up_fail_def split: option.splits sum.splits)

lemma hosted_step: "ends_in I (up_hosted en key m) I"
  unfolding up_hosted_def by (auto intro!: ends_in_rules split: option.splits)

lemma control_step: "ends_in I (up_control en m) I"
  unfolding up_control_def Let_def by (auto intro!: ends_in_rules split: option.splits)

lemma templates_step: "ends_in I (up_templates online m) I"
  unfolding up_templates_def by simp

end

locale setup_invariant = relay_invariant +
  assumes keeps_projects: "I w \<Longrightarrow> I (w\<lparr>uw_projects := b\<rparr>)"
begin

lemma set_projects: "ends_in I (up_set (uw_projects_update g)) I"
  using keeps_projects by (auto intro!: ends_in_set simp: up_world.defs) (metis up_world.surjective up_world.update_convs)+

lemma register_step: "ends_in I (up_register en m branch isPreview) I"
  unfolding up_register_def Let_def case_prod_unfold
  by (intro ends_in_rules) (auto intro!: ends_in_rules set_projects split: sum.splits)

lemma prepare_step: "ends_in I (up_prepare en opts m branch isPreview) I"
  unfolding up_prepare_def
  by (intro ends_in_if ends_in_keep ports_step control_step register_step key_step hosted_step templates_step)

end

section \<open>The good ends of the steps\<close>

lemma yields_case_sum [simp]: "yields (case r of Inl e \<Rightarrow> up_fail (g e) | Inr y \<Rightarrow> m y) w w' x \<longleftrightarrow> (\<exists>y. r = Ok y \<and> yields (m y) w w' x)"
  by (cases r) auto

lemma yields_step [simp]: "yields (up_step act ok e) w w' u \<longleftrightarrow> ok \<and> w' = w\<lparr>uw_acts := uw_acts w @ [act]\<rparr>"
  by (auto simp: up_step_def)

lemma yields_when [simp]: "yields (up_when b m) w w' u \<longleftrightarrow> (if b then yields m w w' u else w' = w)"
  by (auto simp: up_when_def)

lemma register_project_pair: "register_project written now (rg, d) dir tld loc hosts branch p = (st, r) \<longleftrightarrow>
   st = fst (register_project written now (rg, d) dir tld loc hosts branch p) \<and> r = snd (register_project written now (rg, d) dir tld loc hosts branch p)"
  by (metis fst_conv prod.collapse snd_conv)

definition registered :: "up_env \<Rightarrow> manifest \<Rightarrow> string \<Rightarrow> bool \<Rightarrow> project_registry \<Rightarrow> project_registry" where
  "registered en m branch isPreview rg =
     fst (fst (register_project True (ue_now en) (rg, None) (mf_dir m) (rs_tld (mf_relay m)) (rs_local (mf_relay m)) (map me_host (mf_envs m)) branch isPreview))"

lemma yields_register:
  "yields (up_register en m branch isPreview) w w' rg \<longleftrightarrow>
     (\<exists>rg0. read_map (uw_projects w) = Ok rg0 \<and> ue_written en \<and> rg = registered en m branch isPreview rg0 \<and> w' = w\<lparr>uw_projects := Holds rg\<rparr>)"
  by (auto simp: up_register_def registered_def register_project_def Let_def case_prod_unfold)

lemma yields_set_server:
  "yields (up_set_server written tld sc) w w' u \<longleftrightarrow> (\<exists>fl. set_server written tld sc (uw_servers w) = (fl, Ok ()) \<and> w' = w\<lparr>uw_servers := fl\<rparr>)"
  by (cases "set_server written tld sc (uw_servers w)") (auto simp: up_set_server_def Let_def)

lemma yields_ports: "yields (up_ports en p m) w w' m' \<longleftrightarrow> w' = w \<and> assign_ports p (ue_ports en) m = Some (Ok m')"
  by (auto simp: yields_def up_ports_def up_return_def up_fail_def split: option.splits sum.splits)

lemma yields_hosted:
  "yields (up_hosted en key m) w w' m' \<longleftrightarrow> w' = w \<and>
     (if rs_local (mf_relay m) \<or> key = [] then m' = m
      else \<exists>looked assigned. ue_lookup en (map me_host (mf_envs m)) = Some looked \<and>
        assign_hosts looked (mf_host_map m) [] = Ok assigned \<and> m' = m\<lparr>mf_assigned := assigned\<rparr>)"
  by (auto simp: up_hosted_def split: option.splits)

lemma yields_templates: "yields (up_templates online m) w w' m' \<longleftrightarrow> w' = w \<and> resolve_templates online m = Ok m'"
  by (auto simp: up_templates_def split: sum.splits)

definition keep_key :: "up_env \<Rightarrow> manifest \<Rightarrow> string \<Rightarrow> unit up" where
  "keep_key en m key =
     (if key \<noteq> [] then up_set_server (ue_written en) (rs_tld (mf_relay m)) (no_server\<lparr>sc_api_key := key, sc_local := rs_local (mf_relay m)\<rparr>)
      else up_return ())"

lemma yields_key_local:
  assumes "rs_local (mf_relay m)"
  shows "yields (up_key en m rg) w w' key \<longleftrightarrow>
    key = rs_api_key (mf_relay m) \<and> (\<exists>w1 k. yields (ensure_local_relay en m rg) w w1 k \<and> yields (keep_key en m key) w1 w' ())"
  using assms by (cases "rs_api_key (mf_relay m) = []") (auto simp: up_key_def keep_key_def Let_def)

lemma yields_key_hosted:
  assumes "\<not> rs_local (mf_relay m)"
  shows "yields (up_key en m rg) w w' key \<longleftrightarrow> key \<noteq> [] \<and>
    key = (if rs_api_key (mf_relay m) \<noteq> [] then rs_api_key (mf_relay m) else sc_api_key (saved_server (uw_servers w) (rs_tld (mf_relay m)))) \<and>
    yields (keep_key en m key) w w' ()"
  using assms by (cases "rs_api_key (mf_relay m) = []") (auto simp: up_key_def keep_key_def Let_def)

lemma yields_open_tunnels_Cons:
  "yields (open_tunnels en absFile (r # rs)) w w' u \<longleftrightarrow>
     (\<exists>tf acts. start_one (ue_alive en) (ue_start en (tunnel_key (ru_service r) (ru_path r))) r absFile (uw_tunnels w) = (tf, acts, Ok ()) \<and>
        yields (open_tunnels en absFile rs) (w\<lparr>uw_tunnels := tf, uw_acts := uw_acts w @ acts\<rparr>) w' u)"
  by (cases "start_one (ue_alive en) (ue_start en (tunnel_key (ru_service r) (ru_path r))) r absFile (uw_tunnels w)")
    (auto simp: yields_def Let_def split: sum.splits)

lemma yields_open_tunnels_Nil: "yields (open_tunnels en absFile []) w w' u \<longleftrightarrow> w' = w"
  by (auto simp: yields_def)

end
