(* ===== verification/CliProps.thy ===== *)
theory CliProps
  imports UpSteps
begin

text \<open>
  The bookkeeping of the CLI: every worker that is started is recorded and ended by the commands
  that end it, one command's tunnels are never another's, and \<open>down\<close> leaves nothing behind.
\<close>

section \<open>Files\<close>

lemma read_map_content: "read_map fl = Ok m \<Longrightarrow> content fl = m"
  by (auto simp: read_map_def load_map_def content_def split: state_file.splits sum.splits)

lemma content_Holds [simp]: "content (Holds m) = m"
  by (simp add: content_def)

lemma read_map_Holds [simp]: "read_map (Holds m) = Ok m"
  by (simp add: read_map_def load_map_def)

lemma write_back_Ok: "write_back written v fl = (fl', Ok ()) \<longleftrightarrow> written \<and> fl' = Holds v"
  by (auto simp: write_back_def)

section \<open>One tunnel\<close>

lemma start_one_cases:
  assumes "start_one alive en r path fl = (fl', acts, res)"
  shows "(fl' = fl \<and> acts = [] \<and> \<not> is_ok res) \<or>
    (\<exists>pid. st_pid en = Some pid \<and> acts = [StartWorker pid (run_args r)] \<and>
       \<not> is_running alive (content fl) (tunnel_key (ru_service r) (ru_path r)) \<and>
       (if st_written en then res = Ok () \<and> fl' = Holds (gput (tunnel_key (ru_service r) (ru_path r)) (new_tunnel en r path pid) (content fl))
        else fl' = fl \<and> res = Err StateUnwritable))"
  using assms
  by (auto simp: start_one_def Let_def write_back_def read_map_content split: sum.splits if_splits option.splits)



section \<open>All tunnels of a run\<close>

definition recorded :: "(int \<Rightarrow> bool) \<Rightarrow> string \<Rightarrow> tunnels \<Rightarrow> int \<Rightarrow> bool" where
  "recorded alive path tunnels pid \<longleftrightarrow> \<not> alive pid \<or> (\<exists>k info. map_of tunnels k = Some info \<and> ti_pid info = pid \<and> ti_manifest info = path)"

lemma recorded_gput:
  assumes "recorded alive path tunnels pid" "\<not> is_running alive tunnels key"
  shows "recorded alive path (gput key info tunnels) pid"
proof (cases "alive pid")
  case True
  then obtain k i where k: "map_of tunnels k = Some i" "ti_pid i = pid" "ti_manifest i = path" using assms(1) by (auto simp: recorded_def)
  then have "k \<noteq> key" using assms(2) True by (auto simp: is_running_def)
  then show ?thesis using k by (auto simp: recorded_def intro!: exI [of _ k])
qed (simp add: recorded_def)

lemma start_one_recorded:
  assumes "start_one alive en r path fl = (fl', acts, res)" "st_written en"
  shows "recorded alive path (content fl) pid \<Longrightarrow> recorded alive path (content fl') pid"
    and "StartWorker pid args \<in> set acts \<Longrightarrow> recorded alive path (content fl') pid"
proof -
  let ?key = "tunnel_key (ru_service r) (ru_path r)"
  consider (same) "fl' = fl" "acts = []"
    | (new) p where "acts = [StartWorker p (run_args r)]" "\<not> is_running alive (content fl) ?key"
        "content fl' = gput ?key (new_tunnel en r path p) (content fl)"
    using start_one_cases [OF assms(1)] assms(2) by auto
  note cases = this
  show "recorded alive path (content fl) pid \<Longrightarrow> recorded alive path (content fl') pid"
    by (cases rule: cases) (simp_all add: recorded_gput)
  show "StartWorker pid args \<in> set acts \<Longrightarrow> recorded alive path (content fl') pid"
    by (cases rule: cases) (auto simp: recorded_def new_tunnel_def)
qed

definition writes_starts :: "up_env \<Rightarrow> bool" where
  "writes_starts en \<longleftrightarrow> (\<forall>k. st_written (ue_start en k))"

lemma open_tunnels_recorded:
  assumes "writes_starts en" "open_tunnels en path rs w = Some (w', res)"
    and "\<forall>pid args. StartWorker pid args \<in> set (uw_acts w) \<longrightarrow> recorded (ue_alive en) path (content (uw_tunnels w)) pid"
  shows "\<forall>pid args. StartWorker pid args \<in> set (uw_acts w') \<longrightarrow> recorded (ue_alive en) path (content (uw_tunnels w')) pid"
  using assms(2,3)
proof (induction rs arbitrary: w)
  case (Cons r rs)
  let ?key = "tunnel_key (ru_service r) (ru_path r)"
  obtain tf acts res1 where s: "start_one (ue_alive en) (ue_start en ?key) r path (uw_tunnels w) = (tf, acts, res1)" by (metis prod_cases3)
  let ?w1 = "w\<lparr>uw_tunnels := tf, uw_acts := uw_acts w @ acts\<rparr>"
  have wr: "st_written (ue_start en ?key)" using assms(1) by (simp add: writes_starts_def)
  have inv: "\<forall>pid args. StartWorker pid args \<in> set (uw_acts ?w1) \<longrightarrow> recorded (ue_alive en) path (content (uw_tunnels ?w1)) pid"
    using Cons.prems(2) start_one_recorded [OF s wr] by auto
  show ?case
  proof (cases res1)
    case (Inl e)
    then have "w' = ?w1" using Cons.prems(1) s by (simp add: Let_def)
    then show ?thesis using inv by simp
  next
    case (Inr u)
    then have "open_tunnels en path rs ?w1 = Some (w', res)" using Cons.prems(1) s by (simp add: Let_def)
    then show ?thesis using Cons.IH inv by blast
  qed
qed simp

section \<open>No orphans\<close>

definition no_workers :: "up_world \<Rightarrow> bool" where
  "no_workers w \<longleftrightarrow> (\<forall>pid args. StartWorker pid args \<notin> set (uw_acts w))"

interpretation no_worker_setup: setup_invariant no_workers
  by unfold_locales (auto simp: no_workers_def setup_action_def list_all_iff split: action.splits)

lemma services_no_workers: "ends_in no_workers (up_services en detach absFile m) no_workers"
  unfolding up_services_def Let_def restart_services_def restart_tunnels_def end_tunnels_def end_services_def save_tunnels_def save_services_def case_prod_unfold
  by (intro ends_in_rules ends_in_if ends_in_acts ends_in_set) (auto simp: no_workers_def)

definition workers_recorded :: "up_env \<Rightarrow> string \<Rightarrow> up_world \<Rightarrow> bool" where
  "workers_recorded en path w \<longleftrightarrow>
     (\<forall>pid args. StartWorker pid args \<in> set (uw_acts w) \<longrightarrow> recorded (ue_alive en) path (content (uw_tunnels w)) pid)"

lemma no_workers_recorded: "no_workers w \<Longrightarrow> workers_recorded en path w"
  by (simp add: no_workers_def workers_recorded_def)

lemma ends_in_open:
  "writes_starts en \<Longrightarrow> ends_in (workers_recorded en path) (open_tunnels en path rs) (workers_recorded en path)"
  unfolding ends_in_def workers_recorded_def using open_tunnels_recorded by blast

lemma up_run_recorded:
  assumes "writes_starts en"
  shows "ends_in no_workers (up_run en opts absFile m branch isPreview) (workers_recorded en absFile)"
proof -
  have open_rec: "ends_in no_workers (up_tunnels en absFile m2) (workers_recorded en absFile)" for m2
    unfolding up_tunnels_def
  proof (rule ends_in_pre [OF no_workers_recorded], assumption, rule ends_in_keep [OF ends_in_pure(3)], rule ends_in_if)
    show "ends_in (workers_recorded en absFile) (up_step (PublishTopology n t) ok e) (workers_recorded en absFile)" for n t ok e
      unfolding up_step_def by (intro ends_in_keep ends_in_if ends_in_pure ends_in_acts) (simp add: workers_recorded_def)
  qed (rule ends_in_open [OF assms])
  show ?thesis
    unfolding up_run_def
    by (rule ends_in_bind [OF no_worker_setup.prepare_step], rule ends_in_bind [OF services_no_workers],
        rule ends_in_bind [OF open_rec]) (auto intro: no_workers_recorded)
qed

text \<open>What \<open>teardownManifest\<close> (and \<open>down\<close>) does to the records of one manifest.\<close>

lemma end_tunnels_acts: "map_of ts k = Some info \<Longrightarrow> P k info \<Longrightarrow> TermProcess (ti_pid info) \<in> set (snd (end_tunnels P ts))"
  using map_of_SomeD [of ts k info] by (force simp: end_tunnels_def)

lemma recorded_signalled:
  assumes "workers_recorded en path w" "StartWorker pid argv \<in> set (uw_acts w)" "ue_alive en pid"
    and "\<And>k info. ti_manifest info = path \<Longrightarrow> P k info"
  shows "TermProcess pid \<in> set (snd (end_tunnels P (content (uw_tunnels w))))"
proof -
  obtain k info where "map_of (content (uw_tunnels w)) k = Some info" "ti_pid info = pid" "ti_manifest info = path"
    using assms(1-3) by (auto simp: workers_recorded_def recorded_def)
  then show ?thesis using end_tunnels_acts [of _ k info P] assms(4) by blast
qed

lemma end_tunnels_gone: "map_of (fst (end_tunnels P ts)) k = Some info \<Longrightarrow> wf_gomap ts \<Longrightarrow> \<not> P k info \<and> map_of ts k = Some info"
  using map_of_SomeD [of "fst (end_tunnels P ts)" k info] by (auto simp: end_tunnels_def gomap_mem)

lemma teardown_Ok:
  assumes "teardown_manifest True True path (tf, sf) = (st', acts, Ok ())"
  shows "st' = (Holds (fst (end_tunnels (\<lambda>_ i. ti_manifest i = path) (content tf))), Holds (fst (end_services (\<lambda>s. si_manifest s = path) (content sf))))"
    and "acts = snd (end_tunnels (\<lambda>_ i. ti_manifest i = path) (content tf)) @ snd (end_services (\<lambda>s. si_manifest s = path) (content sf))"
  using assms
  by (auto simp: teardown_manifest_def write_back_def Let_def case_prod_unfold read_map_content split: sum.splits)


definition demo_start :: start_env where
  "demo_start = \<lparr>st_exec_ok = True, st_log_ok = True, st_pid = Some 7, st_now = ''t'', st_logs = ''/l'', st_written = True\<rparr>"

definition demo_machine :: machine where
  "demo_machine = \<lparr>mc_override = [], mc_exists = (\<lambda>_. True), mc_binary = True, mc_os = ''linux'', mc_arch = ''amd64'', mc_release = None,
     mc_archive = (\<lambda>_. None), mc_dirs = True, mc_copied = True, mc_renamed = True, mc_chmod = True\<rparr>"

definition demo_local :: local_env where
  "demo_local = \<lparr>le_os = demo_os, le_owner = 501, le_uid = 501, le_ping = Answered, le_calls = (\<lambda>_. Answered), le_interactive = False,
     le_machine = demo_machine, le_exe = ''/bin/roxey'', le_installs = False, le_helper_wait = (0, []), le_relay_wait = (0, [(1, True)]),
     le_trusted = True, le_trusts = True, le_sudo_hosts = True,
     le_start = \<lparr>sr_healthy = True, sr_port_busy = False, sr_machine = demo_machine, sr_name = ''n'', sr_pass = ''p'', sr_saved = True, sr_spawns = True, sr_now = 0, sr_polls = []\<rparr>,
     le_certs = True, le_ca = True, le_relay = (\<lambda>_ _. None)\<rparr>"

definition demo_manifest :: manifest where
  "demo_manifest = \<lparr>mf_relay = \<lparr>rs_tld = ''f43.run'', rs_api_key = ''k'', rs_local = False\<rparr>,
     mf_envs = [\<lparr>me_host = ''app'', me_protect = [], me_routes = [empty_route\<lparr>rt_path := ''/'', rt_target := ''3000''\<rparr>]\<rparr>],
     mf_dir = ''/p'', mf_host_map = [(''app'', ''app'')], mf_assigned = []\<rparr>"

definition demo_up :: up_env where
  "demo_up = \<lparr>ue_cwd = ''/p'', ue_dir = ''/s'', ue_domain = [], ue_manifest = (\<lambda>_. Some demo_manifest), ue_control = None, ue_detect = (\<lambda>_. ([], False)), ue_now = ''t'',
     ue_written = True, ue_local = demo_local, ue_ports = [], ue_lookup = (\<lambda>_. Some [(''app'', ''app-x1'')]), ue_alive = (\<lambda>pid. pid = 7),
     ue_service = (\<lambda>_. Some 8), ue_group = Some ''g'', ue_start = (\<lambda>_. demo_start), ue_published = True\<rparr>"

definition fresh_world :: up_world where
  "fresh_world = \<lparr>uw_servers = Missing, uw_tunnels = Missing, uw_services = Missing, uw_projects = Missing, uw_machine = \<lparr>d_hosts = [], d_relay = Some new_supervisor\<rparr>, uw_acts = []\<rparr>"

lemma demo_steps:
  "assign_ports False [] demo_manifest = Some (Ok demo_manifest)"
  "resolve_templates False (demo_manifest\<lparr>mf_assigned := [(''app'', ''app-x1'')]\<rparr>) = Ok (demo_manifest\<lparr>mf_assigned := [(''app'', ''app-x1'')]\<rparr>)"
  by code_simp+

lemma demo_prepare:
  "\<exists>w. yields (up_prepare demo_up no_up_options demo_manifest [] False) fresh_world w (demo_manifest\<lparr>mf_assigned := [(''app'', ''app-x1'')]\<rparr>) \<and>
     uw_tunnels w = Missing \<and> uw_services w = Missing \<and> uw_acts w = []"
proof -
  have c: "ue_control demo_up = None" "ue_written demo_up" "\<not> rs_local (mf_relay demo_manifest)" "rs_api_key (mf_relay demo_manifest) = ''k''"
    "uo_online no_up_options = False" "ue_ports demo_up = []" "ue_lookup demo_up = (\<lambda>_. Some [(''app'', ''app-x1'')])"
    "mf_host_map demo_manifest = [(''app'', ''app'')]"
    by (simp_all add: demo_up_def demo_manifest_def no_up_options_def)
  have f: "uw_servers fresh_world = Missing" "uw_projects fresh_world = Missing" "uw_tunnels fresh_world = Missing" "uw_services fresh_world = Missing" "uw_acts fresh_world = []"
    by (simp_all add: fresh_world_def)
  show ?thesis
    using demo_steps c f
    by (simp add: up_prepare_def yields_register yields_key_hosted keep_key_def yields_set_server yields_ports yields_hosted yields_templates
        read_map_def load_map_def set_server_def load_config_def save_file_def)
qed

lemma yields_services:
  "yields (up_services en detach absFile m) w w' failed \<longleftrightarrow>
     (\<exists>services tunnels. read_map (uw_services w) = Ok services \<and> read_map (uw_tunnels w) = Ok tunnels \<and> ue_written en \<and>
        failed = snd (start_services en detach absFile (runs_of m) (fst (restart_services (ue_alive en) absFile services))) \<and>
        w' = w\<lparr>uw_services := Holds (fst (start_services en detach absFile (runs_of m) (fst (restart_services (ue_alive en) absFile services)))),
          uw_tunnels := Holds (fst (restart_tunnels (ue_alive en) absFile tunnels)),
          uw_acts := uw_acts w @ snd (restart_services (ue_alive en) absFile services) @ snd (restart_tunnels (ue_alive en) absFile tunnels) @
            map (\<lambda>rr. ReclaimPort (rt_port (rr_route rr))) (runs_of m)\<rparr>)"
  by (cases w) (auto simp: up_services_def save_tunnels_def save_services_def Let_def case_prod_unfold)

lemma demo_up_run:
  "\<exists>w. yields (up_run demo_up no_up_options ''/p/roxey.yaml'' demo_manifest [] False) fresh_world w (demo_manifest\<lparr>mf_assigned := [(''app'', ''app-x1'')]\<rparr>, []) \<and>
     uw_acts w = [StartWorker 7 [''_run'', ''f43.run'', ''app'', [], ''3000'']] \<and>
     is_ok (snd (snd (teardown_manifest True True ''/p/roxey.yaml'' (uw_tunnels w, uw_services w))))"
proof -
  let ?m = "demo_manifest\<lparr>mf_assigned := [(''app'', ''app-x1'')]\<rparr>"
  obtain w1 where w1: "yields (up_prepare demo_up no_up_options demo_manifest [] False) fresh_world w1 ?m"
    "uw_tunnels w1 = Missing" "uw_services w1 = Missing" "uw_acts w1 = []" using demo_prepare by blast
  have c: "ue_control demo_up = None" "ue_written demo_up" "ue_start demo_up = (\<lambda>_. demo_start)" by (simp_all add: demo_up_def)
  have m: "runs_of ?m = []" "gate_group_of demo_up ?m = Ok []" "rs_tld (mf_relay ?m) = ''f43.run''"
    "map (worker_spec ''f43.run'' []) (proxies_of ?m) =
      [\<lparr>ru_tld = ''f43.run'', ru_service = ''app'', ru_path = [], ru_target = ''3000'', ru_protect = [], ru_group = []\<rparr>]"
    by (simp_all add: demo_manifest_def runs_of_def proxies_of_def all_routes_def is_run_def empty_route_def gate_group_of_def has_protected_def
        worker_spec_def run_target_def trim_suffix_def has_suffix_def)
  let ?w2 = "w1\<lparr>uw_services := Holds [], uw_tunnels := Holds []\<rparr>"
  let ?r = "\<lparr>ru_tld = ''f43.run'', ru_service = ''app'', ru_path = [], ru_target = ''3000'', ru_protect = [], ru_group = []\<rparr>"
  let ?w3 = "?w2\<lparr>uw_tunnels := Holds [(''app'', new_tunnel demo_start ?r ''/p/roxey.yaml'' 7)], uw_acts := [StartWorker 7 (run_args ?r)]\<rparr>"
  have "yields (up_services demo_up (uo_detach no_up_options) ''/p/roxey.yaml'' ?m) w1 ?w2 []"
    using w1(2-4) c(2) m(1) by (simp add: yields_services read_map_def load_map_def restart_services_def restart_tunnels_def
        prune_dead_services_def end_services_def end_tunnels_def)
  moreover have "yields (up_tunnels demo_up ''/p/roxey.yaml'' ?m) ?w2 ?w3 ()"
    using w1(4) c(1,3) m
    by (auto simp: up_tunnels_def yields_open_tunnels_Cons yields_open_tunnels_Nil start_one_def is_running_def tunnel_key_def
        demo_start_def write_back_def Let_def)
  ultimately have "yields (up_run demo_up no_up_options ''/p/roxey.yaml'' demo_manifest [] False) fresh_world ?w3 (?m, [])"
    using w1(1) by (auto simp: up_run_def)
  moreover have "run_args ?r = [''_run'', ''f43.run'', ''app'', [], ''3000'']" by (simp add: run_args_def)
  moreover have "is_ok (snd (snd (teardown_manifest True True ''/p/roxey.yaml'' (uw_tunnels ?w3, uw_services ?w3))))"
    by (simp add: teardown_manifest_def write_back_def Let_def case_prod_unfold)
  ultimately show ?thesis by (intro exI [of _ ?w3]) simp
qed


end
