(* ===== verification/LocalRelayProps.thy ===== *)
theory LocalRelayProps
  imports LocalRelay
begin

text \<open>
  The relay on this machine and the CLI that starts it: the environment one builds is the one the
  other reads, so the CLI can log in and create the API key its tunnels run with.
\<close>

section \<open>The environment\<close>

lemma relay_env_pairs:
  "relay_env dir tld creds = map (\<lambda>(k, v). k @ ''='' @ v)
     [(''ROXEY_DOMAIN'', tld), (''ROXEY_ADMIN_HOST'', relay_host tld), (''ROXEY_SINGLE_USER'', ''1''),
      (''ROXEY_ADMIN_EMAIL'', fst creds), (''ROXEY_ADMIN_PASSWORD'', snd creds),
      (''ROXEY_DB_PATH'', path_join [dir, ''local_'' @ map (\<lambda>c. if c = CHR ''.'' then CHR ''_'' else c) tld @ ''.db'']),
      (''PORT'', ''443''), (''ROXEY_TLS_CERT'', path_join [cert_dir dir, ''leaf.crt'']), (''ROXEY_TLS_KEY'', path_join [cert_dir dir, ''leaf.key''])]"
  by (simp add: relay_env_def relay_host_def)

lemma getenv_relay_env:
  "getenv (environ @ relay_env dir tld creds) ''ROXEY_DOMAIN'' = Some tld"
  "getenv (environ @ relay_env dir tld creds) ''ROXEY_ADMIN_HOST'' = Some (relay_host tld)"
  "getenv (environ @ relay_env dir tld creds) ''ROXEY_SINGLE_USER'' = Some ''1''"
  "getenv (environ @ relay_env dir tld creds) ''ROXEY_ADMIN_EMAIL'' = Some (fst creds)"
  "getenv (environ @ relay_env dir tld creds) ''ROXEY_ADMIN_PASSWORD'' = Some (snd creds)"
  unfolding getenv_append relay_env_pairs by (subst getenv_pairs; simp add: wf_gomap_def)+

lemma random_token_plain: "c \<in> set (random_token raw) \<Longrightarrow> \<not> is_space c"
proof -
  assume "c \<in> set (random_token raw)"
  then obtain b where "c = token_charset ! (b mod length token_charset)" by (auto simp: random_token_def)
  moreover have "length token_charset = 62" "\<forall>c\<in>set token_charset. \<not> is_space c" by code_simp+
  ultimately show ?thesis using nth_mem [of "b mod length token_charset" token_charset] by simp
qed

lemma random_email_trim: "trim_space (random_token raw @ ''@localhost'') = random_token raw @ ''@localhost''"
proof -
  have "\<not> is_space (hd (random_token raw @ ''@localhost''))"
    using random_token_plain [of "hd (random_token raw)" raw] by (cases "random_token raw") (auto simp: is_space_def)
  then show ?thesis unfolding trim_space_def by (intro trim_both_id) (simp add: is_space_def)
qed

lemma relay_credentials_saved:
  assumes "relay_credentials name pass written tld fl0 = (fl, Ok creds)" "name \<noteq> []" "pass \<noteq> []"
  shows "\<exists>sc. server_for fl tld = Some sc \<and> sc_admin_email sc = fst creds \<and> sc_admin_pass sc = snd creds \<and>
    fst creds \<noteq> [] \<and> snd creds \<noteq> []"
  using assms
  by (auto simp: relay_credentials_def no_server_def set_server_def save_file_def server_for_def load_config_def Let_def
      split: if_splits option.splits state_file.splits sum.splits prod.splits)

section \<open>The key\<close>

text \<open>User ids are hexadecimal, so a session token names its user unambiguously.\<close>

definition ids_plain :: "store \<Rightarrow> bool" where
  "ids_plain st \<longleftrightarrow> (\<forall>u\<in>set (st_users st). CHR ''|'' \<notin> set (u_id u))"

lemma ids_plain_step: "store_step l st st' \<Longrightarrow> ids_plain st \<Longrightarrow> ids_plain st'"
  by (induction rule: store_step.induct)
    (auto simp: ids_plain_def create_user_def seed_single_user_def get_user_by_email_def create_api_key_def revoke_api_key_def
      validate_api_key_def record_connect_def record_disconnect_def random_hex_def hex_encode_no is_hex_digit_def is_digit_def
      Let_def split: option.splits if_splits sum.splits prod.splits)

lemma reachable_ids_plain: "reachable_store st \<Longrightarrow> ids_plain st"
  by (induction rule: rtranclp_induct) (auto simp: ids_plain_def empty_store_def dest: ids_plain_step)

lemma find_map_upd:
  assumes "\<And>r. P (g r) = P r" "find P xs = Some u"
  shows "find P (map g xs) = Some (g u)"
  using assms by (induction xs) (auto split: if_splits)

lemma seeded_user:
  assumes seed: "seed_single_user fs b n st email hash = (st', Ok ())"
  shows "\<exists>u. find (\<lambda>r. u_email r = email) (st_users st') = Some u \<and> u_password_hash u = hash"
proof (cases "find (\<lambda>r. u_email r = email) (st_users st)")
  case None
  have "find P xs = None \<Longrightarrow> find P (xs @ [u]) = (if P u then Some u else None)" for P and xs :: "user_row list" and u
    by (induction xs) (auto split: if_splits)
  note app = this [OF None]
  show ?thesis using seed None app
    by (auto simp: seed_single_user_def get_user_by_email_def create_user_def Let_def split: if_splits)
next
  case (Some u)
  let ?g = "\<lambda>r. if u_id r = u_id u then r\<lparr>u_password_hash := hash\<rparr> else r"
  have "find (\<lambda>r. u_email r = email) (map ?g (st_users st)) = Some (?g u)" by (rule find_map_upd [OF _ Some]) simp
  then show ?thesis using seed Some by (auto simp: seed_single_user_def get_user_by_email_def split: if_splits)
qed

lemma boot_local:
  assumes "boot bo (environ @ relay_env dir tld creds) = Ok bt" "tld \<noteq> []" "fst creds \<noteq> []" "snd creds \<noteq> []"
  shows "\<exists>st hash st1. bo_store bo = Some st \<and> bo_hash bo = Some hash \<and>
    seed_single_user (bo_fails bo) (bo_bytes bo) (bo_stamp bo) st (to_lower (fst creds)) hash = (st1, Ok ()) \<and>
    bt = \<lparr>bt_config = \<lparr>rc_sessions = new_sessions (bo_secret bo), rc_domain = tld, rc_single = True\<rparr>,
      bt_state = \<lparr>rl_store = st1, rl_signup = new_limiter minute 10 (bo_mono bo)\<rparr>, bt_admin_host = relay_host tld\<rparr>"
  using assms
  by (auto simp: boot_def getenv_or_def getenv_relay_env relay_host_def to_lower_def Let_def split: if_splits option.splits prod.splits sum.splits)

lemma session_cookie_plain: "plain_cookie (set_session_cookie (issue s uid now))"
proof -
  have "is_token session_cookie \<and> CHR ''='' \<notin> set session_cookie \<and> (\<forall>x\<in>set session_cookie. visible_char x)"
    by (simp add: session_cookie_def is_token_def is_token_char_def is_digit_def is_lower_def is_upper_def visible_char_def)
  then show ?thesis using seal_plain by (auto simp: plain_cookie_def set_session_cookie_def issue_def)
qed

text \<open>A session cookie that is kept and sent back is read as the session.\<close>

lemma session_user_jar:
  assumes "rq_cookies r = jar_header [set_session_cookie (issue (rc_sessions cf) uid t)]" "CHR ''|'' \<notin> set uid"
    and "in_int64 (t + session_ttl)" "en_unix en \<le> t + session_ttl"
  shows "session_user cf r en = Ok uid"
proof -
  let ?c = "set_session_cookie (issue (rc_sessions cf) uid t)"
  have "jar_header [?c] = [cookie_line ?c]" by (simp add: jar_header_def set_session_cookie_def session_ttl_def)
  moreover have "cookie_get [cookie_line ?c] session_cookie = Some (issue (rc_sessions cf) uid t)"
    using cookie_get_line [OF session_cookie_plain [of "rc_sessions cf" uid t]] by (simp add: set_session_cookie_def)
  moreover have "verify (rc_sessions cf) (issue (rc_sessions cf) uid t) (en_unix en) = Ok uid"
    using verify_grant [of "SessionGrant uid t" "rc_sessions cf" "en_unix en"] assms(2-4) by (simp add: plain_grant_def fresh_def)
  ultimately show ?thesis using assms(1) by (simp add: session_user_def)
qed

lemma booted_send_admin:
  assumes "bt_admin_host bt = relay_host tld" "CHR '':'' \<notin> set tld" "path \<noteq> ''/healthz''" "path \<noteq> ''/_ws''"
  shows "booted_send chk bt reg en (s, n) (relay_call tld path cs cr l) =
    (let (s', rep) = serve_mux chk (bt_config bt) reg s (relay_call tld path cs cr l) (en n) in ((s', Suc n), Some rep))"
proof -
  have "strip_port (relay_host tld) = relay_host tld"
    using assms(2) by (simp add: strip_port_def relay_host_def cut_at_char_None [THEN iffD2])
  then show ?thesis using assms by (simp add: booted_send_def dispatch_request_def relay_call_def Let_def)
qed

text \<open>
  C13: the environment the CLI starts a local relay with makes a relay that knows the CLI's account:
  with the saved credentials the CLI logs in and is given an API key, which the relay accepts from
  then on as that account's. The relay serves the CLI's domain, refuses other accounts, and
  answers under the host name the CLI calls.
\<close>

theorem local_relay_key:
  assumes creds: "relay_credentials (random_token raw) pass written tld fl0 = (fl, Ok creds)" "raw \<noteq> []" "pass \<noteq> []"
    and own: "fst creds = random_token raw0 @ ''@localhost''" and tld: "tld \<noteq> []" "CHR '':'' \<notin> set tld"
    and boot: "boot bo (environ @ relay_env dir tld creds) = Ok bt" "bo_store bo = Some st0" "reachable_store st0"
    and bcrypt: "\<And>h. bo_hash bo = Some h \<Longrightarrow> chk h (snd creds)"
    and clock: "in_int64 (en_unix (en 0) + session_ttl)" "en_unix (en 1) \<le> en_unix (en 0) + session_ttl"
    and works: "\<not> en_fail (en 0)" "\<not> en_fail (en 1)"
    and fresh: "\<forall>r\<in>set (st_keys st0). k_id r \<noteq> random_hex (en_bytes2 (en 1)) \<and> k_hash r \<noteq> hash_key (''rxy_'' @ random_hex (en_bytes (en 1)))"
  shows "\<exists>u key s. login_and_create_key (booted_send chk bt reg en) True label tld fl (bt_state bt, 0) = ((s, 2), Ok key) \<and>
    get_user_by_email False (rl_store (bt_state bt)) (to_lower (fst creds)) = Ok (Some u) \<and>
    snd (validate_api_key (False, False) now (rl_store s) key) = Some (u_id u) \<and>
    rc_single (bt_config bt) \<and> rc_domain (bt_config bt) = tld"
proof -
  obtain sc where sc: "server_for fl tld = Some sc" "sc_admin_email sc = fst creds" "sc_admin_pass sc = snd creds" "fst creds \<noteq> []" "snd creds \<noteq> []"
    using relay_credentials_saved [OF creds(1)] creds(2,3) by (auto simp: random_token_def)
  obtain hash st1 where h: "bo_hash bo = Some hash"
    and seed: "seed_single_user (bo_fails bo) (bo_bytes bo) (bo_stamp bo) st0 (to_lower (fst creds)) hash = (st1, Ok ())"
    and bt: "bt = \<lparr>bt_config = \<lparr>rc_sessions = new_sessions (bo_secret bo), rc_domain = tld, rc_single = True\<rparr>,
      bt_state = \<lparr>rl_store = st1, rl_signup = new_limiter minute 10 (bo_mono bo)\<rparr>, bt_admin_host = relay_host tld\<rparr>"
    using boot_local [OF boot(1) tld(1) sc(4,5)] boot(2) by auto
  obtain u where u: "find (\<lambda>r. u_email r = to_lower (fst creds)) (st_users st1) = Some u" "u_password_hash u = hash"
    using seeded_user [OF seed] by blast
  have reach: "reachable_store st1"
    using rtranclp.rtrancl_into_rtrancl [OF boot(3)] st_seed [of st0 "bo_fails bo" "bo_bytes bo" "bo_stamp bo" "to_lower (fst creds)" hash] seed
    by auto
  have id: "CHR ''|'' \<notin> set (u_id u)"
    using reachable_ids_plain [OF reach] u(1) by (auto simp: ids_plain_def find_Some_iff)
  have keys: "st_keys st1 = st_keys st0" using keys_seed seed by (metis fst_conv)
  let ?cf = "bt_config bt" and ?s = "bt_state bt"
  let ?c = "set_session_cookie (issue (rc_sessions ?cf) (u_id u) (en_unix (en 0)))"
  let ?r1 = "relay_call tld ''/api/auth/login'' [] (Some creds) []" and ?r2 = "relay_call tld ''/api/keys'' (jar_header [?c]) None label"
  have trim: "trim_space (fst creds) = fst creds" unfolding own by (rule random_email_trim)
  have login: "booted_send chk bt reg en (?s, 0) ?r1 = ((?s, 1), Some (add_cookie ?c (write_json 200 (UserJson (u_id u) (u_email u)))))"
    using booted_send_admin [of bt tld "''/api/auth/login''"] tld(2) works(1) u bcrypt [OF h] trim
    by (cases creds) (simp add: bt serve_mux_def api_login_def relay_call_def get_user_by_email_def)
  have user: "session_user ?cf ?r2 (en 1) = Ok (u_id u)"
    by (rule session_user_jar [OF _ id clock]) (simp add: relay_call_def)
  obtain k where mint: "create_api_key (en_fail (en 1)) (en_bytes (en 1)) (en_bytes2 (en 1)) (en_stamp (en 1)) st1 (u_id u) label =
      (st1\<lparr>st_keys := st_keys st1 @ [k]\<rparr>, Ok (''rxy_'' @ random_hex (en_bytes (en 1)), k))"
    using works(2) fresh by (auto simp: create_api_key_def keys list_ex_iff Let_def)
  let ?key = "''rxy_'' @ random_hex (en_bytes (en 1))" and ?s2 = "?s\<lparr>rl_store := st1\<lparr>st_keys := st_keys st1 @ [k]\<rparr>\<rparr>"
  have key: "booted_send chk bt reg en (?s, 1) ?r2 = ((?s2, 2), Some (write_json 200 (NewKeyJson k ?key)))"
  proof -
    have m: "rq_method ?r2 = ''POST''" "rq_path ?r2 = ''/api/keys''" "ar_label ?r2 = label" by (simp_all add: relay_call_def)
    have "api_keys ?cf ?s ?r2 (en 1) = (?s2, write_json 200 (NewKeyJson k ?key))"
      using m by (simp add: api_keys_def user [unfolded One_nat_def]) (simp add: bt mint [unfolded One_nat_def])
    moreover have "serve_mux chk ?cf reg ?s ?r2 (en 1) = api_keys ?cf ?s ?r2 (en 1)"
      using m by (simp add: serve_mux_def Let_def)
    moreover have "booted_send chk bt reg en (?s, 1) ?r2 = (let (s', rep) = serve_mux chk ?cf reg ?s ?r2 (en 1) in ((s', Suc 1), Some rep))"
      by (rule booted_send_admin) (use tld(2) in \<open>simp_all add: bt\<close>)
    ultimately show ?thesis by (simp add: numeral_2_eq_2)
  qed
  have "login_and_create_key (booted_send chk bt reg en) True label tld fl (?s, 0) = ((?s2, 2), Ok ?key)"
    using sc login key by (cases creds) (simp add: login_and_create_key_def add_cookie_def write_json_def)
  moreover have "snd (validate_api_key (False, False) now (rl_store ?s2) ?key) = Some (u_id u)"
    using keys.created_key_valid [OF reachable_store_wf [OF reach], of "(en_fail (en 1), en_bytes (en 1), en_bytes2 (en 1), en_stamp (en 1))"
        "u_id u" label _ ?key k "((False, False), now)"] mint by simp
  ultimately show ?thesis using u(1) by (auto simp: bt get_user_by_email_def)
qed

definition demo_boot :: boot_env where
  "demo_boot = \<lparr>bo_store = Some empty_store, bo_hash = Some ''hash'', bo_fails = (False, False), bo_bytes = ''i'', bo_stamp = ''t'',
     bo_secret = ''k'', bo_mono = 0\<rparr>"

definition demo_creds :: "string \<times> string" where
  "demo_creds = (random_token [1, 2] @ ''@localhost'', ''pw'')"

theorem local_relay_key_witness:
  "\<exists>fl bt (u::user_row) key s. relay_credentials (random_token [1, 2]) ''pw'' True ''dev'' Missing = (fl, Ok demo_creds) \<and>
     boot demo_boot ([''HOME=/''] @ relay_env ''/s'' ''dev'' demo_creds) = Ok bt \<and>
     login_and_create_key (booted_send (\<lambda>h p. p = ''pw'') bt new_registry (\<lambda>_. quiet_env 5)) True ''l'' ''dev'' fl (bt_state bt, 0) = ((s, 2), Ok key) \<and>
     snd (validate_api_key (False, False) ''t9'' (rl_store s) key) = Some (u_id u)"
proof -
  have ne: "demo_creds = (fst demo_creds, snd demo_creds)" "fst demo_creds \<noteq> []" "snd demo_creds \<noteq> []" by (simp_all add: demo_creds_def)
  obtain fl where c: "relay_credentials (random_token [1, 2]) ''pw'' True ''dev'' Missing = (fl, Ok demo_creds)"
    by (simp add: relay_credentials_def server_for_def load_config_def no_server_def set_server_def save_file_def demo_creds_def Let_def)
  obtain bt where b: "boot demo_boot ([''HOME=/''] @ relay_env ''/s'' ''dev'' demo_creds) = Ok bt"
    using ne by (simp add: boot_def getenv_or_def getenv_relay_env [of "[''HOME=/'']", simplified] demo_boot_def seed_single_user_def get_user_by_email_def
        create_user_def empty_store_def Let_def to_lower_def)
  have r: "reachable_store empty_store" by simp
  have "\<exists>(u::user_row) key s. login_and_create_key (booted_send (\<lambda>h p. p = ''pw'') bt new_registry (\<lambda>_. quiet_env 5)) True ''l'' ''dev'' fl (bt_state bt, 0) = ((s, 2), Ok key) \<and>
    get_user_by_email False (rl_store (bt_state bt)) (to_lower (fst demo_creds)) = Ok (Some u) \<and>
    snd (validate_api_key (False, False) ''t9'' (rl_store s) key) = Some (u_id u) \<and> rc_single (bt_config bt) \<and> rc_domain (bt_config bt) = ''dev''"
    by (rule local_relay_key [OF c _ _ _ _ _ b _ r])
      (simp_all add: demo_creds_def demo_boot_def quiet_env_def empty_store_def in_int64_def max_int64_def min_int64_def session_ttl_def)
  then show ?thesis using c b by blast
qed

end
