(* ===== verification/UpProps.thy ===== *)
theory UpProps
  imports CliProps
begin

text \<open>
  What a run of \<open>roxey up\<close> that succeeds has done, and what \<open>roxey down\<close> undoes: the recorded tunnels
  are the routes of the manifest, the managed hosts are those of the registered projects, and
  nothing of another project is touched.
\<close>

section \<open>Opening tunnels\<close>

lemma find_key_None: "k \<notin> f ` set xs \<Longrightarrow> find (\<lambda>q. f q = k) xs = None"
  by (induction xs) auto

lemma find_mem: "find P xs = Some x \<Longrightarrow> x \<in> set xs \<and> P x"
  by (induction xs) (auto split: if_splits)

lemma find_key_Some: "distinct (map f xs) \<Longrightarrow> x \<in> set xs \<Longrightarrow> find (\<lambda>q. f q = f x) xs = Some x"
  by (induction xs) auto

definition key_of :: "run_spec \<Rightarrow> string" where
  "key_of r = tunnel_key (ru_service r) (ru_path r)"

definition pid_for :: "up_env \<Rightarrow> run_spec \<Rightarrow> int" where
  "pid_for en r = the (st_pid (ue_start en (key_of r)))"

definition record_for :: "up_env \<Rightarrow> string \<Rightarrow> run_spec \<Rightarrow> tunnel_info" where
  "record_for en absFile r = new_tunnel (ue_start en (key_of r)) r absFile (pid_for en r)"

text \<open>A worker that was just started is alive.\<close>

definition starts_alive :: "up_env \<Rightarrow> bool" where
  "starts_alive en \<longleftrightarrow> (\<forall>k pid. st_pid (ue_start en k) = Some pid \<longrightarrow> ue_alive en pid)"

lemma yields_start:
  assumes "yields (open_tunnels en absFile (r # rs)) w w' u" "starts_alive en"
  shows "\<not> is_running (ue_alive en) (content (uw_tunnels w)) (key_of r) \<and> ue_alive en (pid_for en r) \<and>
    yields (open_tunnels en absFile rs)
      (w\<lparr>uw_tunnels := Holds (gput (key_of r) (record_for en absFile r) (content (uw_tunnels w))),
         uw_acts := uw_acts w @ [StartWorker (pid_for en r) (run_args r)]\<rparr>) w' u"
proof -
  obtain tf acts where s: "start_one (ue_alive en) (ue_start en (key_of r)) r absFile (uw_tunnels w) = (tf, acts, Ok ())"
    and y: "yields (open_tunnels en absFile rs) (w\<lparr>uw_tunnels := tf, uw_acts := uw_acts w @ acts\<rparr>) w' u"
    using assms(1) by (auto simp: yields_open_tunnels_Cons key_of_def)
  show ?thesis using start_one_cases [OF s] y assms(2)
    by (auto simp: key_of_def pid_for_def record_for_def starts_alive_def split: if_splits)
qed

lemma open_tunnels_exact:
  assumes "yields (open_tunnels en absFile rs) w w' u" "starts_alive en"
  shows "distinct (map key_of rs) \<and> (\<forall>r\<in>set rs. \<not> is_running (ue_alive en) (content (uw_tunnels w)) (key_of r) \<and> ue_alive en (pid_for en r)) \<and>
    (\<forall>k. map_of (content (uw_tunnels w')) k =
      (case find (\<lambda>r. key_of r = k) rs of Some r \<Rightarrow> Some (record_for en absFile r) | None \<Rightarrow> map_of (content (uw_tunnels w)) k)) \<and>
    uw_acts w' = uw_acts w @ map (\<lambda>r. StartWorker (pid_for en r) (run_args r)) rs \<and> uw_services w' = uw_services w \<and> uw_machine w' = uw_machine w \<and> uw_projects w' = uw_projects w"
  using assms(1)
proof (induction rs arbitrary: w)
  case Nil
  then have "w' = w" using yields_open_tunnels_Nil by blast
  then show ?case by simp
next
  case (Cons r rs)
  let ?w1 = "w\<lparr>uw_tunnels := Holds (gput (key_of r) (record_for en absFile r) (content (uw_tunnels w))),
      uw_acts := uw_acts w @ [StartWorker (pid_for en r) (run_args r)]\<rparr>"
  note st = yields_start [OF Cons.prems assms(2)]
  then have y: "yields (open_tunnels en absFile rs) ?w1 w' u" by blast
  note ih = Cons.IH [OF y]
  have run: "is_running (ue_alive en) (content (uw_tunnels ?w1)) k \<longleftrightarrow> k = key_of r \<or> is_running (ue_alive en) (content (uw_tunnels w)) k" for k
    using st by (auto simp: is_running_def record_for_def new_tunnel_def)
  have new: "key_of r \<notin> key_of ` set rs" 
  proof
    assume "key_of r \<in> key_of ` set rs"
    then obtain q where q: "q \<in> set rs" "key_of q = key_of r" by force
    then have "\<not> is_running (ue_alive en) (content (uw_tunnels ?w1)) (key_of q)" using ih by blast
    then show False using run q(2) by simp
  qed
  have none: "find (\<lambda>q. key_of q = key_of r) rs = None" using new by (rule find_key_None)
  have "map_of (content (uw_tunnels w')) k =
      (case find (\<lambda>r. key_of r = k) (r # rs) of Some r \<Rightarrow> Some (record_for en absFile r) | None \<Rightarrow> map_of (content (uw_tunnels w)) k)" for k
    using ih none by (cases "key_of r = k") (auto split: option.splits)
  moreover have "distinct (map key_of (r # rs))" using ih new by simp
  moreover have "\<forall>q\<in>set (r # rs). \<not> is_running (ue_alive en) (content (uw_tunnels w)) (key_of q) \<and> ue_alive en (pid_for en q)"
    using ih st run by simp
  ultimately show ?case using ih by simp
qed

section \<open>The tunnels of a run\<close>

text \<open>The state files of tunnels and services before the services step are those the command found.\<close>

interpretation files_setup: setup_invariant "\<lambda>w. uw_tunnels w = tf \<and> uw_services w = sf" for tf sf
  by unfold_locales auto

lemma all_routes_split: "set (runs_of m) \<union> set (proxies_of m) = set (all_routes m)"
  by (auto simp: runs_of_def proxies_of_def)

definition route_key :: "run_route \<Rightarrow> string" where
  "route_key rr = tunnel_key (rr_env rr) (trim_suffix (rt_path (rr_route rr)) ''/'')"

lemma key_of_spec [simp]: "key_of (worker_spec tld grp rr) = route_key rr"
  by (simp add: key_of_def route_key_def worker_spec_def)

lemma restart_keeps:
  "wf_gomap ts \<Longrightarrow> map_of (fst (restart_tunnels alive path ts)) k =
     (case map_of ts k of Some i \<Rightarrow> if ti_manifest i = path \<and> alive (ti_pid i) then None else Some i | None \<Rightarrow> None)"
proof -
  assume wf: "wf_gomap ts"
  let ?P = "\<lambda>(k, i). \<not> (ti_manifest i = path \<and> alive (ti_pid i))"
  have f: "fst (restart_tunnels alive path ts) = filter ?P ts" by (simp add: restart_tunnels_def end_tunnels_def)
  have d: "distinct (map fst (filter ?P ts))" using wf by (simp add: wf_gomap_def distinct_map_filter)
  show ?thesis
  proof (cases "map_of ts k")
    case None
    then have "k \<notin> fst ` set ts" by (simp add: map_of_eq_None_iff)
    then have "map_of (filter ?P ts) k = None" by (auto simp: map_of_eq_None_iff)
    then show ?thesis using None f by simp
  next
    case (Some i)
    then have mem: "(k, i) \<in> set ts" by (rule map_of_SomeD)
    show ?thesis
    proof (cases "?P (k, i)")
      case True
      then have "map_of (filter ?P ts) k = Some i" using d mem by (intro map_of_is_SomeI) auto
      then show ?thesis using Some True f by simp
    next
      case False
      have "j = i" if "(k, j) \<in> set ts" for j using gomap_mem [OF wf] that Some by fastforce
      then have "k \<notin> fst ` set (filter ?P ts)" using False by auto
      then have "map_of (filter ?P ts) k = None" by (auto simp: map_of_eq_None_iff)
      then show ?thesis using Some False f by simp
    qed
  qed
qed

text \<open>The tunnels step of a run: what it starts from, and what the steps before it have signalled.\<close>

lemma run_opened:
  assumes relay: "ue_control en = None" and wf: "wf_gomap (content (uw_tunnels w))"
    and run: "up_run en opts absFile m branch isPreview w = Some (w', Ok (m2, failed))"
  shows "\<exists>grp w2. gate_group_of en m2 = Ok grp \<and>
    yields (open_tunnels en absFile (map (worker_spec (rs_tld (mf_relay m2)) grp) (runs_of m2 @ proxies_of m2))) w2 w' () \<and>
    uw_tunnels w2 = Holds (content (uw_tunnels w2)) \<and> wf_gomap (content (uw_tunnels w2)) \<and>
    (\<forall>k. map_of (content (uw_tunnels w2)) k =
      (case map_of (content (uw_tunnels w)) k of Some i \<Rightarrow> if ti_manifest i = absFile \<and> ue_alive en (ti_pid i) then None else Some i | None \<Rightarrow> None)) \<and>
    uw_services w2 = Holds (fst (start_services en (uo_detach opts) absFile (runs_of m2) (fst (restart_services (ue_alive en) absFile (content (uw_services w)))))) \<and>
    set (snd (restart_services (ue_alive en) absFile (content (uw_services w)))) \<union>
      set (snd (restart_tunnels (ue_alive en) absFile (content (uw_tunnels w)))) \<subseteq> set (uw_acts w2)"
proof -
  obtain w1 w2 where prep: "yields (up_prepare en opts m branch isPreview) w w1 m2"
    and svc: "yields (up_services en (uo_detach opts) absFile m2) w1 w2 failed"
    and tun: "yields (up_tunnels en absFile m2) w2 w' ()"
    using run by (auto simp: up_run_def yields_def [symmetric])
  have same: "uw_tunnels w1 = uw_tunnels w" "uw_services w1 = uw_services w"
    using yields_ends_in [OF files_setup.prepare_step _ prep, of "uw_tunnels w" "uw_services w"] by simp_all
  obtain services tunnels where st: "read_map (uw_services w) = Ok services" "read_map (uw_tunnels w) = Ok tunnels"
    and w2: "uw_tunnels w2 = Holds (fst (restart_tunnels (ue_alive en) absFile tunnels))"
      "uw_services w2 = Holds (fst (start_services en (uo_detach opts) absFile (runs_of m2) (fst (restart_services (ue_alive en) absFile services))))"
      "uw_acts w2 = uw_acts w1 @ snd (restart_services (ue_alive en) absFile services) @ snd (restart_tunnels (ue_alive en) absFile tunnels) @
            map (\<lambda>rr. ReclaimPort (rt_port (rr_route rr))) (runs_of m2)"
    using svc unfolding yields_services same by force
  have c: "content (uw_tunnels w) = tunnels" "content (uw_services w) = services" using st by (simp_all add: read_map_content)
  have wf2: "wf_gomap (fst (restart_tunnels (ue_alive en) absFile tunnels))" using wf c by (simp add: restart_tunnels_def end_tunnels_def)
  obtain grp where grp: "gate_group_of en m2 = Ok grp"
    and op: "yields (open_tunnels en absFile (map (worker_spec (rs_tld (mf_relay m2)) grp) (runs_of m2 @ proxies_of m2))) w2 w' ()"
    using tun relay by (auto simp: up_tunnels_def)
  have old: "map_of (content (uw_tunnels w2)) k =
      (case map_of tunnels k of Some i \<Rightarrow> if ti_manifest i = absFile \<and> ue_alive en (ti_pid i) then None else Some i | None \<Rightarrow> None)" for k
    using restart_keeps [of tunnels "ue_alive en" absFile k] wf c by (simp add: w2)
  show ?thesis using grp op old wf2 by (intro exI [of _ grp] exI [of _ w2]) (simp add: c w2, blast)
qed

text \<open>The worker of a route, and the tunnels that are no route of the manifest.\<close>

lemma route_opened:
  assumes op: "yields (open_tunnels en absFile (map (worker_spec tld grp) (runs_of m @ proxies_of m))) w2 w' ()" and live: "starts_alive en"
    and rr: "rr \<in> set (all_routes m)"
  shows "\<exists>info. map_of (content (uw_tunnels w')) (route_key rr) = Some info \<and>
       ue_alive en (ti_pid info) \<and> ti_manifest info = absFile \<and> ti_target info = run_target (rr_route rr) \<and>
       StartWorker (ti_pid info) (run_args (worker_spec tld grp rr)) \<in> set (uw_acts w')"
proof (intro exI conjI)
  let ?rs = "map (worker_spec tld grp) (runs_of m @ proxies_of m)" and ?spec = "worker_spec tld grp rr"
  note ex = open_tunnels_exact [OF op live]
  have s: "?spec \<in> set ?rs" using rr all_routes_split by auto
  have one: "find (\<lambda>r. key_of r = route_key rr) ?rs = Some ?spec"
    using find_key_Some [OF conjunct1 [OF ex] s] unfolding key_of_spec .
  show "map_of (content (uw_tunnels w')) (route_key rr) = Some (record_for en absFile ?spec)" using ex one by simp
  show "ue_alive en (ti_pid (record_for en absFile ?spec))" using ex s by (simp add: record_for_def new_tunnel_def)
  show "StartWorker (ti_pid (record_for en absFile ?spec)) (run_args ?spec) \<in> set (uw_acts w')"
    using ex s by (force simp: record_for_def new_tunnel_def)
qed (simp_all add: record_for_def new_tunnel_def worker_spec_def)

lemma opened_from:
  assumes op: "yields (open_tunnels en absFile (map (worker_spec tld grp) (runs_of m @ proxies_of m))) w2 w' ()" and live: "starts_alive en"
    and k: "map_of (content (uw_tunnels w')) k = Some info"
  shows "ti_manifest info = absFile \<and> k \<in> route_key ` set (all_routes m) \<or> map_of (content (uw_tunnels w2)) k = Some info"
proof (cases "find (\<lambda>r. key_of r = k) (map (worker_spec tld grp) (runs_of m @ proxies_of m))")
  case None
  then show ?thesis using open_tunnels_exact [OF op live] k by simp
next
  case (Some r)
  then have r: "r \<in> set (map (worker_spec tld grp) (runs_of m @ proxies_of m))" "key_of r = k" using find_mem by fast+
  then obtain rr where "rr \<in> set (all_routes m)" "r = worker_spec tld grp rr" using all_routes_split by force
  then have "k \<in> route_key ` set (all_routes m)" using r(2) key_of_spec by blast
  moreover have "info = record_for en absFile r" using open_tunnels_exact [OF op live] k Some by simp
  ultimately show ?thesis by (simp add: record_for_def new_tunnel_def)
qed

lemma opened_keeps:
  assumes op: "yields (open_tunnels en absFile rs) w2 w' ()" and live: "starts_alive en"
    and k: "map_of (content (uw_tunnels w2)) k = Some info" "ue_alive en (ti_pid info)"
  shows "map_of (content (uw_tunnels w')) k = Some info"
proof -
  note ex = open_tunnels_exact [OF op live]
  have "is_running (ue_alive en) (content (uw_tunnels w2)) k" using k by (simp add: is_running_def)
  then have "find (\<lambda>r. key_of r = k) rs = None" using ex by (intro find_key_None) blast
  then show ?thesis using ex k by simp
qed

lemma restart_signals:
  "map_of tunnels k = Some info \<Longrightarrow> ti_manifest info = absFile \<Longrightarrow> alive (ti_pid info) \<Longrightarrow>
     TermProcess (ti_pid info) \<in> set (snd (restart_tunnels alive absFile tunnels))"
  "map_of services k = Some svc \<Longrightarrow> si_manifest svc = absFile \<Longrightarrow> alive (si_pid svc) \<Longrightarrow>
     KillGroup (si_pid svc) \<in> set (snd (restart_services alive absFile services))"
  subgoal using end_tunnels_acts [of tunnels k info "\<lambda>_ i. ti_manifest i = absFile \<and> alive (ti_pid i)"] by (simp add: restart_tunnels_def)
  subgoal by (frule map_of_SomeD [of services]) (force simp: restart_services_def end_services_def prune_dead_services_def)
  done



section \<open>The managed hosts\<close>

lemma helper_do_synced:
  assumes "snd (helper_do fate env owner uid (sync_hosts_request hosts) d)"
  shows "validate_hosts hosts (allowed_tlds env) = None \<and>
    d_hosts (fst (helper_do fate env owner uid (sync_hosts_request hosts) d)) = merge_hosts_block (d_hosts d) (render_block hosts)"
proof -
  obtain d' rep where h: "handle_conn env owner d (Some uid) (Some (sync_hosts_request hosts)) = (d', rep)" by (metis surj_pair)
  have "fate = Answered" "rp_ok rep" "fst (helper_do fate env owner uid (sync_hosts_request hosts) d) = d'"
    using assms h by (auto simp: helper_do_def call_op_def split: fate.splits)
  then show ?thesis using handle_hosts_cases [OF h] by (auto simp: sync_hosts_request_def)
qed

lemma yields_helper_call:
  "yields (helper_call le req act e) w w' u \<longleftrightarrow>
     snd (helper_do (le_calls le (rq_op req)) (machine_os le w) (le_owner le) (le_uid le) req (uw_machine w)) \<and>
     w' = w\<lparr>uw_machine := fst (helper_do (le_calls le (rq_op req)) (machine_os le w) (le_owner le) (le_uid le) req (uw_machine w)),
       uw_acts := uw_acts w @ [act]\<rparr>"
proof -
  have "yields (helper_call le req act e) w w' u \<longleftrightarrow>
      yields (up_step act (snd (helper_do (le_calls le (rq_op req)) (machine_os le w) (le_owner le) (le_uid le) req (uw_machine w))) e)
        (w\<lparr>uw_machine := fst (helper_do (le_calls le (rq_op req)) (machine_os le w) (le_owner le) (le_uid le) req (uw_machine w))\<rparr>) w' u"
    by (simp add: yields_def helper_call_def case_prod_unfold Let_def)
  then show ?thesis by auto
qed

lemma machine_os_hosts [simp]: "machine_os le (w\<lparr>uw_machine := d\<rparr>) = machine_os le w" "machine_os le (w\<lparr>uw_acts := as\<rparr>) = machine_os le w"
  by (simp_all add: machine_os_def)

lemma via_helper_hosts:
  assumes "yields (apply_via_helper le tld hosts) w w' u" "needs_hosts tld"
  shows "validate_hosts hosts (allowed_tlds (machine_os le w)) = None \<and> uw_projects w' = uw_projects w \<and>
    d_hosts (uw_machine w') = merge_hosts_block (d_hosts (uw_machine w)) (render_block hosts)"
  using assms helper_do_synced
  by (auto simp: apply_via_helper_def yields_helper_call helper_do_trust helper_do_relay_hosts split: if_splits)

lemma tunnels_keep_machine:
  "ends_in (\<lambda>w. uw_machine w = d \<and> uw_projects w = p) (open_tunnels en absFile rs) (\<lambda>w. uw_machine w = d \<and> uw_projects w = p)"
  unfolding ends_in_def
proof (intro allI impI)
  fix w w' r
  assume "uw_machine w = d \<and> uw_projects w = p" "open_tunnels en absFile rs w = Some (w', r)"
  then show "uw_machine w' = d \<and> uw_projects w' = p"
  proof (induction rs arbitrary: w)
    case (Cons t ts)
    obtain tf acts res where one: "start_one (ue_alive en) (ue_start en (tunnel_key (ru_service t) (ru_path t))) t absFile (uw_tunnels w) = (tf, acts, res)"
      by (metis prod_cases3)
    show ?case using Cons.prems Cons.IH [of "w\<lparr>uw_tunnels := tf, uw_acts := uw_acts w @ acts\<rparr>"] by (cases res) (auto simp: one Let_def)
  qed simp
qed

lemma run_keeps_machine:
  assumes "yields (up_run en opts absFile m branch isPreview) w w' x" "ue_control en = None"
    and "\<And>w1 m2. yields (up_prepare en opts m branch isPreview) w w1 m2 \<Longrightarrow> uw_machine w1 = d \<and> uw_projects w1 = p"
  shows "uw_machine w' = d \<and> uw_projects w' = p"
proof -
  obtain w1 w2 m2 failed where prep: "yields (up_prepare en opts m branch isPreview) w w1 m2"
    and svc: "yields (up_services en (uo_detach opts) absFile m2) w1 w2 failed" and tun: "yields (up_tunnels en absFile m2) w2 w' ()"
    using assms(1) by (auto simp: up_run_def)
  have "uw_machine w2 = d \<and> uw_projects w2 = p" using assms(3) [OF prep] svc by (auto simp: yields_services)
  then show ?thesis using tun assms(2) yields_ends_in [OF tunnels_keep_machine] by (fastforce simp: up_tunnels_def)
qed

lemma prepared_local:
  assumes "yields (up_prepare en opts m branch isPreview) w w' m2" "ue_control en = None" "rs_local (mf_relay m)"
  shows "\<exists>rg0 w1 w2 k. read_map (uw_projects w) = Ok rg0 \<and> w1 = w\<lparr>uw_projects := Holds (registered en m branch isPreview rg0)\<rparr> \<and>
    yields (ensure_local_relay en m (registered en m branch isPreview rg0)) w1 w2 k \<and> uw_machine w' = uw_machine w2 \<and> uw_projects w' = uw_projects w2"
  using assms
  by (auto simp: up_prepare_def yields_register yields_key_local keep_key_def yields_set_server yields_ports yields_hosted yields_templates split: if_splits)

lemma registered_project:
  "\<exists>p\<in>snd ` set (registered en m branch isPreview rg). p_path p = path_clean (mf_dir m) \<and> p_local p = rs_local (mf_relay m) \<and>
     p_tld p = rs_tld (mf_relay m) \<and> p_hosts p = map me_host (mf_envs m)"
proof -
  let ?dir = "path_clean (mf_dir m)"
  let ?n = "pick_name rg ?dir (path_base ?dir) 0"
  let ?p = "new_project (ue_now en) ?n ?dir (rs_tld (mf_relay m)) (rs_local (mf_relay m)) (map me_host (mf_envs m)) branch isPreview"
  have "registered en m branch isPreview rg = gput ?n ?p rg" by (simp add: registered_def register_project_def Let_def)
  moreover have "map_of (gput ?n ?p rg) ?n = Some ?p" by simp
  ultimately have "(?n, ?p) \<in> set (registered en m branch isPreview rg)" by (metis map_of_SomeD)
  then have "?p \<in> snd ` set (registered en m branch isPreview rg)" by force
  then show ?thesis by (rule bexI [rotated]) (simp add: new_project_def)
qed

lemma dedupe_from_set: "set (dedupe_from seen ss) = set ss - set seen"
  by (induction ss arbitrary: seen) auto

lemma local_hosts_set: "set (all_local_host_fqdns rg) \<subseteq> set (local_hosts rg m)"
  by (auto simp: local_hosts_def Let_def dedupe_def dedupe_from_set)

text \<open>
  C12: a successful local run through the helper leaves \<open>/etc/hosts\<close> in step with the project
  registry: the registry on disk holds this project with its hosts, every host of every local
  project has its entry, including the project's own, and the text outside the managed block
  is what it was.
\<close>

theorem up_hosts_follow_registry:
  assumes mode: "ue_control en = None" "rs_local (mf_relay m)" "needs_hosts (rs_tld (mf_relay m))" "helper_available (ue_local en)"
    and run: "up_run en opts absFile m branch isPreview w = Some (w', Ok x)"
  shows "\<exists>rg. uw_projects w' = Holds rg \<and>
    (\<exists>p\<in>snd ` set rg. p_path p = path_clean (mf_dir m) \<and> p_local p \<and> p_tld p = rs_tld (mf_relay m) \<and> p_hosts p = map me_host (mf_envs m)) \<and>
    (\<forall>p\<in>snd ` set rg. \<forall>h\<in>set (local_names p). entry_line h \<in> set (str_split nl (d_hosts (uw_machine w')))) \<and>
    kept_content (d_hosts (uw_machine w')) = pad_content (kept_content (d_hosts (uw_machine w)))"
proof -
  have y: "yields (up_run en opts absFile m branch isPreview) w w' x" using run by (simp add: yields_def)
  obtain w0 m2 where prep: "yields (up_prepare en opts m branch isPreview) w w0 m2" using y by (auto simp: up_run_def)
  obtain rg0 w2 k where rel: "yields (ensure_local_relay en m (registered en m branch isPreview rg0)) (w\<lparr>uw_projects := Holds (registered en m branch isPreview rg0)\<rparr>) w2 k"
    and w0: "uw_machine w0 = uw_machine w2" "uw_projects w0 = uw_projects w2"
    using prepared_local [OF prep mode(1,2)] by blast
  let ?rg = "registered en m branch isPreview rg0"
  let ?hosts = "local_hosts ?rg m"
  have set_same: "yields (up_set_server b t sc) v v' u \<Longrightarrow> uw_machine v' = uw_machine v \<and> uw_projects v' = uw_projects v" for b t sc v v' u
    by (auto simp: yields_set_server)
  obtain w3 where via: "yields (apply_via_helper (ue_local en) (rs_tld (mf_relay m)) ?hosts) (w\<lparr>uw_projects := Holds ?rg\<rparr>) w3 ()"
    and w3: "uw_machine w2 = uw_machine w3" "uw_projects w2 = uw_projects w3"
  proof -
    obtain u v where u: "yields (apply_via_helper (ue_local en) (rs_tld (mf_relay m)) ?hosts) (w\<lparr>uw_projects := Holds ?rg\<rparr>) u v"
      and rest: "w2 = u \<or> (\<exists>b sc. yields (up_set_server b (rs_tld (mf_relay m)) sc) u w2 ())"
      using rel mode(4) unfolding ensure_local_relay_def apply_local_privileged_def Let_def by (simp split: if_splits) blast+
    have "uw_machine w2 = uw_machine u \<and> uw_projects w2 = uw_projects u" using rest set_same by blast
    then show thesis using that u by simp
  qed
  have synced: "validate_hosts ?hosts (allowed_tlds (machine_os (ue_local en) (w\<lparr>uw_projects := Holds ?rg\<rparr>))) = None"
    "uw_projects w3 = Holds ?rg" "d_hosts (uw_machine w3) = merge_hosts_block (d_hosts (uw_machine w)) (render_block ?hosts)"
    using via_helper_hosts [OF via mode(3)] by simp_all
  have w': "uw_machine w' = uw_machine w3 \<and> uw_projects w' = Holds ?rg"
  proof (rule run_keeps_machine [OF y mode(1)])
    fix v m3 assume "yields (up_prepare en opts m branch isPreview) w v m3"
    then have "v = w0" using prep by (simp add: yields_def)
    then show "uw_machine v = uw_machine w3 \<and> uw_projects v = Holds ?rg" using w0 w3 synced(2) by simp
  qed
  have ok: "\<forall>e\<in>set ?hosts. nl \<notin> set e \<and> e \<noteq> []"
  proof
    fix e assume "e \<in> set ?hosts"
    then have "entry_ok (allowed_tlds (machine_os (ue_local en) (w\<lparr>uw_projects := Holds ?rg\<rparr>))) e"
      using synced(1) unfolding validate_hosts_None by blast
    then show "nl \<notin> set e \<and> e \<noteq> []" using entry_ok_no_nl by (simp add: entry_ok_def)
  qed
  have line: "entry_line h \<in> set (str_split nl (d_hosts (uw_machine w')))" if h: "h \<in> set (local_names p)" "p \<in> snd ` set ?rg" for h p
  proof -
    have "h \<in> set (all_local_host_fqdns ?rg)" unfolding all_local_exact(3) using h by (intro UN_I [of p])
    then have mem: "h \<in> set ?hosts" using local_hosts_set by (rule subsetD [rotated])
    have plain: "h \<noteq> []" "\<forall>e\<in>set ?hosts. nl \<notin> set e" using bspec [OF ok mem] ok by blast+
    have "h \<in> set (fresh_entries [] ?hosts)" by (simp only: fresh_entries_mem mem plain(1)) simp
    then have "fresh_entries [] ?hosts \<noteq> []" by force
    then have "entry_line h \<in> set (str_split nl (render_block ?hosts))" unfolding block_lines [OF plain(2)] using mem plain(1) by simp
    then show ?thesis unfolding conjunct1 [OF w'] synced(3) by (rule subsetD [OF merged_lines(1)])
  qed
  have kept: "kept_content (d_hosts (uw_machine w')) = pad_content (kept_content (d_hosts (uw_machine w)))"
    using merged_kept [OF render_is_block] ok w' synced(3) by simp
  show ?thesis
  proof (intro exI conjI ballI)
    show "uw_projects w' = Holds ?rg" using w' by simp
    show "\<exists>p\<in>snd ` set ?rg. p_path p = path_clean (mf_dir m) \<and> p_local p \<and> p_tld p = rs_tld (mf_relay m) \<and> p_hosts p = map me_host (mf_envs m)"
      using registered_project [of en m branch isPreview rg0] by (simp only: mode(2) simp_thms)
  qed (rule line, assumption+, rule kept)
qed

definition local_manifest :: manifest where
  "local_manifest = demo_manifest\<lparr>mf_relay := \<lparr>rs_tld = ''dev'', rs_api_key = [], rs_local = True\<rparr>\<rparr>"

definition keyed_world :: up_world where
  "keyed_world = fresh_world\<lparr>uw_servers := Holds [(''dev'', no_server\<lparr>sc_api_key := ''k''\<rparr>)]\<rparr>"

lemma local_demo:
  "registered demo_up local_manifest [] False [] = [(''p'', new_project ''t'' ''p'' ''/p'' ''dev'' True [''app''] [] False)]"
  "local_hosts [(''p'', new_project ''t'' ''p'' ''/p'' ''dev'' True [''app''] [] False)] local_manifest = [''app.dev'', ''roxey.dev'']"
  "assign_ports False [] local_manifest = Some (Ok local_manifest)"
  "resolve_templates False local_manifest = Ok local_manifest"
  by code_simp+

definition demo_rg :: project_registry where
  "demo_rg = [(''p'', new_project ''t'' ''p'' ''/p'' ''dev'' True [''app''] [] False)]"

lemma local_calls:
  "snd (helper_do Answered (machine_os demo_local (keyed_world\<lparr>uw_projects := Holds demo_rg\<rparr>)) 501 501 (sync_hosts_request [''app.dev'', ''roxey.dev''])
     (uw_machine keyed_world))"
  "snd (helper_do Answered (machine_os demo_local (keyed_world\<lparr>uw_projects := Holds demo_rg\<rparr>)) 501 501 ensure_relay_request
     (fst (helper_do Answered (machine_os demo_local (keyed_world\<lparr>uw_projects := Holds demo_rg\<rparr>)) 501 501 (sync_hosts_request [''app.dev'', ''roxey.dev''])
       (uw_machine keyed_world))))"
  "available Answered demo_os 501 501 \<lparr>d_hosts = [], d_relay = None\<rparr>"
  "wait_until 30 [(1, True)] = Some True"
  by code_simp+

lemma demo_prepare_local:
  "\<exists>w. yields (up_prepare demo_up no_up_options local_manifest [] False) keyed_world w local_manifest \<and> uw_tunnels w = Missing \<and> uw_services w = Missing"
proof -
  have c: "ue_control demo_up = None" "ue_written demo_up" "rs_local (mf_relay local_manifest)" "rs_tld (mf_relay local_manifest) = ''dev''"
    "rs_api_key (mf_relay local_manifest) = []" "uo_online no_up_options = False" "ue_ports demo_up = []" "ue_local demo_up = demo_local"
    by (simp_all add: demo_up_def local_manifest_def no_up_options_def)
  have l: "le_certs demo_local" "le_trusted demo_local" "le_ping demo_local = Answered" "le_os demo_local = demo_os" "le_owner demo_local = 501"
    "le_uid demo_local = 501" "le_calls demo_local = (\<lambda>_. Answered)" "le_relay_wait demo_local = (0, [(1, True)])" "needs_hosts ''dev''"
    by (simp_all add: demo_local_def needs_hosts_def has_suffix_def)
  have f: "uw_projects keyed_world = Missing" "uw_tunnels keyed_world = Missing" "uw_services keyed_world = Missing"
    "sc_api_key (saved_server (uw_servers keyed_world) ''dev'') = ''k''"
    by (simp_all add: fresh_world_def keyed_world_def saved_server_def server_for_def load_config_def)
  let ?w1 = "keyed_world\<lparr>uw_projects := Holds demo_rg\<rparr>"
  have "\<exists>u. yields (apply_via_helper demo_local ''dev'' [''app.dev'', ''roxey.dev'']) ?w1 u () \<and>
      uw_servers u = uw_servers keyed_world \<and> uw_tunnels u = Missing \<and> uw_services u = Missing"
    using l f local_calls(1,2,4) by (simp add: apply_via_helper_def yields_helper_call sync_hosts_request_def ensure_relay_request_def)
      (rule exI, rule conjI, rule exI [of _ True], rule conjI, rule impI, rule refl, simp_all)
  then obtain u where u: "yields (apply_via_helper demo_local ''dev'' [''app.dev'', ''roxey.dev'']) ?w1 u ()"
    "uw_servers u = uw_servers keyed_world" "uw_tunnels u = Missing" "uw_services u = Missing" by blast
  have h: "helper_available demo_local" using local_calls(3) l by (simp add: helper_available_def)
  have hosts: "local_hosts demo_rg local_manifest = [''app.dev'', ''roxey.dev'']" using local_demo(2) by (simp add: demo_rg_def)
  have "yields (ensure_local_relay demo_up local_manifest demo_rg) ?w1 u ''k''"
    using u(1,2) l(1) f(4) h by (auto simp: ensure_local_relay_def apply_local_privileged_def c hosts Let_def)
  then have "\<exists>w2. yields (ensure_local_relay demo_up local_manifest demo_rg) ?w1 w2 ''k'' \<and> uw_tunnels w2 = Missing \<and> uw_services w2 = Missing"
    using u(3,4) by blast
  then show ?thesis
    using local_demo f
    by (simp add: up_prepare_def yields_register yields_key_local keep_key_def yields_ports yields_hosted yields_templates c demo_rg_def read_map_def load_map_def) blast
qed

theorem up_hosts_follow_registry_witness:
  "\<exists>w x. up_run demo_up no_up_options ''/p/roxey.yaml'' local_manifest [] False keyed_world = Some (w, Ok x) \<and>
     entry_line ''app.dev'' \<in> set (str_split nl (d_hosts (uw_machine w)))"
proof -
  obtain w1 where w1: "yields (up_prepare demo_up no_up_options local_manifest [] False) keyed_world w1 local_manifest"
    "uw_tunnels w1 = Missing" "uw_services w1 = Missing" using demo_prepare_local by blast
  have c: "ue_control demo_up = None" "ue_written demo_up" "ue_start demo_up = (\<lambda>_. demo_start)" by (simp_all add: demo_up_def)
  have m: "runs_of local_manifest = []" "gate_group_of demo_up local_manifest = Ok []" "length (proxies_of local_manifest) = 1"
    by (simp_all add: local_manifest_def demo_manifest_def runs_of_def proxies_of_def all_routes_def is_run_def empty_route_def gate_group_of_def has_protected_def)
  let ?w2 = "w1\<lparr>uw_services := Holds [], uw_tunnels := Holds []\<rparr>"
  have "yields (up_services demo_up (uo_detach no_up_options) ''/p/roxey.yaml'' local_manifest) w1 ?w2 []"
    using w1(2,3) c(2) m(1) by (simp add: yields_services read_map_def load_map_def restart_services_def restart_tunnels_def
        prune_dead_services_def end_services_def end_tunnels_def)
  moreover obtain r where "map (worker_spec (rs_tld (mf_relay local_manifest)) []) (proxies_of local_manifest) = [r]"
    using m(3) by (auto simp: length_Suc_conv)
  then have "\<exists>w3. yields (up_tunnels demo_up ''/p/roxey.yaml'' local_manifest) ?w2 w3 ()"
    using c(1,3) m
    by (auto simp: up_tunnels_def yields_open_tunnels_Cons yields_open_tunnels_Nil start_one_def is_running_def
        demo_start_def write_back_def Let_def)
  ultimately obtain w x where run: "up_run demo_up no_up_options ''/p/roxey.yaml'' local_manifest [] False keyed_world = Some (w, Ok x)"
    using w1(1) by (fastforce simp: up_run_def yields_def [symmetric])
  have mode: "ue_control demo_up = None" "rs_local (mf_relay local_manifest)" "needs_hosts (rs_tld (mf_relay local_manifest))" "helper_available (ue_local demo_up)"
    using local_calls(3) by (simp_all add: demo_up_def local_manifest_def needs_hosts_def has_suffix_def helper_available_def demo_local_def)
  obtain rg :: project_registry and p where p: "p \<in> snd ` set rg" "p_local p" "p_tld p = ''dev''" "p_hosts p = [''app'']"
    "\<forall>h\<in>set (local_names p). entry_line h \<in> set (str_split nl (d_hosts (uw_machine w)))"
  proof -
    have m: "rs_tld (mf_relay local_manifest) = ''dev''" "map me_host (mf_envs local_manifest) = [''app'']"
      by (simp_all add: local_manifest_def demo_manifest_def)
    note r = up_hosts_follow_registry [OF mode run, unfolded m]
    from r obtain rg :: project_registry where rg: "\<exists>p\<in>snd ` set rg. p_path p = path_clean (mf_dir local_manifest) \<and> p_local p \<and> p_tld p = ''dev'' \<and> p_hosts p = [''app'']"
      "\<forall>p\<in>snd ` set rg. \<forall>h\<in>set (local_names p). entry_line h \<in> set (str_split nl (d_hosts (uw_machine w)))"
      by (elim exE conjE) (rule that, assumption+)
    from rg(1) obtain p where p: "p \<in> snd ` set rg" "p_local p" "p_tld p = ''dev''" "p_hosts p = [''app'']" by (elim bexE conjE) (rule that, assumption+)
    show thesis by (rule that [OF p bspec [OF rg(2) p(1)]])
  qed
  then have "''app.dev'' \<in> set (local_names p)" by (simp add: local_names_def fqdn_def)
  then show ?thesis using run p(5) by blast
qed

end
