(* ===== verification/DownProps.thy ===== *)
theory DownProps
  imports UpProps
begin

text \<open>
  \<open>roxey down\<close> after \<open>roxey up\<close>: what the one records, the other ends and forgets, and nothing of
  another project is touched.
\<close>

section \<open>Down on readable files\<close>

lemma forget_names: "map_of (foldl (\<lambda>r (_, p). gdel (p_name p) r) rg gone) k = (if k \<in> (p_name \<circ> snd) ` set gone then None else map_of rg k)"
  by (induction gone arbitrary: rg) auto

lemma forget_dir_exact:
  assumes "wf_projects rg"
  shows "map_of (fst (forget_dir written dir rg fl)) k =
    (case map_of rg k of Some p \<Rightarrow> if same_dir (p_path p) dir then None else Some p | None \<Rightarrow> None)"
proof -
  let ?gone = "filter (\<lambda>(_, p). same_dir (p_path p) dir) rg"
  have gone: "k \<in> (p_name \<circ> snd) ` set ?gone \<longleftrightarrow> (\<exists>p. map_of rg k = Some p \<and> same_dir (p_path p) dir)"
  proof
    assume "k \<in> (p_name \<circ> snd) ` set ?gone"
    then obtain n p where p: "(n, p) \<in> set rg" "same_dir (p_path p) dir" "k = p_name p" by (elim imageE) (force simp: case_prod_unfold)
    have "map_of rg n = Some p" using assms gomap_mem [of rg n p] p(1) unfolding wf_projects_def by blast
    moreover have "n = k" using assms p(3) calculation unfolding wf_projects_def by blast
    ultimately show "\<exists>p. map_of rg k = Some p \<and> same_dir (p_path p) dir" using p(2) by blast
  next
    assume "\<exists>p. map_of rg k = Some p \<and> same_dir (p_path p) dir"
    then obtain p where p: "map_of rg k = Some p" "same_dir (p_path p) dir" by blast
    have "(k, p) \<in> set ?gone" using map_of_SomeD [OF p(1)] p(2) by simp
    moreover have "p_name p = k" using assms p(1) unfolding wf_projects_def by blast
    ultimately show "k \<in> (p_name \<circ> snd) ` set ?gone" by (force simp only: comp_apply snd_conv intro!: rev_image_eqI)
  qed
  show ?thesis unfolding forget_dir_def Let_def fst_conv forget_names gone by (auto split: option.splits)
qed

lemma wf_forget_dir: "wf_gomap rg \<Longrightarrow> wf_gomap (fst (forget_dir written dir rg fl))"
proof -
  have "wf_gomap r \<Longrightarrow> wf_gomap (foldl (\<lambda>r (_, p). gdel (p_name p) r) r gone)" for r :: project_registry and gone :: project_registry
    by (induction gone arbitrary: r) auto
  then show "wf_gomap rg \<Longrightarrow> ?thesis" by (simp add: forget_dir_def Let_def)
qed

definition downed_tunnels :: "string \<Rightarrow> manifest \<Rightarrow> tunnels \<Rightarrow> tunnels \<times> action list" where
  "downed_tunnels absFile m = end_tunnels (\<lambda>k info. ti_manifest info = absFile \<or> ti_manifest info = [] \<and> same_host k m)"

lemma cmd_down_Ok:
  assumes "parse_down_args [] [] args = Ok (fl, project)" "resolve_file fl project (Holds rg) (dn_cwd en) = Ok absFile"
    and "dn_manifest en absFile = Some m" "dn_written1 en" "dn_written2 en"
  shows "\<exists>acts0 acts3 n. cmd_down en args (Holds ts, Holds ss, Holds rg) =
    ((Holds (fst (downed_tunnels absFile m ts)), Holds (fst (end_services (\<lambda>svc. si_manifest svc = absFile) ss)),
      snd (forget_dir (dn_written3 en) (mf_dir m) rg (Holds rg))),
     acts0 @ snd (downed_tunnels absFile m ts) @ snd (end_services (\<lambda>svc. si_manifest svc = absFile) ss) @
       (if rs_local (mf_relay m) \<and> needs_hosts (rs_tld (mf_relay m))
        then [SyncHosts (all_local_host_fqdns (fst (forget_dir (dn_written3 en) (mf_dir m) rg (Holds rg))))] else []),
     Ok n)"
  using assms by (simp add: cmd_down_def Let_def case_prod_unfold write_back_def downed_tunnels_def)

section \<open>The files after up\<close>

interpretation projects_relay: relay_invariant "\<lambda>w. uw_projects w = p" for p
  by unfold_locales auto

lemma prepared_projects:
  assumes "yields (up_prepare en opts m branch isPreview) w w' m2" "ue_control en = None"
  shows "\<exists>rg0. read_map (uw_projects w) = Ok rg0 \<and> uw_projects w' = Holds (registered en m branch isPreview rg0)"
proof -
  obtain rg0 w2 key m1 m3 where rg0: "read_map (uw_projects w) = Ok rg0"
    and key: "yields (up_key en m (registered en m branch isPreview rg0)) (w\<lparr>uw_projects := Holds (registered en m branch isPreview rg0)\<rparr>) w2 key"
    and rest: "w' = w2"
    using assms by (auto simp: up_prepare_def yields_register yields_ports yields_hosted yields_templates split: if_splits)
  then show ?thesis using yields_ends_in [OF projects_relay.key_step _ key, of "Holds (registered en m branch isPreview rg0)"] by simp
qed

lemma tunnels_keep_projects: "ends_in (\<lambda>w. uw_projects w = p) (open_tunnels en absFile rs) (\<lambda>w. uw_projects w = p)"
  using tunnels_keep_machine [of _ p] unfolding ends_in_def by blast

lemma registered_map:
  "\<exists>n p. map_of (registered en m branch isPreview rg) = (map_of rg)(n \<mapsto> p) \<and> same_dir (p_path p) (mf_dir m) \<and> name_free rg (path_clean (mf_dir m)) n"
  unfolding registered_def register_name
  by (intro exI conjI) (rule refl, simp_all add: new_project_def same_dir_def path_clean_idem pick_name_free)

text \<open>Registering the directory and forgetting it restores the entries of the other directories.\<close>

lemma wf_registered: "wf_projects rg \<Longrightarrow> wf_projects (registered en m branch isPreview rg)"
  by (simp add: registered_def register_project_def Let_def wf_projects_put path_clean_idem)

lemma forget_registered:
  assumes wf: "wf_projects rg" and dir: "path_clean (mf_dir m0) = path_clean (mf_dir m)"
  shows "map_of (fst (forget_dir written (mf_dir m0) (registered en m branch isPreview rg) fl)) k =
    (case map_of rg k of Some p \<Rightarrow> if same_dir (p_path p) (mf_dir m) then None else Some p | None \<Rightarrow> None)"
proof -
  have same: "same_dir d (mf_dir m0) = same_dir d (mf_dir m)" for d using dir by (simp add: same_dir_def)
  obtain n p where n: "map_of (registered en m branch isPreview rg) = (map_of rg)(n \<mapsto> p)" "same_dir (p_path p) (mf_dir m)" "name_free rg (path_clean (mf_dir m)) n"
    using registered_map by blast
  have "same_dir (p_path q) (mf_dir m)" if "map_of rg n = Some q" for q
    using n(3) that by (simp add: name_free_def same_dir_def path_clean_idem)
  then show ?thesis using n(2) by (auto simp: forget_dir_exact [OF wf_registered [OF wf]] same n(1) split: option.splits)
qed

lemma forget_registered_file:
  assumes wf: "wf_projects rg" and dir: "path_clean (mf_dir m0) = path_clean (mf_dir m)"
  shows "snd (forget_dir True (mf_dir m0) (registered en m branch isPreview rg) fl) =
    Holds (fst (forget_dir True (mf_dir m0) (registered en m branch isPreview rg) fl))"
proof -
  obtain n p where "map_of (registered en m branch isPreview rg) n = Some p" "same_dir (p_path p) (mf_dir m)"
    using registered_map [of en m branch isPreview rg] by (metis fun_upd_same)
  then have "(n, p) \<in> set (filter (\<lambda>(_, p). same_dir (p_path p) (mf_dir m0)) (registered en m branch isPreview rg))"
    using map_of_SomeD [of _ n p] dir by (auto simp: same_dir_def)
  then show ?thesis by (auto simp: forget_dir_def Let_def dest: filter_empty_conv [THEN iffD1])
qed

lemma open_tunnels_file:
  assumes "yields (open_tunnels en absFile rs) w w' u" "uw_tunnels w = Holds ts" "wf_gomap ts" "starts_alive en"
  shows "\<exists>ts'. uw_tunnels w' = Holds ts' \<and> wf_gomap ts'"
  using assms(1-3)
proof (induction rs arbitrary: w ts)
  case Nil
  then have "w' = w" using yields_open_tunnels_Nil by blast
  then show ?case using Nil by blast
next
  case (Cons r rs)
  show ?case using yields_start [OF Cons.prems(1) assms(4)] Cons.prems(2,3)
    by (intro Cons.IH [of "w\<lparr>uw_tunnels := Holds (gput (key_of r) (record_for en absFile r) ts), uw_acts := uw_acts w @ [StartWorker (pid_for en r) (run_args r)]\<rparr>" "gput (key_of r) (record_for en absFile r) ts"]) auto
qed

lemma put_mem: "(k, v) \<in> set (gput a b m) \<Longrightarrow> (k, v) = (a, b) \<or> (k, v) \<in> set m"
proof (induction m)
  case (Cons x m)
  then show ?case by (cases x) (simp split: if_splits, blast+)
qed simp

lemma started_from:
  "(k, svc) \<in> set (fst (start_services en detach absFile rrs services)) \<Longrightarrow> si_manifest svc = absFile \<or> (k, svc) \<in> set services"
proof (induction rrs arbitrary: services)
  case (Cons rr rrs)
  show ?case
  proof (cases "ue_service en (rr_name rr)")
    case (Some pid)
    then have "si_manifest svc = absFile \<or> (k, svc) \<in> set (gput (svc_key absFile (rr_name rr)) (service_record en detach absFile rr pid) services)"
      using Cons by simp
    then show ?thesis by (auto dest!: put_mem simp: service_record_def Let_def)
  qed (use Cons in \<open>simp add: case_prod_unfold Let_def\<close>)
qed simp

lemma started_keeps:
  "\<forall>n. k \<noteq> svc_key absFile n \<Longrightarrow> map_of (fst (start_services en detach absFile rrs services)) k = map_of services k"
  by (induction rrs arbitrary: services) (auto simp: case_prod_unfold Let_def split: option.splits)


section \<open>The round trip\<close>

lemma up_projects:
  assumes "ue_control en = None" "up_run en opts absFile m branch isPreview w = Some (w', Ok x)"
  shows "uw_projects w' = Holds (registered en m branch isPreview (content (uw_projects w)))"
proof -
  have y: "yields (up_run en opts absFile m branch isPreview) w w' x" using assms(2) by (simp add: yields_def)
  obtain w1 m2 where prep: "yields (up_prepare en opts m branch isPreview) w w1 m2" using y by (auto simp: up_run_def)
  obtain rg0 where "read_map (uw_projects w) = Ok rg0" "uw_projects w1 = Holds (registered en m branch isPreview rg0)"
    using prepared_projects [OF prep assms(1)] by blast
  then have w1: "uw_projects w1 = Holds (registered en m branch isPreview (content (uw_projects w)))" using read_map_content by blast
  have "uw_machine w' = uw_machine w1 \<and> uw_projects w' = uw_projects w1"
  proof (rule run_keeps_machine [OF y assms(1)])
    fix v m3 assume "yields (up_prepare en opts m branch isPreview) w v m3"
    then have "v = w1" using prep by (simp add: yields_def)
    then show "uw_machine v = uw_machine w1 \<and> uw_projects v = uw_projects w1" by simp
  qed
  then show ?thesis using w1 by simp
qed

text \<open>The records after a run that are of another manifest are records of before, and the live ones of before are kept.\<close>

lemma up_tunnels_kept:
  assumes relay: "ue_control en = None" and live: "starts_alive en" and wf: "wf_gomap (content (uw_tunnels w))"
    and run: "up_run en opts absFile m branch isPreview w = Some (w', Ok (m2, failed))"
  shows "\<exists>ts. uw_tunnels w' = Holds ts \<and>
    (\<forall>k info. (k, info) \<in> set ts \<and> ti_manifest info \<noteq> absFile \<longrightarrow> map_of (content (uw_tunnels w)) k = Some info) \<and>
    (\<forall>k info. map_of (content (uw_tunnels w)) k = Some info \<and> ue_alive en (ti_pid info) \<and> ti_manifest info \<noteq> absFile \<longrightarrow> (k, info) \<in> set ts)"
proof -
  obtain grp w2 where op: "yields (open_tunnels en absFile (map (worker_spec (rs_tld (mf_relay m2)) grp) (runs_of m2 @ proxies_of m2))) w2 w' ()"
    and wf2: "wf_gomap (content (uw_tunnels w2))" and file2: "uw_tunnels w2 = Holds (content (uw_tunnels w2))"
    and old: "\<forall>k. map_of (content (uw_tunnels w2)) k =
      (case map_of (content (uw_tunnels w)) k of Some i \<Rightarrow> if ti_manifest i = absFile \<and> ue_alive en (ti_pid i) then None else Some i | None \<Rightarrow> None)"
    using run_opened [OF relay wf run] by blast
  obtain ts where ts: "uw_tunnels w' = Holds ts" "wf_gomap ts" using open_tunnels_file [OF op file2 wf2 live] by blast
  have prior: "map_of (content (uw_tunnels w)) k = Some info" if "(k, info) \<in> set ts" "ti_manifest info \<noteq> absFile" for k info
  proof -
    have "map_of (content (uw_tunnels w')) k = Some info" using that(1) ts gomap_mem [OF ts(2), of k info] by simp
    then have "map_of (content (uw_tunnels w2)) k = Some info" using opened_from [OF op live] that(2) by blast
    then show ?thesis using old by (auto split: option.splits if_splits)
  qed
  have kept: "(k, info) \<in> set ts" if "map_of (content (uw_tunnels w)) k = Some info" "ue_alive en (ti_pid info)" "ti_manifest info \<noteq> absFile" for k info
  proof -
    have "map_of (content (uw_tunnels w2)) k = Some info" using old that by simp
    then have "map_of (content (uw_tunnels w')) k = Some info" using opened_keeps [OF op live] that(2) by blast
    then show ?thesis using ts by (simp add: map_of_SomeD)
  qed
  show ?thesis using ts prior kept by blast
qed

lemma up_services_kept:
  assumes relay: "ue_control en = None" and live: "starts_alive en" and wf: "wf_gomap (content (uw_tunnels w))"
    and run: "up_run en opts absFile m branch isPreview w = Some (w', Ok (m2, failed))"
  shows "\<exists>ss. uw_services w' = Holds ss \<and>
    (\<forall>k svc. (k, svc) \<in> set ss \<and> si_manifest svc \<noteq> absFile \<longrightarrow> (k, svc) \<in> set (content (uw_services w)) \<and> ue_alive en (si_pid svc))"
proof -
  let ?ss = "fst (start_services en (uo_detach opts) absFile (runs_of m2) (fst (restart_services (ue_alive en) absFile (content (uw_services w)))))"
  obtain grp w2 where op: "yields (open_tunnels en absFile (map (worker_spec (rs_tld (mf_relay m2)) grp) (runs_of m2 @ proxies_of m2))) w2 w' ()"
    and w2: "uw_services w2 = Holds ?ss"
    using run_opened [OF relay wf run] by blast
  have "uw_services w' = Holds ?ss" using open_tunnels_exact [OF op live] w2 by simp
  moreover have "(k, svc) \<in> set (content (uw_services w)) \<and> ue_alive en (si_pid svc)" if "(k, svc) \<in> set ?ss" "si_manifest svc \<noteq> absFile" for k svc
    using started_from [OF that(1)] that(2) by (auto simp: restart_services_def end_services_def prune_dead_services_def)
  ultimately show ?thesis by blast
qed


definition demo_down :: down_env where
  "demo_down = \<lparr>dn_manifest = (\<lambda>_. Some demo_manifest), dn_cwd = ''/p'', dn_control_plane = False, dn_written1 = True, dn_written2 = True, dn_written3 = True\<rparr>"


end
