(* ===== verification/UpTypes.thy ===== *)
theory UpTypes
  imports CliProps PortProps
begin

text \<open>
  The typing of manifests: a route is a service (a command with a port) or an address. Loading
  gives typed manifests, every step of \<open>roxey up\<close> keeps the typing, assigning ports makes it the
  typing of a manifest whose services can be dialled, and on such a manifest no template fails
  for want of a port.
\<close>

section \<open>The typing\<close>

text \<open>With \<open>ready\<close> every service has a port, without it the port may still be to be assigned (0).\<close>

inductive route_typing :: "bool \<Rightarrow> route \<Rightarrow> bool" where
  Service: "is_run r \<Longrightarrow> has_prefix (rt_path r) ''/'' \<Longrightarrow> rt_target r = [] \<Longrightarrow> 0 \<le> rt_port r \<Longrightarrow> rt_port r \<le> 65535 \<Longrightarrow>
    (ready \<longrightarrow> rt_port r \<noteq> 0) \<Longrightarrow> route_typing ready r"
| Address: "\<not> is_run r \<Longrightarrow> has_prefix (rt_path r) ''/'' \<Longrightarrow> rt_name r = [] \<Longrightarrow> rt_target r \<noteq> [] \<Longrightarrow> route_typing ready r"

inductive_simps route_typing_simp: "route_typing ready r"

definition manifest_typing :: "bool \<Rightarrow> manifest \<Rightarrow> bool" where
  "manifest_typing ready m \<longleftrightarrow>
     mf_envs m \<noteq> [] \<and>
     (\<forall>e\<in>set (mf_envs m). me_routes e \<noteq> [] \<and> distinct (map rt_path (me_routes e)) \<and> (\<forall>r\<in>set (me_routes e). route_typing ready r)) \<and>
     distinct (concat (map run_names (concat (map me_routes (mf_envs m)))))"

lemma route_ok_typed: "route_ok is_dir dir hosts r \<Longrightarrow> route_typing False (norm_route dir r)"
  by (auto simp: route_ok_def norm_route_def route_typing_simp is_run_def)

lemma norm_route_keeps [simp]: "rt_path (norm_route dir r) = rt_path r" "run_names (norm_route dir r) = run_names r"
  by (simp_all add: norm_route_def run_names_def is_run_def)

lemma validated_typed:
  assumes "validate_environments is_dir mf = Ok m"
  shows "manifest_typing False m"
proof -
  have ok: "envs_ok is_dir (mf_dir mf) (mf_envs mf)"
    and m: "m = mf\<lparr>mf_envs := map (\<lambda>e. e\<lparr>me_routes := map (norm_route (mf_dir mf)) (me_routes e)\<rparr>) (mf_envs mf)\<rparr>"
    using assms by (auto simp: validate_environments_def envs_ok_def res_bind_eq_Ok check_hosts_Ok check_envs_Ok simp del: set_concat split: if_splits)
  have names: "map run_names (concat (map (\<lambda>e. map (norm_route d) (me_routes e)) es)) = map run_names (concat (map me_routes es))" for d es
    by (induction es) simp_all
  show ?thesis using ok route_ok_typed
    by (simp add: m envs_ok_def manifest_typing_def comp_def names del: set_concat) (meson distinct_map list.set_map)
qed

section \<open>What a step may change\<close>

definition route_step :: "route \<Rightarrow> route \<Rightarrow> bool" where
  "route_step r r' \<longleftrightarrow> rt_path r' = rt_path r \<and> rt_name r' = rt_name r \<and> rt_command r' = rt_command r \<and>
     (if is_run r then rt_target r' = rt_target r \<and> (rt_port r' = rt_port r \<or> 0 < rt_port r' \<and> rt_port r' \<le> 65535)
      else rt_target r \<noteq> [] \<longrightarrow> rt_target r' \<noteq> [])"

definition has_port :: "route \<Rightarrow> bool" where
  "has_port r \<longleftrightarrow> (is_run r \<longrightarrow> 0 < rt_port r)"

definition env_step :: "environment \<Rightarrow> environment \<Rightarrow> bool" where
  "env_step e e' \<longleftrightarrow> list_all2 route_step (me_routes e) (me_routes e')"

definition manifest_step :: "manifest \<Rightarrow> manifest \<Rightarrow> bool" where
  "manifest_step m m' \<longleftrightarrow> list_all2 env_step (mf_envs m) (mf_envs m')"

lemma route_step_refl [simp]: "route_step r r"
  by (simp add: route_step_def)

lemma route_step_trans: "route_step r s \<Longrightarrow> route_step s t \<Longrightarrow> route_step r t"
  by (auto simp: route_step_def is_run_def split: if_splits)

lemma manifest_step_refl [simp]: "manifest_step m m"
  by (simp add: manifest_step_def env_step_def list_all2_same)

lemma env_step_trans: "env_step a b \<Longrightarrow> env_step b c \<Longrightarrow> env_step a c"
  unfolding env_step_def by (rule list_all2_trans [OF route_step_trans])

lemma manifest_step_trans: "manifest_step a b \<Longrightarrow> manifest_step b c \<Longrightarrow> manifest_step a c"
  unfolding manifest_step_def by (rule list_all2_trans [OF env_step_trans])

lemma route_step_typing: "route_step r r' \<Longrightarrow> route_typing ready r \<Longrightarrow> route_typing ready r'"
  by (auto simp: route_step_def route_typing_simp is_run_def split: if_splits)

lemma route_step_same:
  "list_all2 route_step rs rs' \<Longrightarrow> map rt_path rs' = map rt_path rs \<and> map run_names rs' = map run_names rs"
  by (induction rule: list_all2_induct) (auto simp: route_step_def run_names_def is_run_def)

lemma manifest_step_routes: "list_all2 env_step es es' \<Longrightarrow> list_all2 route_step (concat (map me_routes es)) (concat (map me_routes es'))"
  by (induction rule: list_all2_induct) (auto simp: env_step_def intro: list_all2_appendI)

lemma list_all2_mem: "list_all2 R xs ys \<Longrightarrow> y \<in> set ys \<Longrightarrow> \<exists>x\<in>set xs. R x y"
  by (induction rule: list_all2_induct) auto

text \<open>Preservation.\<close>

lemma typed_step:
  assumes "manifest_step m m'" "manifest_typing ready m"
  shows "manifest_typing ready m'"
proof -
  have l: "list_all2 env_step (mf_envs m) (mf_envs m')" using assms(1) by (simp add: manifest_step_def)
  have env: "me_routes e' \<noteq> [] \<and> distinct (map rt_path (me_routes e')) \<and> (\<forall>r\<in>set (me_routes e'). route_typing ready r)" if mem: "e' \<in> set (mf_envs m')" for e'
  proof -
    obtain e where e: "e \<in> set (mf_envs m)" "list_all2 route_step (me_routes e) (me_routes e')"
      using list_all2_mem [OF l mem] by (auto simp: env_step_def)
    have "\<forall>r'\<in>set (me_routes e'). \<exists>r\<in>set (me_routes e). route_step r r'"
      using list_all2_mem [OF e(2)] by blast
    then show ?thesis using e route_step_same [OF e(2)] assms(2) route_step_typing
      by (auto simp: manifest_typing_def dest!: list_all2_lengthD)
  qed
  have "map run_names (concat (map me_routes (mf_envs m'))) = map run_names (concat (map me_routes (mf_envs m)))"
    using route_step_same [OF manifest_step_routes [OF l]] by blast
  moreover have "mf_envs m' \<noteq> []" using l assms(2) by (auto simp: manifest_typing_def)
  ultimately show ?thesis using env assms(2) unfolding manifest_typing_def by metis
qed

lemma typed_ready:
  assumes "manifest_typing False m" "\<forall>r\<in>set (concat (map me_routes (mf_envs m))). has_port r"
  shows "manifest_typing True m"
proof -
  have "route_typing False r \<Longrightarrow> has_port r \<Longrightarrow> route_typing True r" for r by (auto simp: has_port_def route_typing_simp)
  then show ?thesis using assms unfolding manifest_typing_def by fastforce
qed

section \<open>Rewriting\<close>

lemma same_routes_step: "map me_routes (mf_envs m') = map me_routes (mf_envs m) \<Longrightarrow> manifest_step m m'"
proof -
  assume "map me_routes (mf_envs m') = map me_routes (mf_envs m)"
  then have "list_all2 (list_all2 route_step) (map me_routes (mf_envs m)) (map me_routes (mf_envs m'))" by (simp add: list_all2_same)
  then show ?thesis unfolding manifest_step_def list.rel_map by (rule list.rel_mono_strong) (simp add: env_step_def)
qed

lemma rewritten_step:
  assumes "rewrite_manifest en opts name m0 = (m, branch, isPreview)"
  shows "manifest_step m0 m"
  using assms
  by (intro same_routes_step)
    (auto simp: rewrite_manifest_def protect_all_def go_online_def apply_mode_def Let_def comp_def split: option.splits prod.splits if_splits)

lemma res_map_all2: "res_map g xs = Ok ys \<Longrightarrow> (\<And>x y. g x = Ok y \<Longrightarrow> R x y) \<Longrightarrow> list_all2 R xs ys"
  by (induction xs arbitrary: ys) (auto simp: res_bind_eq_Ok)

lemma map_routes_step:
  assumes "map_routes f m = Ok m'" "\<And>r r'. f r = Ok r' \<Longrightarrow> route_step r r'"
  shows "manifest_step m m'"
proof -
  have "env_step e e'" if "res_bind (res_map f (me_routes e)) (\<lambda>rs. Ok (e\<lparr>me_routes := rs\<rparr>)) = Ok e'" for e e'
    using that assms(2) by (auto simp: res_bind_eq_Ok env_step_def intro: res_map_all2)
  then show ?thesis using assms(1)
    by (auto simp: map_routes_def manifest_step_def res_bind_eq_Ok elim!: res_map_all2)
qed

lemma url_string_ne: "url_string u \<noteq> []"
  by (simp add: url_string_def)

lemma rewrite_target_ne: "rewrite_target_port target port \<noteq> []"
  by (auto simp: rewrite_target_port_def url_string_ne join_host_port_def split: option.splits)

lemma remap_step: "remap_target ps r = Ok r' \<Longrightarrow> route_step r r'"
  by (auto simp: remap_target_def route_step_def is_run_def rewrite_target_ne split: option.splits if_splits)

section \<open>Ports\<close>

lemma assign_route_step:
  assumes "assign_route p ps outs r = Some (Ok (ps', r'), outs')"
  shows "route_step r r' \<and> has_port r'"
proof (cases "needs_port p r")
  case True
  define port where "port = rt_port r'"
  have "r' = r\<lparr>rt_port := port\<rparr>" "0 < port" "port \<le> 65535"
    using assign_route_Ok [OF assms] True by (simp_all add: port_def)
  then show ?thesis by (simp add: route_step_def has_port_def)
next
  case False
  then have "r' = r" using assign_route_Ok [OF assms] by simp
  then show ?thesis using False by (auto simp: needs_port_def has_port_def)
qed

lemma assign_routes_step:
  "assign_routes p ps outs rs = Some (Ok (ps', rs'), outs') \<Longrightarrow> list_all2 route_step rs rs' \<and> (\<forall>r\<in>set rs'. has_port r)"
proof (induction rs arbitrary: ps outs ps' rs' outs')
  case (Cons r rs)
  then obtain ps1 r1 outs1 rs1 where a: "assign_route p ps outs r = Some (Ok (ps1, r1), outs1)"
    and b: "assign_routes p ps1 outs1 rs = Some (Ok (ps', rs1), outs')" and rs': "rs' = r1 # rs1"
    by (auto split: option.splits sum.splits prod.splits)
  show ?case using assign_route_step [OF a] Cons.IH [OF b] by (simp add: rs')
qed simp

lemma assign_envs_step:
  "assign_envs p ps outs es = Some (Ok (ps', es'), outs') \<Longrightarrow>
     list_all2 env_step es es' \<and> (\<forall>r\<in>set (concat (map me_routes es')). has_port r)"
proof (induction es arbitrary: ps outs ps' es' outs')
  case (Cons e es)
  then obtain ps1 rs1 outs1 es1 where a: "assign_routes p ps outs (me_routes e) = Some (Ok (ps1, rs1), outs1)"
    and b: "assign_envs p ps1 outs1 es = Some (Ok (ps', es1), outs')" and es': "es' = e\<lparr>me_routes := rs1\<rparr> # es1"
    by (auto split: option.splits sum.splits prod.splits)
  show ?case using assign_routes_step [OF a] Cons.IH [OF b] by (auto simp: es' env_step_def)
qed simp

lemma route_step_port: "route_step r r' \<Longrightarrow> has_port r \<Longrightarrow> has_port r'"
  by (auto simp: route_step_def has_port_def is_run_def split: if_splits)

lemma step_ports:
  assumes "manifest_step m m'" "\<forall>r\<in>set (concat (map me_routes (mf_envs m))). has_port r"
  shows "\<forall>r\<in>set (concat (map me_routes (mf_envs m'))). has_port r"
  using list_all2_mem [OF manifest_step_routes] assms route_step_port unfolding manifest_step_def by blast

lemma assigned_step:
  assumes "assign_ports p outs m = Some (Ok m')"
  shows "manifest_step m m' \<and> (\<forall>r\<in>set (concat (map me_routes (mf_envs m'))). has_port r)"
proof -
  obtain ps es outs' ps0 where a: "assign_envs p ps0 outs (mf_envs m) = Some (Ok (ps, es), outs')"
    and m': "(if p then map_routes (remap_target ps) (m\<lparr>mf_envs := es\<rparr>) else Ok (m\<lparr>mf_envs := es\<rparr>)) = Ok m'"
    using assms by (auto simp: assign_ports_def Let_def split: option.splits sum.splits prod.splits if_splits)
  have one: "manifest_step m (m\<lparr>mf_envs := es\<rparr>)" "\<forall>r\<in>set (concat (map me_routes (mf_envs (m\<lparr>mf_envs := es\<rparr>)))). has_port r"
    using assign_envs_step [OF a] by (simp_all add: manifest_step_def)
  have two: "manifest_step (m\<lparr>mf_envs := es\<rparr>) m'"
    using m' map_routes_step [OF _ remap_step] by (auto split: if_splits)
  show ?thesis using manifest_step_trans [OF one(1) two] step_ports [OF two one(2)] by simp
qed

lemma ports_ready: "manifest_typing False m \<Longrightarrow> assign_ports p outs m = Some (Ok m') \<Longrightarrow> manifest_typing True m'"
  using assigned_step [of p outs m m'] by (auto intro: typed_ready typed_step simp del: set_concat)

section \<open>Hosts and templates\<close>

lemma relabel_routes: "relabel looked es = Ok es' \<Longrightarrow> map me_routes es' = map me_routes es"
  by (induction es arbitrary: es') (auto simp: res_bind_eq_Ok split: option.splits if_splits)

lemma subst_ne:
  "subst_templates kw f s = Ok t \<Longrightarrow> (\<And>n v. f n = Ok v \<Longrightarrow> v \<noteq> []) \<Longrightarrow> s \<noteq> [] \<Longrightarrow> t \<noteq> []"
  by (subst (asm) subst_templates.simps) (fastforce simp: res_bind_eq_Ok split: option.splits list.splits)

lemma itoa_ne: "itoa i \<noteq> []"
  by (simp add: itoa_def)

lemma resolved_step:
  assumes "resolve_templates online m = Ok m'"
  shows "manifest_step m m'"
proof -
  obtain m1 where m1: "map_routes (resolve_route_env m online) m = Ok m1"
    and m': "map_routes (\<lambda>r. if is_run r then Ok r else res_bind (resolve_port_templates m1 (rt_target r)) (\<lambda>t. Ok (r\<lparr>rt_target := t\<rparr>))) m1 = Ok m'"
    using assms by (auto simp: resolve_templates_def resolve_env_templates_def resolve_route_targets_def res_bind_eq_Ok)
  have "manifest_step m m1" using m1 by (rule map_routes_step) (auto simp: resolve_route_env_def res_bind_eq_Ok route_step_def)
  moreover have "manifest_step m1 m'"
  proof (rule map_routes_step [OF m'])
    fix r r' assume a: "(if is_run r then Ok r else res_bind (resolve_port_templates m1 (rt_target r)) (\<lambda>t. Ok (r\<lparr>rt_target := t\<rparr>))) = Ok r'"
    have "t \<noteq> []" if "resolve_port_templates m1 s = Ok t" "s \<noteq> []" for s t
    proof -
      have "map_sum id itoa (index_port m1 n) = Ok v \<Longrightarrow> v \<noteq> []" for n v by (cases "index_port m1 n") (auto simp: itoa_ne)
      then show ?thesis using that subst_ne [of "''port:''" "\<lambda>name. map_sum id itoa (index_port m1 name)" s t]
        by (auto simp: resolve_port_templates_def split: if_splits)
    qed
    then show "route_step r r'" using a by (auto simp: res_bind_eq_Ok route_step_def is_run_def split: if_splits)
  qed
  ultimately show ?thesis by (rule manifest_step_trans)
qed

lemma controlled_step:
  assumes "yields (up_control en m) w w' m'"
  shows "manifest_step m m'"
proof -
  obtain looked es where "relabel looked (mf_envs m) = Ok es" "mf_envs m' = es"
    using assms by (auto simp: up_control_def Let_def split: option.splits)
  then show ?thesis by (intro same_routes_step) (simp add: relabel_routes)
qed

lemma prepared_ready:
  assumes "yields (up_prepare en opts m branch isPreview) w w' m'" "manifest_typing False m"
  shows "manifest_typing True m'"
proof (cases "ue_control en = None")
  case True
  then obtain m1 m2 where "assign_ports isPreview (ue_ports en) m = Some (Ok m1)" "m2 = m1 \<or> (\<exists>as. m2 = m1\<lparr>mf_assigned := as\<rparr>)"
    "resolve_templates (uo_online opts) m2 = Ok m'"
    using assms(1) by (auto simp: up_prepare_def yields_ports yields_hosted yields_templates split: if_splits)
  moreover have "manifest_step m1 m2" using calculation(2) by (intro same_routes_step) auto
  ultimately show ?thesis using ports_ready assms(2) typed_step resolved_step by blast
next
  case False
  then obtain m1 m2 where a: "assign_ports False (ue_ports en) m = Some (Ok m1)"
    and c: "yields (up_control en m1) w w' m2" and r: "resolve_templates True m2 = Ok m'"
    using assms(1) by (auto simp: up_prepare_def yields_ports yields_templates)
  then show ?thesis using ports_ready [OF assms(2) a] typed_step resolved_step [OF r] controlled_step [OF c] by blast
qed

section \<open>No template fails for want of a port\<close>

lemma subst_Err: "subst_templates kw f s = Err e \<Longrightarrow> \<exists>n. f n = Err e"
proof (induction kw f s rule: subst_templates.induct)
  case (1 kw f s)
  show ?case using 1 by (subst (asm) (3) subst_templates.simps) (auto simp: res_bind_def split: option.splits list.splits sum.splits)
qed

lemma res_map_Err: "res_map f xs = Err e \<Longrightarrow> \<exists>x\<in>set xs. f x = Err e"
  by (induction xs) (auto simp: res_bind_def split: sum.splits)

lemma map_routes_Err: "map_routes f m = Err e \<Longrightarrow> \<exists>r. f r = Err e"
  by (auto simp: map_routes_def res_bind_def split: sum.splits dest!: res_map_Err)

lemma named_ports_from:
  "map_of (fold (\<lambda>r m. if is_run r \<and> rt_name r \<noteq> [] then gput (rt_name r) (rt_port r) m else m) rs m0) n = Some p \<Longrightarrow>
     map_of m0 n = Some p \<or> (\<exists>r\<in>set rs. is_run r \<and> rt_port r = p)"
  by (induction rs arbitrary: m0) (fastforce split: if_splits)+

definition ports_assigned :: "manifest \<Rightarrow> bool" where
  "ports_assigned m \<longleftrightarrow> (\<forall>r\<in>set (concat (map me_routes (mf_envs m))). has_port r)"

lemma index_port_assigned:
  assumes "ports_assigned m"
  shows "index_port m name \<noteq> Err (NoPort n)"
proof -
  have named: "0 < p" if "map_of (named_ports m) name = Some p" for p
    using named_ports_from [of "concat (map me_routes (mf_envs m))" "[]" name p] that assms
    by (auto simp: named_ports_def ports_assigned_def has_port_def simp del: set_concat)
  have root: "0 < last (root_ports m h)" if "root_ports m h \<noteq> []" for h
    using last_in_set [OF that] assms by (auto simp: root_ports_def ports_assigned_def has_port_def)
  show ?thesis
    using named root by (auto simp: index_port_def assigned_port_def Let_def not_le [symmetric] split: option.splits)
qed

lemma resolve_port_assigned: "ports_assigned m \<Longrightarrow> resolve_port_templates m s \<noteq> Err (NoPort n)"
proof
  assume a: "ports_assigned m" "resolve_port_templates m s = Err (NoPort n)"
  then obtain name where "map_sum id itoa (index_port m name) = Err (NoPort n)"
    by (auto simp: resolve_port_templates_def dest!: subst_Err split: if_splits)
  then show False using index_port_assigned [OF a(1)] by (cases "index_port m name") auto
qed

lemma resolve_value_assigned: "ports_assigned m \<Longrightarrow> resolve_env_value m online v \<noteq> Err (NoPort n)"
  using resolve_port_assigned [of m]
  by (auto simp: resolve_env_value_def res_bind_def split: sum.splits dest!: subst_Err)

lemma templates_assigned:
  assumes "ports_assigned m"
  shows "resolve_templates online m \<noteq> Err (NoPort n)"
proof
  assume e: "resolve_templates online m = Err (NoPort n)"
  have first: "map_routes (resolve_route_env m online) m \<noteq> Err (NoPort n)"
    using resolve_value_assigned [OF assms]
    by (auto simp: resolve_route_env_def res_bind_def split: sum.splits dest!: map_routes_Err res_map_Err)
  then obtain m1 where m1: "map_routes (resolve_route_env m online) m = Ok m1" and e2: "resolve_route_targets m1 = Err (NoPort n)"
    using e by (auto simp: resolve_templates_def resolve_env_templates_def res_bind_def split: sum.splits)
  have "manifest_step m m1" using m1 by (rule map_routes_step) (auto simp: resolve_route_env_def res_bind_eq_Ok route_step_def)
  then have "ports_assigned m1" using step_ports assms unfolding ports_assigned_def by blast
  then show False using e2 resolve_port_assigned [of m1]
    by (auto simp: resolve_route_targets_def res_bind_def split: sum.splits if_splits dest!: map_routes_Err)
qed

section \<open>The errors of a step\<close>

definition raises :: "'a up \<Rightarrow> (up_error \<Rightarrow> bool) \<Rightarrow> bool" where
  "raises m E \<longleftrightarrow> (\<forall>w w' e. m w = Some (w', Err e) \<longrightarrow> E e)"

lemma raises_bind: "raises m E \<Longrightarrow> (\<And>x w w'. yields m w w' x \<Longrightarrow> raises (f x) E) \<Longrightarrow> raises (up_bind m f) E"
  by (fastforce simp: raises_def yields_def up_bind_def split: option.splits prod.splits sum.splits)

lemma raises_then: "raises m E \<Longrightarrow> (\<And>x. raises (f x) E) \<Longrightarrow> raises (up_bind m f) E"
  by (rule raises_bind)

lemma raises_pure [simp]:
  "raises (up_return x) E" "raises (up_fail e) E = E e" "raises (up_set h) E" "raises (up_acts as) E" "raises (up_wait t polls) E"
  "raises (up_lift r) E = (\<forall>e. r = Err e \<longrightarrow> E e)" "raises (up_cli c) E = (\<forall>e. c = Err e \<longrightarrow> E (UpCli e))"
  by (auto simp: raises_def up_return_def up_fail_def up_set_def up_acts_def up_wait_def up_lift_def up_cli_def split: option.splits sum.splits)

lemma raises_get: "(\<And>x. raises (f x) E) \<Longrightarrow> raises (up_get g f) E"
  by (auto simp: raises_def up_get_def)

lemma raises_if: "(b \<Longrightarrow> raises m E) \<Longrightarrow> (\<not> b \<Longrightarrow> raises m2 E) \<Longrightarrow> raises (if b then m else m2) E"
  by simp

lemmas raises_rules = raises_then raises_get raises_if

definition not_templates :: "up_error \<Rightarrow> bool" where
  "not_templates e = (case e of TemplateFailed _ \<Rightarrow> False | _ \<Rightarrow> True)"

lemma raises_step: "not_templates e \<Longrightarrow> raises (up_step act ok e) not_templates"
  unfolding up_step_def by (intro raises_rules) simp_all

lemma raises_when: "raises m E \<Longrightarrow> raises (up_when b m) E"
  unfolding up_when_def by (intro raises_if) simp_all

lemma raises_helper: "not_templates e \<Longrightarrow> raises (helper_call le req act e) not_templates"
  using raises_step [of e act] by (simp add: raises_def helper_call_def case_prod_unfold Let_def)

lemma raises_via_helper: "raises (apply_via_helper le tld hosts) not_templates"
  unfolding apply_via_helper_def by (intro raises_rules raises_when raises_helper) (simp_all add: not_templates_def)

lemma raises_sudo_relay: "raises (sudo_relay le dir tld) not_templates"
  unfolding raises_def sudo_relay_def
  by (auto simp: up_bind_def up_acts_def up_fail_def up_return_def not_templates_def split: option.splits sum.splits)

lemma raises_via_sudo: "raises (apply_via_sudo le dir tld hosts) not_templates"
  unfolding apply_via_sudo_def sudo_hosts_def
  by (intro raises_then raises_when raises_step raises_sudo_relay raises_get)
    (auto intro!: raises_rules raises_step simp: not_templates_def split: option.splits)

lemma raises_install: "raises (install_daemon le dir) not_templates"
  unfolding install_daemon_def by (auto intro!: raises_rules split: sum.splits)

lemma raises_privileged: "raises (apply_local_privileged le dir tld hosts) not_templates"
  unfolding apply_local_privileged_def
  by (intro raises_rules raises_install raises_via_helper raises_via_sudo) simp

lemma raises_set_server: "raises (up_set_server written tld sc) not_templates"
  unfolding up_set_server_def Let_def case_prod_unfold
  by (intro raises_rules) (auto simp: not_templates_def split: sum.splits)

lemma raises_local_relay: "raises (ensure_local_relay en m rg) not_templates"
  unfolding ensure_local_relay_def Let_def
  by (auto intro!: raises_rules raises_privileged raises_set_server simp: not_templates_def split: sum.splits)

lemma raises_key: "raises (up_key en m rg) not_templates"
  unfolding up_key_def Let_def
  by (auto intro!: raises_rules raises_local_relay raises_set_server simp: not_templates_def)

lemma raises_register: "raises (up_register en m branch isPreview) not_templates"
  unfolding up_register_def Let_def case_prod_unfold
  by (intro raises_rules) (auto intro!: raises_rules simp: not_templates_def split: sum.splits)

lemma raises_ports: "raises (up_ports en isPreview m) not_templates"
  by (auto simp: raises_def up_ports_def up_return_def up_fail_def not_templates_def split: option.splits sum.splits)

lemma raises_hosted: "raises (up_hosted en key m) not_templates"
proof -
  have "assign_hosts looked ps m0 = Err e \<Longrightarrow> not_templates e" for looked ps m0 e
    by (induction looked ps m0 rule: assign_hosts.induct) (auto simp: not_templates_def split: option.splits if_splits)
  then show ?thesis unfolding up_hosted_def by (auto intro!: raises_rules simp: not_templates_def split: option.splits)
qed

lemma raises_control: "raises (up_control en m) not_templates"
proof -
  have "relabel looked es = Err e \<Longrightarrow> not_templates e" for looked es e
    by (induction looked es rule: relabel.induct) (auto simp: not_templates_def res_bind_def split: option.splits if_splits sum.splits)
  then show ?thesis unfolding up_control_def Let_def by (auto intro!: raises_rules simp: not_templates_def split: option.splits)
qed

lemma raises_services: "raises (up_services en detach absFile m) not_templates"
  unfolding up_services_def save_tunnels_def save_services_def Let_def case_prod_unfold
  by (intro raises_rules) (simp_all add: not_templates_def)

lemma raises_open: "raises (open_tunnels en absFile rs) not_templates"
  unfolding raises_def
proof (intro allI impI)
  show "open_tunnels en absFile rs w = Some (w', Err e) \<Longrightarrow> not_templates e" for w w' e
  proof (induction rs arbitrary: w)
    case (Cons r rs)
    obtain tf acts res where one: "start_one (ue_alive en) (ue_start en (tunnel_key (ru_service r) (ru_path r))) r absFile (uw_tunnels w) = (tf, acts, res)"
      by (metis prod_cases3)
    show ?case using Cons by (cases res) (auto simp: one Let_def not_templates_def)
  qed simp
qed

lemma raises_tunnels: "raises (up_tunnels en absFile m) not_templates"
  unfolding up_tunnels_def
  by (intro raises_rules raises_step raises_open) (auto simp: gate_group_of_def not_templates_def split: option.splits if_splits)

definition not_portless :: "up_error \<Rightarrow> bool" where
  "not_portless e \<longleftrightarrow> (\<forall>n. e \<noteq> TemplateFailed (NoPort n))"

lemma not_templates_template: "\<not> not_templates (TemplateFailed e)"
  by (simp add: not_templates_def)

lemma raises_weaken: "raises m not_templates \<Longrightarrow> raises m not_portless"
  unfolding raises_def not_portless_def using not_templates_template by blast

lemma raises_templates: "ports_assigned m \<Longrightarrow> raises (up_templates online m) not_portless"
  using templates_assigned [of m online]
  by (auto simp: up_templates_def raises_def up_lift_def not_portless_def split: sum.splits)

section \<open>Type soundness\<close>

lemma step_assigned: "manifest_step m m' \<Longrightarrow> ports_assigned m \<Longrightarrow> ports_assigned m'"
  using step_ports unfolding ports_assigned_def by blast

lemma raises_prepare: "raises (up_prepare en opts m branch isPreview) not_portless"
proof -
  have assigned: "ports_assigned m1" if "yields (up_ports en p m) w w' m1" for p m1 w w'
    using assigned_step that by (auto simp: yields_ports ports_assigned_def)
  have hosted: "manifest_step m1 m2" if "yields (up_hosted en key m1) w w' m2" for key m1 m2 w w'
    using that by (intro same_routes_step) (auto simp: yields_hosted split: if_splits)
  have then_templates: "raises (up_bind (up_hosted en key m1) (up_templates b)) not_portless" if "ports_assigned m1" for key m1 b
    by (rule raises_bind [OF raises_weaken [OF raises_hosted]], rule raises_templates, rule step_assigned [OF hosted that])
  have then_control: "raises (up_bind (up_control en m1) (up_templates b)) not_portless" if "ports_assigned m1" for m1 b
    by (rule raises_bind [OF raises_weaken [OF raises_control]], rule raises_templates, rule step_assigned [OF controlled_step that])
  show ?thesis
    unfolding up_prepare_def
    by (rule raises_if, rule raises_bind [OF raises_weaken [OF raises_ports] then_control [OF assigned]], assumption,
        rule raises_bind [OF raises_weaken [OF raises_register]], rule raises_bind [OF raises_weaken [OF raises_key]],
        rule raises_bind [OF raises_weaken [OF raises_ports] then_templates [OF assigned]], assumption)
qed

text \<open>The manifests a reader returns have been loaded.\<close>

definition reads_loaded :: "up_env \<Rightarrow> bool" where
  "reads_loaded en \<longleftrightarrow> (\<forall>path m. ue_manifest en path = Some m \<longrightarrow> (\<exists>is_dir optional dir decoded. load_with is_dir optional dir decoded = Ok m))"

lemma loaded_typed:
  assumes "load_with is_dir optional dir decoded = Ok m"
  shows "manifest_typing False m"
proof -
  obtain mf m1 where v: "validate_environments is_dir mf = Ok m1" and m: "m = init_host_map m1"
    using assms
    by (auto simp: load_with_def validate_manifest_def Let_def map_sum_def split: if_splits sum.splits)
  show ?thesis using typed_step [OF same_routes_step validated_typed [OF v]] by (simp add: m init_host_map_def)
qed

text \<open>
  C9: whatever the options, the environment and the state it starts from, \<open>roxey up\<close> on a loaded
  manifest is type-sound. Preservation: if it succeeds, the manifest it has run is well-formed,
  and every service in it has a port from 1 to 65535 and every other route an address to dial,
  after the host rewriting of previews, online mode and control planes, the assignment of ports
  and the templates. Progress: it never fails because a template names a service without a port.
\<close>

theorem up_type_sound:
  assumes "reads_loaded en" "cmd_up en args w = Some (w', r)"
  shows "(\<forall>m failed. r = Ok (m, failed) \<longrightarrow> manifest_typing True m) \<and> (\<forall>n. r \<noteq> Err (TemplateFailed (NoPort n)))"
proof -
  have run: "(\<forall>m2 failed. r = Ok (m2, failed) \<longrightarrow> manifest_typing True m2) \<and> (\<forall>n. r \<noteq> Err (TemplateFailed (NoPort n)))"
    if up: "up_run en opts absFile m branch isPreview w = Some (w', r)" and typed: "manifest_typing False m" for opts absFile m branch isPreview
  proof (intro conjI allI impI)
    fix m2 failed assume "r = Ok (m2, failed)"
    then obtain w1 where "yields (up_prepare en opts m branch isPreview) w w1 m2" using up by (auto simp: up_run_def yields_def [symmetric])
    then show "manifest_typing True m2" using prepared_ready typed by blast
  next
    have "raises (up_run en opts absFile m branch isPreview) not_portless"
      unfolding up_run_def by (intro raises_then raises_prepare raises_weaken [OF raises_services] raises_weaken [OF raises_tunnels]) simp
    then show "r \<noteq> Err (TemplateFailed (NoPort n))" for n using up by (auto simp: raises_def not_portless_def)
  qed
  consider opts absFile m0 m branch isPreview where "ue_manifest en absFile = Some m0"
      "rewrite_manifest en opts (path_base (path_dir absFile)) m0 = (m, branch, isPreview)" "up_run en opts absFile m branch isPreview w = Some (w', r)"
    | "\<exists>e. r = Err e \<and> not_portless e"
    using assms(2) by (auto simp: cmd_up_def up_fail_def not_portless_def Let_def split: sum.splits option.splits prod.splits)
  then show ?thesis
  proof cases
    case 1
    obtain is_dir optional dir decoded where "load_with is_dir optional dir decoded = Ok m0" using assms(1) 1(1) unfolding reads_loaded_def by blast
    then have "manifest_typing False m" using typed_step [OF rewritten_step [OF 1(2)]] loaded_typed by blast
    then show ?thesis using run [OF 1(3)] by blast
  next
    case 2
    then show ?thesis by (auto simp: not_portless_def)
  qed
qed

lemma demo_up_command:
  "load_with (\<lambda>_. True) False ''/p'' (demo_manifest\<lparr>mf_host_map := []\<rparr>) = Ok demo_manifest"
  "parse_up_options [''/p/roxey.yaml''] = Ok (no_up_options\<lparr>uo_file := ''/p/roxey.yaml''\<rparr>)"
  "path_abs ''/p'' ''/p/roxey.yaml'' = ''/p/roxey.yaml''"
  by code_simp+

theorem up_type_sound_witness:
  "\<exists>w m failed. cmd_up demo_up [''/p/roxey.yaml''] fresh_world = Some (w, Ok (m, failed)) \<and> manifest_typing True m"
proof -
  let ?m = "demo_manifest\<lparr>mf_assigned := [(''app'', ''app-x1'')]\<rparr>"
  obtain w where "yields (up_run demo_up no_up_options ''/p/roxey.yaml'' demo_manifest [] False) fresh_world w (?m, [])" using demo_up_run by blast
  then have run: "up_run demo_up no_up_options ''/p/roxey.yaml'' demo_manifest [] False fresh_world = Some (w, Ok (?m, []))" by (simp add: yields_def)
  have "up_run demo_up (no_up_options\<lparr>uo_file := ''/p/roxey.yaml''\<rparr>) = up_run demo_up no_up_options"
    by (intro ext) (simp add: up_run_def up_prepare_def)
  moreover have "ue_manifest demo_up f = Some demo_manifest" "ue_cwd demo_up = ''/p''" "ue_control demo_up = None" "ue_detect demo_up d = ([], False)" for f d
    by (simp_all add: demo_up_def)
  moreover have "rewrite_manifest demo_up (no_up_options\<lparr>uo_file := f\<rparr>) n demo_manifest = (demo_manifest, [], False)" for f n
    using calculation(4,5) by (simp add: rewrite_manifest_def preview_identity_def no_up_options_def protect_all_def)
  moreover have named: "up_file (no_up_options\<lparr>uo_file := ''/p/roxey.yaml''\<rparr>) ''/p'' st = Ok ''/p/roxey.yaml''" for st
    using demo_up_command(3) by (simp add: up_file_def resolve_file_def no_up_options_def)
  ultimately have cmd: "cmd_up demo_up [''/p/roxey.yaml''] fresh_world = Some (w, Ok (?m, []))"
    using run demo_up_command(2,3) by (simp add: cmd_up_def named)
  have "reads_loaded demo_up" using demo_up_command(1) unfolding reads_loaded_def by (auto simp: demo_up_def)
  then show ?thesis using up_type_sound [OF _ cmd] cmd by blast
qed

end
