(* ===== verification/UpSession.thy ===== *)
theory UpSession
  imports CliProps
begin

text \<open>
  The rest of \<open>cmdUp\<close>: the summary it prints, and then either the return of a detached run or
  \<open>waitForeground\<close>, which tears the manifest down.
\<close>

section \<open>The summary\<close>

definition pad_right :: "nat \<Rightarrow> string \<Rightarrow> string" where
  "pad_right n s = s @ replicate (n - length s) CHR '' ''"

definition display_hosts :: "up_env \<Rightarrow> manifest \<Rightarrow> (string, string) gomap" where
  "display_hosts en m =
     (if ue_control en \<noteq> None \<or> rs_local (mf_relay m) then []
      else case ue_lookup en (map me_host (mf_envs m)) of None \<Rightarrow> [] | Some looked \<Rightarrow> looked)"

definition route_summary :: "route \<Rightarrow> string" where
  "route_summary r = rt_path r @ '' -> '' @ (if is_run r then rt_command r else rt_target r)"

definition env_summary :: "(string, string) gomap \<Rightarrow> string \<Rightarrow> environment \<Rightarrow> string" where
  "env_summary shown tld e =
     (let label = (case map_of shown (me_host e) of None \<Rightarrow> me_host e | Some h \<Rightarrow> h);
          parts = map route_summary (me_routes e) @ (if me_protect e \<noteq> [] then [''(protected)''] else [])
      in pad_right 32 (''https://'' @ label @ ''.'' @ tld) @ ''  '' @ str_join '', '' parts)"

definition up_summary :: "up_env \<Rightarrow> manifest \<Rightarrow> string list \<Rightarrow> string list" where
  "up_summary en m failed =
     [] # map (env_summary (display_hosts en m) (rs_tld (mf_relay m))) (mf_envs m) @ [[]] @
     (if failed = [] then [] else
        [''warning: '' @ itoa (int (length failed)) @ '' service(s) did not start: '' @ str_join '', '' failed])"

section \<open>The session\<close>

text \<open>What ends a foreground session (a signal, or the exit of a service), and whether the last writes succeed.\<close>

record session_env =
  ss_exited :: "string option"
  ss_tunnels_written :: bool
  ss_services_written :: bool

definition finish_up :: "session_env \<Rightarrow> bool \<Rightarrow> string \<Rightarrow> string list \<Rightarrow> string list up" where
  "finish_up se detach absFile summary w =
     (if detach then if ss_services_written se then up_return summary w else up_fail (UpCli StateUnwritable) w
      else let ((tf, sf), acts, r) =
             wait_foreground (ss_exited se) (ss_tunnels_written se) (ss_services_written se) absFile (uw_tunnels w, uw_services w)
        in up_cli (case r of Inl e \<Rightarrow> Err e | Inr _ \<Rightarrow> Ok summary) (w\<lparr>uw_tunnels := tf, uw_services := sf, uw_acts := uw_acts w @ acts\<rparr>))"

definition up_session :: "up_env \<Rightarrow> session_env \<Rightarrow> string list \<Rightarrow> string list up" where
  "up_session en se args =
     up_get uw_projects (\<lambda>pf. up_bind (cmd_up en args) (\<lambda>(m, failed).
       case parse_up_options args of
         Inl e \<Rightarrow> up_fail (UpCli (BadUsage e))
       | Inr opts \<Rightarrow>
           (case up_file opts (ue_cwd en) pf of
              Inl e \<Rightarrow> up_fail (UpCli e)
            | Inr absFile \<Rightarrow> finish_up se (uo_detach opts) absFile (up_summary en m failed))))"

text \<open>A foreground session that ends on a signal leaves no record and no worker of its manifest.\<close>

lemma foreground_session_clean:
  assumes saves: "writes_starts en" and clean: "no_workers w"
    and opts: "parse_up_options args = Ok opts" "\<not> uo_detach opts" "up_file opts (ue_cwd en) (uw_projects w) = Ok absFile"
    and run: "up_session en \<lparr>ss_exited = None, ss_tunnels_written = True, ss_services_written = True\<rparr> args w = Some (w', Ok lines)"
  shows "(\<forall>pid argv. StartWorker pid argv \<in> set (uw_acts w') \<longrightarrow> \<not> ue_alive en pid \<or> TermProcess pid \<in> set (uw_acts w')) \<and>
    (\<forall>k info. (k, info) \<in> set (content (uw_tunnels w')) \<longrightarrow> ti_manifest info \<noteq> absFile) \<and>
    (\<forall>k svc. (k, svc) \<in> set (content (uw_services w')) \<longrightarrow> si_manifest svc \<noteq> absFile)"
proof -
  obtain w1 m failed where up: "yields (cmd_up en args) w w1 (m, failed)"
    and fin: "yields (finish_up \<lparr>ss_exited = None, ss_tunnels_written = True, ss_services_written = True\<rparr> False absFile (up_summary en m failed)) w1 w' lines"
    using run opts by (auto simp: up_session_def yields_def [symmetric])
  obtain tf sf acts where down: "teardown_manifest True True absFile (uw_tunnels w1, uw_services w1) = ((tf, sf), acts, Ok ())"
    and w': "w' = w1\<lparr>uw_tunnels := tf, uw_services := sf, uw_acts := uw_acts w1 @ acts\<rparr>"
    using fin by (auto simp: finish_up_def wait_foreground_def Let_def yields_def up_cli_def up_lift_def split: prod.splits sum.splits)
  obtain m0 m1 branch isPreview where ran: "up_run en opts absFile m1 branch isPreview w = Some (w1, Ok (m, failed))"
    using up opts by (auto simp: yields_def cmd_up_def up_fail_def Let_def split: option.splits prod.splits)
  have rec: "workers_recorded en absFile w1" using ends_inD [OF up_run_recorded [OF saves] clean ran] .
  note d = teardown_Ok [OF down]
  have acts_started: "StartWorker pid argv \<notin> set acts" for pid argv
    by (auto simp: d(2) end_tunnels_def end_services_def)
  have "TermProcess pid \<in> set acts" if s: "StartWorker pid argv \<in> set (uw_acts w1)" "ue_alive en pid" for pid argv
    using recorded_signalled [OF rec s, of "\<lambda>_ i. ti_manifest i = absFile"] by (simp add: d(2))
  then show ?thesis using d(1) acts_started by (auto simp: w' end_tunnels_def end_services_def)
qed

end
