(* ===== verification/Hosted.thy ===== *)
theory Hosted
  imports CliUp TunnelProps
begin

text \<open>
  The clients of a hosted deployment: the lookup of public host names
  (\<open>cli/internal/relayapi/lookup.go\<close>), the worker that holds one route (\<open>cli/internal/worker\<close>), and
  the control plane (\<open>cli/internal/controlplane\<close>). A client sends through a function of the
  server's state, which gives \<open>None\<close> when there is no answer (or the URL cannot be requested).
\<close>

section \<open>Asking the relay\<close>

text \<open>The overrides both the lookup and the worker honour: the admin host and the address dialled.\<close>

definition os_getenv :: "string list \<Rightarrow> string \<Rightarrow> string" where
  "os_getenv es k = (case getenv es k of None \<Rightarrow> [] | Some v \<Rightarrow> v)"

definition admin_host :: "string list \<Rightarrow> string \<Rightarrow> string" where
  "admin_host es tld = (let h = os_getenv es ''ROXEY_RELAY_HOST'' in if h \<noteq> [] then h else ''roxey.'' @ tld)"

definition insecure :: "string list \<Rightarrow> bool" where
  "insecure es = (os_getenv es ''ROXEY_INSECURE'' = ''1'')"

definition dial_address :: "string list \<Rightarrow> string option" where
  "dial_address es = (let a = os_getenv es ''ROXEY_RELAY_ADDR'' in if a \<noteq> [] then Some a else None)"

datatype lookup_error = LookupUnreached | LookupStatus nat | LookupUndecoded

type_synonym 'w sender = "'w \<Rightarrow> string option \<Rightarrow> ws_url \<Rightarrow> string \<Rightarrow> 'w \<times> reply option"

definition lookup_url :: "string list \<Rightarrow> string \<Rightarrow> string list \<Rightarrow> ws_url" where
  "lookup_url es tld services =
     \<lparr>u_scheme = (if insecure es then ''http'' else ''https''), u_host = admin_host es tld, u_path = ''/api/lookup'',
      u_raw_query = ''services='' @ query_escape (str_join '','' services)\<rparr>"

definition relay_lookup ::
  "'w sender \<Rightarrow> string list \<Rightarrow> string \<Rightarrow> string \<Rightarrow> string list \<Rightarrow> 'w \<Rightarrow> 'w \<times> (lookup_error, (string, string) gomap) res"
where
  "relay_lookup send es tld apiKey services w =
     (if services = [] \<or> apiKey = [] then (w, Ok [])
      else case send w (dial_address es) (lookup_url es tld services) (''Bearer '' @ apiKey) of
        (w', None) \<Rightarrow> (w', Err LookupUnreached)
      | (w', Some rep) \<Rightarrow>
          if rp_status rep \<noteq> 200 then (w', Err (LookupStatus (rp_status rep)))
          else (w', case rp_body rep of LookupJson hosts \<Rightarrow> Ok hosts | _ \<Rightarrow> Err LookupUndecoded))"

text \<open>A relay as the one who answers: the request its handler is given.\<close>

definition url_request :: "ws_url \<Rightarrow> string \<Rightarrow> api_request" where
  "url_request u auth =
     \<lparr>rq_method = ''GET'', rq_host = u_host u, rq_path = u_path u, rq_raw_query = u_raw_query u, rq_cookies = [],
      rq_authorization = auth, rq_cf_ip = [], rq_forwarded_for = [], rq_remote = ''127.0.0.1:1'', rq_form_password = None,
      ar_accept = [], ar_credentials = None, ar_label = []\<rparr>"

definition relay_sender :: "(string \<Rightarrow> string \<Rightarrow> bool) \<Rightarrow> booted \<Rightarrow> registry \<Rightarrow> (nat \<Rightarrow> api_env) \<Rightarrow> (relay_state \<times> nat) sender" where
  "relay_sender check_pw bt reg en w addr u auth = booted_send check_pw bt reg en w (url_request u auth)"

section \<open>The worker\<close>

datatype worker_error = NoKeySaved string | WorkerDial dial_error

definition worker_setup ::
  "servers state_file \<Rightarrow> string list \<Rightarrow> run_spec \<Rightarrow> (worker_error, string option \<times> ws_url \<times> options) res"
where
  "worker_setup fl es r =
     (case server_for fl (ru_tld r) of
        None \<Rightarrow> Err (NoKeySaved (ru_tld r))
      | Some sc \<Rightarrow>
          if sc_api_key sc = [] then Err (NoKeySaved (ru_tld r))
          else Ok (dial_address es,
            websocket_url (if insecure es then ''ws'' else ''wss'') (admin_host es (ru_tld r)) (ru_service r) (ru_path r) (ru_protect r) (ru_group r),
            \<lparr>o_api_key = sc_api_key sc, o_service = ru_service r, o_path = ru_path r, o_protect = ru_protect r,
             o_gate_group = ru_group r, o_target = ru_target r\<rparr>))"

text \<open>
  \<open>Run\<close>: the first connection, then the events of \<open>Hold\<close> until it has finished. \<open>None\<close>: it is still
  holding the route after the events listed.
\<close>

definition worker_run ::
  "servers state_file \<Rightarrow> string list \<Rightarrow> run_spec \<Rightarrow> bool \<times> string option \<times> bool \<Rightarrow> hold_event list \<Rightarrow> (worker_error, unit) res option"
where
  "worker_run fl es r answers events =
     (case worker_setup fl es r of
        Inl e \<Rightarrow> Some (Err e)
      | Inr (addr, u, opt) \<Rightarrow>
          (let (connects, greeting, mux) = answers in
           case hold_start (dial u opt connects greeting mux) of
             Inl e \<Rightarrow> Some (Err (WorkerDial e))
           | Inr s \<Rightarrow> if hold_run s events = Some Finished then Some (Ok ()) else None))"

section \<open>The control plane\<close>

record cp_config =
  cp_url :: string
  cp_secret :: string
  cp_domain :: string

definition url_host_of :: "string \<Rightarrow> string option" where
  "url_host_of raw =
     (case parse_target_url (if has_prefix raw ''//'' then ''x:'' @ raw else raw) of
        None \<Rightarrow> None
      | Some u \<Rightarrow> if tu_host u = [] then None else Some (url_hostname u))"

definition default_domain :: "string \<Rightarrow> string" where
  "default_domain raw =
     (let host = (case url_host_of raw of
                    Some h \<Rightarrow> h
                  | None \<Rightarrow> fst (cut_or_all (fst (cut_or_all (trim_prefix (trim_prefix raw ''https://'') ''http://'') CHR ''/'')) CHR '':''))
      in case cut_prefix host ''app.'' of Some rest \<Rightarrow> rest | None \<Rightarrow> host)"

definition from_env :: "string list \<Rightarrow> cp_config option" where
  "from_env es =
     (let raw = trim_right (\<lambda>c. c = CHR ''/'') (trim_space (os_getenv es ''ROXEY_CONTROL_PLANE''));
          secret = trim_space (os_getenv es ''ROXEY_CONTROL_PLANE_SECRET'');
          domain = trim_space (os_getenv es ''ROXEY_CONTROL_PLANE_DOMAIN'')
      in if raw = [] \<or> secret = [] then None
         else Some \<lparr>cp_url = raw, cp_secret = secret, cp_domain = (if domain = [] then default_domain raw else domain)\<rparr>)"

datatype cp_body = NoCpBody | HostsBody "string list" | TopologyBody string "(string \<times> (string \<times> int) list) list"

record cp_request =
  cq_method :: string
  cq_url :: string
  cq_secret :: string
  cq_body :: cp_body

text \<open>An answer: its status, whether its body is empty, and the \<open>hosts\<close> it decodes to, if it does.\<close>

record cp_answer =
  ca_status :: nat
  ca_empty :: bool
  ca_hosts :: "(string, string) gomap option"

datatype cp_error = CpUnreached | CpStatus string string nat | CpUndecoded string string | CpNoHosts

definition cp_do ::
  "('w \<Rightarrow> cp_request \<Rightarrow> 'w \<times> cp_answer option) \<Rightarrow> cp_config \<Rightarrow> string \<Rightarrow> string \<Rightarrow> cp_body \<Rightarrow> bool \<Rightarrow> 'w \<Rightarrow>
     'w \<times> (cp_error, (string, string) gomap) res"
where
  "cp_do send c method path body decodes w =
     (case send w \<lparr>cq_method = method, cq_url = cp_url c @ path, cq_secret = cp_secret c, cq_body = body\<rparr> of
        (w', None) \<Rightarrow> (w', Err CpUnreached)
      | (w', Some a) \<Rightarrow>
          if ca_status a < 200 \<or> 300 \<le> ca_status a then (w', Err (CpStatus method path (ca_status a)))
          else if \<not> decodes \<or> ca_empty a then (w', Ok [])
          else (w', case ca_hosts a of None \<Rightarrow> Err (CpUndecoded method path) | Some hosts \<Rightarrow> Ok hosts))"

definition cp_lookup_hosts ::
  "('w \<Rightarrow> cp_request \<Rightarrow> 'w \<times> cp_answer option) \<Rightarrow> cp_config \<Rightarrow> string list \<Rightarrow> 'w \<Rightarrow> 'w \<times> (cp_error, (string, string) gomap) res"
where
  "cp_lookup_hosts send c declared w =
     (let (w', r) = cp_do send c ''POST'' ''/api/sandbox/previews/lookup'' (HostsBody declared) True w
      in (w', res_bind r (\<lambda>hosts. if hosts = [] then Err CpNoHosts else Ok hosts)))"

definition cp_publish ::
  "('w \<Rightarrow> cp_request \<Rightarrow> 'w \<times> cp_answer option) \<Rightarrow> cp_config \<Rightarrow> string \<Rightarrow> (string \<times> (string \<times> int) list) list \<Rightarrow> 'w \<Rightarrow> 'w \<times> (cp_error, unit) res"
where
  "cp_publish send c name environments w =
     (let (w', r) = cp_do send c ''POST'' ''/api/sandbox/previews'' (TopologyBody name environments) False w
      in (w', res_bind r (\<lambda>_. Ok ())))"

definition cp_delete ::
  "('w \<Rightarrow> cp_request \<Rightarrow> 'w \<times> cp_answer option) \<Rightarrow> cp_config \<Rightarrow> string \<Rightarrow> 'w \<Rightarrow> 'w \<times> (cp_error, unit) res"
where
  "cp_delete send c name w =
     (let (w', r) = cp_do send c ''DELETE'' (''/api/sandbox/previews?'' @ values_encode (values_set ''name'' name [])) NoCpBody False w
      in (w', res_bind r (\<lambda>_. Ok ())))"

end
