(* ===== verification/HostedProps.thy ===== *)
theory HostedProps
  imports Hosted UpProps
begin

text \<open>
  The public names of a hosted run: what the lookup tells the CLI is what the relay registers for
  the workers, through the wire formats of both.
\<close>

section \<open>The lookup on the wire\<close>

lemma escape_plain: "list_all is_unreserved s \<Longrightarrow> query_escape s = s"
  by (induction s) (auto simp: query_escape_def escape_char_def)

lemma services_query: "query_get (''services='' @ query_escape x) ''services'' = x"
proof -
  have "values_encode [(''services'', [x])] = query_escape ''services'' @ ''='' @ query_escape x"
    by (simp add: values_encode_def values_list_def)
  moreover have "query_escape ''services'' = ''services''" by code_simp
  moreover have "query_get (values_encode [(''services'', [x])]) ''services'' = x" by (subst query_get_encode) (simp_all add: wf_gomap_def)
  ultimately show ?thesis by simp
qed

lemma mux_lookup: "rq_path r = ''/api/lookup'' \<Longrightarrow> rq_method r = ''GET'' \<Longrightarrow> serve_mux chk cf reg s r en = api_lookup cf s r en"
  by (simp add: serve_mux_def Let_def)

lemma relay_lookup_Ok:
  assumes "snd (relay_lookup (relay_sender chk bt reg env) es tld key services w) = Ok looked" "services \<noteq> []" "key \<noteq> []"
  shows "\<exists>u. key_owner (rl_store (fst w)) (hash_key key) = Some u \<and>
    looked = lookup_hosts (bt_config bt) u (str_split CHR '','' (str_join '','' services))"
proof -
  let ?u = "lookup_url es tld services" let ?auth = "''Bearer '' @ key"
  let ?r = "url_request ?u ?auth"
  have r: "rq_path ?r = ''/api/lookup''" "rq_method ?r = ''GET''" "bearer ?r = key" "query_get (rq_raw_query ?r) ''services'' = str_join '','' services"
    by (simp_all add: url_request_def lookup_url_def bearer_def trim_prefix_append services_query del: append_Cons)
  obtain s n where w: "w = (s, n)" by (cases w)
  obtain st owner where v: "validate_api_key (en_fail (env n), en_fail2 (env n)) (en_stamp (env n)) (rl_store s) key = (st, owner)" by (metis surj_pair)
  have "\<exists>u. owner = Some u \<and> looked = lookup_hosts (bt_config bt) u (str_split CHR '','' (str_join '','' services))"
    using assms r v
    by (cases "dispatch_request (bt_admin_host bt) (rc_domain (bt_config bt)) (rq_host ?r) (rq_path ?r)"; cases owner)
      (auto simp: relay_lookup_def relay_sender_def booted_send_def w mux_lookup api_lookup_def http_error_def write_json_def Let_def dispatch_request_def
        split: if_splits)
  then show ?thesis using keys.validate_sound [of "((en_fail (env n), en_fail2 (env n)), en_stamp (env n))" "rl_store s" key] v by (auto simp: w)
qed

lemma assign_hosts_map:
  "assign_hosts looked hs out = Ok a \<Longrightarrow> distinct (map fst hs) \<Longrightarrow>
     map_of a d = (case map_of hs d of None \<Rightarrow> map_of out d | Some e \<Rightarrow> map_of looked e) \<and>
     (\<forall>e. map_of hs d = Some e \<longrightarrow> map_of looked e \<noteq> None)"
proof (induction looked hs out rule: assign_hosts.induct)
  case (2 looked declared effective rest out)
  then show ?case by (auto split: option.splits if_splits dest: map_of_SomeD) force+
qed simp

text \<open>
  C14: in hosted mode the public host \<open>up\<close> announces for a declared host (and renders into the
  services' environment) is the host the relay registers for the worker of that host: the labels
  looked up with the key, and a worker dialling with a key of the same account, agree through
  query encoding, the comma-separated list and the relay's handshake.
\<close>

theorem announced_hosts_registered:
  assumes hosted: "up_hosted en key m w = Some (w', Ok m')" "\<not> rs_local (mf_relay m)" "key \<noteq> []"
    and lookup: "\<forall>hosts. ue_lookup en hosts = (case snd (relay_lookup (relay_sender chk bt reg env) es tld key hosts w0) of Inl _ \<Rightarrow> None | Inr l \<Rightarrow> Some l)"
    and declared: "wf_gomap (mf_host_map m)" "map_of (mf_host_map m) declared = Some (ru_service r)"
    and worker: "worker_setup fl es2 r = Ok (addr, u, opt)" "dial_request u opt = Ok (u2, auth)"
    and req: "rq_raw_query q = u_raw_query u2" "rq_authorization q = auth"
    and accepted: "ws_handshake (bt_config bt) reg2 st q en2 = (st', Ok h)"
    and account: "key_owner st (hash_key (o_api_key opt)) = key_owner (rl_store (fst w0)) (hash_key key)"
  shows "map_of (mf_assigned m') declared = Some (hs_host h)"
proof -
  have "yields (up_hosted en key m) w w' m'" using hosted(1) by (simp add: yields_def)
  then obtain looked a where l: "ue_lookup en (map me_host (mf_envs m)) = Some looked" "assign_hosts looked (mf_host_map m) [] = Ok a"
    and m': "m' = m\<lparr>mf_assigned := a\<rparr>" using hosted(2,3) by (auto simp: yields_hosted)
  obtain x where a: "map_of a declared = Some x" "map_of looked (ru_service r) = Some x"
    using assign_hosts_map [OF l(2), of declared] declared by (auto simp: wf_gomap_def)
  have looked: "snd (relay_lookup (relay_sender chk bt reg env) es tld key (map me_host (mf_envs m)) w0) = Ok looked"
    using l(1) lookup by (auto split: sum.splits)
  have "map me_host (mf_envs m) \<noteq> []" using looked a(2) by (auto simp: relay_lookup_def)
  then obtain user where user: "key_owner (rl_store (fst w0)) (hash_key key) = Some user"
    and hosts: "looked = lookup_hosts (bt_config bt) user (str_split CHR '','' (str_join '','' (map me_host (mf_envs m))))"
    using relay_lookup_Ok [OF looked _ hosted(3)] by blast
  have x: "x = tunnel_host (rc_single (bt_config bt)) user (ru_service r)"
    using a(2) by (simp add: hosts lookup_hosts_exact split: if_splits)
  have opt: "u = websocket_url (if insecure es2 then ''ws'' else ''wss'') (admin_host es2 (ru_tld r)) (o_service opt) (o_path opt) (o_protect opt) (o_gate_group opt)"
    "o_service opt = ru_service r"
    using worker(1) by (auto simp: worker_setup_def split: option.splits if_splits)
  note d = dialled_handshake [OF worker(2) [unfolded opt(1)] req accepted]
  have "hs_user h = user" using keys.validate_sound [of "((en_fail en2, en_fail2 en2), en_stamp en2)" st "o_api_key opt"] d(1) account user by simp
  moreover have "hs_host h = tunnel_host (rc_single (bt_config bt)) (hs_user h) (ru_service r)" using opt(2) by (subst d(3)) simp
  ultimately show ?thesis using a(1) x by (simp add: m')
qed

definition shop_booted :: booted where
  "shop_booted = \<lparr>bt_config = demo_config, bt_state = \<lparr>rl_store = key_store1, rl_signup = new_limiter minute 10 0\<rparr>, bt_admin_host = ''roxey.dev''\<rparr>"

definition hosted_manifest :: manifest where
  "hosted_manifest = \<lparr>mf_relay = \<lparr>rs_tld = ''dev'', rs_api_key = [], rs_local = False\<rparr>,
     mf_envs = [\<lparr>me_host = ''shop'', me_protect = [], me_routes = []\<rparr>], mf_dir = ''/p'', mf_host_map = [(''shop'', ''shop'')], mf_assigned = []\<rparr>"

definition shop_run :: run_spec where
  "shop_run = \<lparr>ru_tld = ''dev'', ru_service = ''shop'', ru_path = [], ru_target = ''3000'', ru_protect = [], ru_group = []\<rparr>"

definition hosted_env :: up_env where
  "hosted_env = demo_up\<lparr>ue_lookup := (\<lambda>hosts. case snd (relay_lookup (relay_sender (\<lambda>_ _. False) shop_booted new_registry (\<lambda>_. demo_env)) [] ''dev'' ''rxy_61'' hosts
     (bt_state shop_booted, 0)) of Inl _ \<Rightarrow> None | Inr l \<Rightarrow> Some l)\<rparr>"

lemma shop_lookup: "ue_lookup hosted_env [''shop''] = Some [(''shop'', ''shop'')]"
proof -
  have "trim_prefix ''Bearer rxy_61'' ''Bearer '' = ''rxy_61''" "trim_space ''shop'' = ''shop''" "service_ok True ''shop''" by code_simp+
  moreover have "admin_host [] ''dev'' = ''roxey.dev''" "strip_port ''roxey.dev'' = ''roxey.dev''" by code_simp+
  ultimately show ?thesis
    by (simp add: hosted_env_def relay_lookup_def relay_sender_def booted_send_def shop_booted_def url_request_def lookup_url_def dispatch_request_def
        mux_lookup api_lookup_def bearer_def demo_env_def demo_key_valid case_prod_unfold services_query lookup_hosts_def demo_config_def tunnel_host_def write_json_def Let_def
        del: append_Cons)
qed

theorem announced_hosts_registered_witness:
  "\<exists>m' u0 u auth st h. up_hosted hosted_env ''rxy_61'' hosted_manifest fresh_world = Some (fresh_world, Ok m') \<and>
     dial_request u0 shop_options = Ok (u, auth) \<and>
     ws_handshake demo_config new_registry key_store1 (ws_request\<lparr>rq_raw_query := u_raw_query u, rq_authorization := auth\<rparr>) demo_env = (st, Ok h) \<and>
     map_of (mf_assigned m') ''shop'' = Some (hs_host h)"
proof -
  let ?fl = "Holds [(''dev'', no_server\<lparr>sc_api_key := ''rxy_61''\<rparr>)]"
  let ?u0 = "websocket_url ''wss'' ''roxey.dev'' ''shop'' [] [] []"
  obtain u auth st where d: "dial_request ?u0 shop_options = Ok (u, auth)"
    and h: "ws_handshake demo_config new_registry key_store1 (ws_request\<lparr>rq_raw_query := u_raw_query u, rq_authorization := auth\<rparr>) demo_env = (st, Ok shop_hs)"
    using shop_dialled by blast
  have st_up: "worker_setup ?fl [] shop_run = Ok (None, ?u0, shop_options)"
    by code_simp
  obtain m' where m': "up_hosted hosted_env ''rxy_61'' hosted_manifest fresh_world = Some (fresh_world, Ok m')"
  proof -
    have "\<exists>m'. yields (up_hosted hosted_env ''rxy_61'' hosted_manifest) fresh_world fresh_world m'"
      by (simp add: yields_hosted hosted_manifest_def shop_lookup)
    then show thesis using that by (auto simp: yields_def)
  qed
  have "map_of (mf_assigned m') ''shop'' = Some (hs_host shop_hs)"
  proof (rule announced_hosts_registered [OF m' _ _ _ _ _ st_up d, where bt = shop_booted and ?w0.0 = "(bt_state shop_booted, 0)"])
    show "\<forall>hosts. ue_lookup hosted_env hosts = (case snd (relay_lookup (relay_sender (\<lambda>_ _. False) shop_booted new_registry (\<lambda>_. demo_env)) [] ''dev'' ''rxy_61'' hosts
      (bt_state shop_booted, 0)) of Inl _ \<Rightarrow> None | Inr l \<Rightarrow> Some l)" by (simp add: hosted_env_def)
  qed (use h in \<open>simp_all add: hosted_manifest_def wf_gomap_def shop_run_def shop_booted_def shop_options_def\<close>)
  then show ?thesis using m' d h by blast
qed

end
