(* ===== verification/Service.thy ===== *)
theory Service
  imports LocalRelay
begin

text \<open>
  \<open>cli/internal/service/service.go\<close>: the boot-time helper and the autostart units of projects. A
  command is its list of words; a predicate says which commands exit well. Of their effects the
  ones on the files roxey installs are modelled: \<open>cp\<close> and \<open>rm\<close> on a map from paths to contents.
\<close>

definition darwin_daemon_label :: string where "darwin_daemon_label = ''com.four43labs.roxey-daemon''"
definition linux_daemon_unit :: string where "linux_daemon_unit = ''roxey-daemon.service''"
definition legacy_darwin_label :: string where "legacy_darwin_label = ''com.four43labs.roxey-relay''"
definition legacy_linux_unit :: string where "legacy_linux_unit = ''roxey-relay.service''"
definition project_label_pfx :: string where "project_label_pfx = ''com.four43labs.roxey.project.''"

definition root_dir :: "string \<Rightarrow> string" where
  "root_dir os = (if os = ''darwin'' then ''/Library/Application Support/roxey'' else if os = ''linux'' then ''/usr/local/libexec/roxey'' else [])"

definition root_binary :: "string \<Rightarrow> string \<Rightarrow> string" where
  "root_binary os name = path_join [root_dir os, name]"

record manager =
  mg_bin :: string
  mg_state_dir :: string

text \<open>The user is that of sudo when there is one; the shell's answer is \<open>None\<close> when it fails.\<close>

definition state_dir_for_user :: "string \<Rightarrow> string option \<Rightarrow> string \<Rightarrow> string" where
  "state_dir_for_user sudo_user expanded home =
     (if sudo_user = [] then path_join [home, ''.roxey'']
      else case expanded of None \<Rightarrow> path_join [home, ''.roxey''] | Some out \<Rightarrow> path_join [trim_space out, ''.roxey''])"

definition new_manager :: "string option \<Rightarrow> string \<Rightarrow> manager option" where
  "new_manager exe dir = map_option (\<lambda>bin. \<lparr>mg_bin = bin, mg_state_dir = dir\<rparr>) exe"

section \<open>Commands\<close>

type_synonym files = "(string, string) gomap"

text \<open>A command whose failure ends the operation, and one whose failure is ignored.\<close>

datatype svc_cmd = Must "string list" | Try "string list"

definition drop_sudo :: "string list \<Rightarrow> string list" where
  "drop_sudo cmd = (case cmd of [] \<Rightarrow> [] | c # cs \<Rightarrow> if c = ''sudo'' then cs else cmd)"

definition cmd_effect :: "string list \<Rightarrow> files \<Rightarrow> files" where
  "cmd_effect cmd fs =
     (let c = drop_sudo cmd in
      if length c = 3 \<and> c ! 0 = ''cp'' then (case map_of fs (c ! 1) of None \<Rightarrow> fs | Some x \<Rightarrow> gput (c ! 2) x fs)
      else if length c = 3 \<and> c ! 0 = ''rm'' \<and> c ! 1 = ''-f'' then gdel (c ! 2) fs
      else if length c = 3 \<and> c ! 0 = ''rm'' \<and> c ! 1 = ''-rf'' then filter (\<lambda>(p, _). p \<noteq> c ! 2 \<and> \<not> has_prefix p (c ! 2 @ ''/'')) fs
      else fs)"

datatype svc_error = SvcCommand "string list" | SvcUnsupported string | SvcNoRelay relay_error | SvcTemp | SvcUnitUnwritable | SvcUnitMissing

fun svc_run :: "(string list \<Rightarrow> bool) \<Rightarrow> svc_cmd list \<Rightarrow> files \<Rightarrow> files \<times> string list list \<times> (svc_error, unit) res" where
  "svc_run works [] fs = (fs, [], Ok ())"
| "svc_run works (Must c # cs) fs =
     (if works c then (let (fs', rn, r) = svc_run works cs (cmd_effect c fs) in (fs', c # rn, r)) else (fs, [c], Err (SvcCommand c)))"
| "svc_run works (Try c # cs) fs =
     (let (fs', rn, r) = svc_run works cs (if works c then cmd_effect c fs else fs) in (fs', c # rn, r))"

section \<open>The helper daemon\<close>

text \<open>The operation up to the relay binary, which is resolved only when none was given.\<close>

definition root_binary_cmds :: "manager \<Rightarrow> string \<Rightarrow> svc_cmd list" where
  "root_binary_cmds m os =
     [Must [''sudo'', ''mkdir'', ''-p'', root_dir os], Must [''sudo'', ''cp'', mg_bin m, root_binary os ''roxey''],
      Must [''sudo'', ''chmod'', ''0755'', root_binary os ''roxey'']]"

definition relay_binary_cmds :: "string \<Rightarrow> string \<Rightarrow> svc_cmd list" where
  "relay_binary_cmds os relayBin =
     [Must [''sudo'', ''cp'', relayBin, root_binary os ''roxey-relay''], Must [''sudo'', ''chmod'', ''0755'', root_binary os ''roxey-relay'']]"

definition install_root_binaries ::
  "(string list \<Rightarrow> bool) \<Rightarrow> manager \<Rightarrow> string \<Rightarrow> machine \<Rightarrow> string \<Rightarrow> string \<Rightarrow> files \<Rightarrow> files \<times> string list list \<times> (svc_error, unit) res"
where
  "install_root_binaries works m os mc dir relayBin fs =
     (case svc_run works (root_binary_cmds m os) fs of
        (fs1, rn, Inl e) \<Rightarrow> (fs1, rn, Err e)
      | (fs1, rn, Inr _) \<Rightarrow>
          (case (if relayBin = [] then ensure_binary mc dir else Ok relayBin) of
             Inl e \<Rightarrow> (fs1, rn, Err (SvcNoRelay e))
           | Inr bin \<Rightarrow> (let (fs2, rn2, r) = svc_run works (relay_binary_cmds os bin) fs1 in (fs2, rn @ rn2, r))))"

definition line :: "string \<Rightarrow> string" where "line s = s @ [nl]"

definition plist_head :: string where
  "plist_head =
     line ''<?xml version=\"1.0\" encoding=\"UTF-8\"?>'' @
     line ''<!DOCTYPE plist PUBLIC \"-//Apple//DTD PLIST 1.0//EN\" \"http://www.apple.com/DTDs/PropertyList-1.0.dtd\">'' @
     line ''<plist version=\"1.0\">'' @ line ''<dict>''"

definition plist_string :: "string \<Rightarrow> string" where "plist_string s = line (''    <string>'' @ s @ ''</string>'')"

definition daemon_plist :: "manager \<Rightarrow> string" where
  "daemon_plist m =
     (let logs = path_join [mg_state_dir m, ''logs'', ''daemon.log''] in
      plist_head @
      line (''  <key>Label</key><string>'' @ darwin_daemon_label @ ''</string>'') @
      line ''  <key>ProgramArguments</key>'' @ line ''  <array>'' @
      concat (map plist_string [root_binary ''darwin'' ''roxey'', ''_daemon'', ''--state-dir'', mg_state_dir m]) @
      line ''  </array>'' @ line ''  <key>RunAtLoad</key><true/>'' @ line ''  <key>KeepAlive</key><true/>'' @
      line ''  <key>UserName</key><string>root</string>'' @
      line (''  <key>StandardOutPath</key><string>'' @ logs @ ''</string>'') @
      line (''  <key>StandardErrorPath</key><string>'' @ logs @ ''</string>'') @
      line ''</dict>'' @ line ''</plist>'')"

definition daemon_unit :: "manager \<Rightarrow> string" where
  "daemon_unit m =
     line ''[Unit]'' @ line ''Description=Roxey privileged helper (local relay, /etc/hosts, CA trust)'' @
     line ''After=network-online.target'' @ line ''Wants=network-online.target'' @ line [] @
     line ''[Service]'' @ line (''ExecStart='' @ root_binary ''linux'' ''roxey'' @ '' _daemon --state-dir '' @ mg_state_dir m) @
     line ''Restart=always'' @ line ''User=root'' @ line [] @ line ''[Install]'' @ line ''WantedBy=multi-user.target''"

definition darwin_plist_path :: "string \<Rightarrow> string" where "darwin_plist_path label = ''/Library/LaunchDaemons/'' @ label @ ''.plist''"
definition linux_unit_path :: "string \<Rightarrow> string" where "linux_unit_path unit = ''/etc/systemd/system/'' @ unit"

definition darwin_install_cmds :: "string \<Rightarrow> svc_cmd list" where
  "darwin_install_cmds tmp =
     [Try [''launchctl'', ''bootout'', ''system'', legacy_darwin_label], Try [''sudo'', ''rm'', ''-f'', darwin_plist_path legacy_darwin_label],
      Try [''launchctl'', ''bootout'', ''system'', darwin_daemon_label], Must [''sudo'', ''cp'', tmp, darwin_plist_path darwin_daemon_label],
      Must [''sudo'', ''plutil'', ''-lint'', darwin_plist_path darwin_daemon_label],
      Must [''sudo'', ''launchctl'', ''bootstrap'', ''system'', darwin_plist_path darwin_daemon_label]]"

definition linux_install_cmds :: "string \<Rightarrow> svc_cmd list" where
  "linux_install_cmds tmp =
     [Try [''sudo'', ''systemctl'', ''disable'', ''--now'', legacy_linux_unit], Try [''sudo'', ''rm'', ''-f'', linux_unit_path legacy_linux_unit],
      Must [''sudo'', ''cp'', tmp, linux_unit_path linux_daemon_unit], Must [''sudo'', ''systemctl'', ''daemon-reload''],
      Must [''sudo'', ''systemctl'', ''enable'', ''--now'', linux_daemon_unit]]"

text \<open>The unit goes through a temporary file of a fresh name (\<open>None\<close>: it cannot be written).\<close>

definition via_temp ::
  "(string list \<Rightarrow> bool) \<Rightarrow> string option \<Rightarrow> string \<Rightarrow> (string \<Rightarrow> svc_cmd list) \<Rightarrow> files \<Rightarrow> files \<times> string list list \<times> (svc_error, unit) res"
where
  "via_temp works tmp text cmds fs =
     (case tmp of
        None \<Rightarrow> (fs, [], Err SvcTemp)
      | Some t \<Rightarrow> (let (fs', rn, r) = svc_run works (cmds t) (gput t text fs) in (gdel t fs', rn, r)))"

definition svc_install_daemon ::
  "(string list \<Rightarrow> bool) \<Rightarrow> manager \<Rightarrow> string \<Rightarrow> machine \<Rightarrow> string \<Rightarrow> string \<Rightarrow> string option \<Rightarrow> files \<Rightarrow> files \<times> string list list \<times> (svc_error, unit) res"
where
  "svc_install_daemon works m os mc dir relayBin tmp fs =
     (case install_root_binaries works m os mc dir relayBin fs of
        (fs1, rn, Inl e) \<Rightarrow> (fs1, rn, Err e)
      | (fs1, rn, Inr _) \<Rightarrow>
          (if os = ''darwin'' then (let (fs2, rn2, r) = via_temp works tmp (daemon_plist m) darwin_install_cmds fs1 in (fs2, rn @ rn2, r))
           else if os = ''linux'' then (let (fs2, rn2, r) = via_temp works tmp (daemon_unit m) linux_install_cmds fs1 in (fs2, rn @ rn2, r))
           else (fs1, rn, Err (SvcUnsupported os))))"

definition uninstall_cmds :: "string \<Rightarrow> svc_cmd list option" where
  "uninstall_cmds os =
     (if os = ''darwin'' then
        Some [Try [''launchctl'', ''bootout'', ''system'', darwin_daemon_label], Try [''launchctl'', ''bootout'', ''system'', legacy_darwin_label],
          Try [''sudo'', ''rm'', ''-f'', darwin_plist_path darwin_daemon_label], Try [''sudo'', ''rm'', ''-f'', darwin_plist_path legacy_darwin_label],
          Try [''sudo'', ''rm'', ''-rf'', root_dir os]]
      else if os = ''linux'' then
        Some [Try [''sudo'', ''systemctl'', ''disable'', ''--now'', linux_daemon_unit], Try [''sudo'', ''systemctl'', ''disable'', ''--now'', legacy_linux_unit],
          Try [''sudo'', ''rm'', ''-f'', linux_unit_path linux_daemon_unit], Try [''sudo'', ''rm'', ''-f'', linux_unit_path legacy_linux_unit],
          Try [''sudo'', ''systemctl'', ''daemon-reload''], Try [''sudo'', ''rm'', ''-rf'', root_dir os]]
      else None)"

definition uninstall_daemon :: "(string list \<Rightarrow> bool) \<Rightarrow> string \<Rightarrow> files \<Rightarrow> files \<times> string list list \<times> (svc_error, unit) res" where
  "uninstall_daemon works os fs = (case uninstall_cmds os of None \<Rightarrow> (fs, [], Err (SvcUnsupported os)) | Some cs \<Rightarrow> svc_run works cs fs)"

definition daemon_running :: "string \<Rightarrow> string option \<Rightarrow> bool \<Rightarrow> bool" where
  "daemon_running os launchctl_out active =
     (if os = ''darwin'' then (case launchctl_out of None \<Rightarrow> False | Some out \<Rightarrow> str_contains out ''state'')
      else if os = ''linux'' then active else False)"

section \<open>Autostart units\<close>

definition home_dir :: "string \<Rightarrow> string list \<Rightarrow> string" where "home_dir home elems = path_join (home # elems)"

definition agent_unit :: "string \<Rightarrow> string \<Rightarrow> string" where
  "agent_unit os name = (if os = ''darwin'' then project_label_pfx @ name @ ''.plist'' else ''roxey-project-'' @ name @ ''.service'')"

definition agent_dir :: "string \<Rightarrow> string \<Rightarrow> string" where
  "agent_dir os home = (if os = ''darwin'' then home_dir home [''Library'', ''LaunchAgents''] else home_dir home [''.config'', ''systemd'', ''user''])"

definition agent_path :: "string \<Rightarrow> string \<Rightarrow> string \<Rightarrow> string" where
  "agent_path os home name = path_join [agent_dir os home, agent_unit os name]"

definition agent_args :: "string \<Rightarrow> string list" where "agent_args name = [''up'', ''-d'', ''--project'', name]"

definition agent_text :: "manager \<Rightarrow> string \<Rightarrow> string \<Rightarrow> string" where
  "agent_text m os name =
     (if os = ''darwin'' then
        plist_head @ line (''  <key>Label</key><string>'' @ project_label_pfx @ name @ ''</string>'') @
        line ''  <key>ProgramArguments</key>'' @ line ''  <array>'' @
        concat (map plist_string (mg_bin m # agent_args name)) @
        line ''  </array>'' @ line ''  <key>RunAtLoad</key><true/>'' @ line ''</dict>'' @ line ''</plist>''
      else
        line ''[Unit]'' @ line (''Description=Roxey project '' @ name) @ line [] @ line ''[Service]'' @
        line (''ExecStart='' @ str_join '' '' (mg_bin m # agent_args name)) @ line [] @
        line ''[Install]'' @ line ''WantedBy=default.target'')"

definition agent_install_cmds :: "string \<Rightarrow> string \<Rightarrow> string \<Rightarrow> string \<Rightarrow> svc_cmd list" where
  "agent_install_cmds os home uid name =
     (if os = ''darwin'' then
        [Try [''launchctl'', ''bootout'', ''gui/'' @ uid, project_label_pfx @ name], Must [''launchctl'', ''bootstrap'', ''gui/'' @ uid, agent_path os home name]]
      else [Must [''systemctl'', ''--user'', ''daemon-reload''], Must [''systemctl'', ''--user'', ''enable'', ''--now'', agent_unit os name]])"

definition install_project_agent ::
  "(string list \<Rightarrow> bool) \<Rightarrow> manager \<Rightarrow> string \<Rightarrow> string \<Rightarrow> string \<Rightarrow> bool \<Rightarrow> string \<Rightarrow> files \<Rightarrow> files \<times> string list list \<times> (svc_error, unit) res"
where
  "install_project_agent works m os home uid written name fs =
     (if os \<noteq> ''darwin'' \<and> os \<noteq> ''linux'' then (fs, [], Err (SvcUnsupported os))
      else if \<not> written then (fs, [], Err SvcUnitUnwritable)
      else svc_run works (agent_install_cmds os home uid name) (gput (agent_path os home name) (agent_text m os name) fs))"

text \<open>A unit that is gone already is an error on macOS and none on Linux.\<close>

definition uninstall_project_agent ::
  "(string list \<Rightarrow> bool) \<Rightarrow> string \<Rightarrow> string \<Rightarrow> string \<Rightarrow> string \<Rightarrow> files \<Rightarrow> files \<times> string list list \<times> (svc_error, unit) res"
where
  "uninstall_project_agent works os home uid name fs =
     (let path = agent_path os home name; there = (map_of fs path \<noteq> None) in
      if os = ''darwin'' then
        (gdel path fs, [[''launchctl'', ''bootout'', ''gui/'' @ uid, project_label_pfx @ name]], if there then Ok () else Err SvcUnitMissing)
      else if os = ''linux'' then
        (gdel path fs, [[''systemctl'', ''--user'', ''disable'', ''--now'', agent_unit os name], [''systemctl'', ''--user'', ''daemon-reload'']], Ok ())
      else (fs, [], Err (SvcUnsupported os)))"

definition project_agent_installed :: "string \<Rightarrow> string \<Rightarrow> string \<Rightarrow> files \<Rightarrow> bool" where
  "project_agent_installed os home name fs =
     ((os = ''darwin'' \<or> os = ''linux'') \<and> map_of fs (agent_path os home name) \<noteq> None)"

end
