(* ===== verification/DoctorState.thy ===== *)
theory DoctorState
  imports Doctor CliState
begin

text \<open>
  \<open>CheckState\<close> of \<open>cli/internal/doctor/doctor.go\<close>: the state files as the doctor reports on them, in
  the iteration order of their maps.
\<close>

definition check_server :: "string \<times> server_config \<Rightarrow> diagnostic" where
  "check_server kv =
     (let (tld, sc) = kv in
      if sc_api_key sc = [] then (if sc_local sc then warnf True (LocalKeyMissing tld) else failf (KeyMissing tld))
      else okf (KeySaved tld))"

text \<open>A remedy is attached to the last result of the report, which is the last stale tunnel.\<close>

definition with_fix :: "diagnostic list \<Rightarrow> diagnostic list" where
  "with_fix rs = (if rs = [] then [] else butlast rs @ [(last rs)\<lparr>dg_fix := True\<rparr>])"

definition check_tunnels :: "(int \<Rightarrow> bool) \<Rightarrow> tunnels state_file \<Rightarrow> diagnostic list" where
  "check_tunnels alive fl =
     (case read_map fl of
        Inl _ \<Rightarrow> [failf TunnelsUnreadable]
      | Inr tunnels \<Rightarrow>
          let stale = filter (\<lambda>(_, info). \<not> alive (ti_pid info)) tunnels;
              warns = map (\<lambda>(k, info). warnf False (StaleTunnel k (ti_pid info))) stale
          in if stale \<noteq> [] then with_fix warns
             else if tunnels \<noteq> [] then [okf (TunnelsAlive (length tunnels))] else [])"

definition check_services :: "(int \<Rightarrow> bool) \<Rightarrow> services state_file \<Rightarrow> diagnostic list" where
  "check_services alive fl =
     (case read_map fl of
        Inl _ \<Rightarrow> [failf ServicesUnreadable]
      | Inr services \<Rightarrow> map (\<lambda>(k, svc). warnf True (StaleService k (si_pid svc))) (filter (\<lambda>(_, svc). \<not> alive (si_pid svc)) services))"

definition check_state :: "(int \<Rightarrow> bool) \<Rightarrow> servers state_file \<Rightarrow> tunnels state_file \<Rightarrow> services state_file \<Rightarrow> diagnostic list" where
  "check_state alive sv tf sf =
     (case load_config sv of
        Inl _ \<Rightarrow> [failf ConfigUnreadable]
      | Inr cfg \<Rightarrow>
          (case (case cfg of None \<Rightarrow> [] | Some s \<Rightarrow> s) of
             [] \<Rightarrow> [warnf True NoServers]
           | servers \<Rightarrow> map check_server servers @ check_tunnels alive tf @ check_services alive sf))"

end
