(* ===== verification/LocalCa.thy ===== *)
theory LocalCa
  imports Manifest Config
begin

text \<open>
  \<open>cli/internal/localca/localca.go\<close>: the local certificate authority and its leaf certificate. Keys
  are drawn fresh and stand for themselves: a certificate records the key it certifies and the
  key that signed it. Only IPv4 literals count as addresses, since no host has a colon.
\<close>

section \<open>Certificates and files\<close>

datatype private_key = EcKey nat | OtherKey nat

record certificate =
  ct_key :: private_key
  ct_signer :: private_key
  ct_name :: string
  ct_not_before :: int
  ct_not_after :: int
  ct_ca :: bool
  ct_dns :: "string list"
  ct_ips :: "string list"

text \<open>The state directory's \<open>certs\<close>; \<open>None\<close> is a file that is missing or does not parse.\<close>

record cert_files =
  cf_ca :: "certificate option"
  cf_ca_key :: "private_key option"
  cf_leaf :: "certificate option"
  cf_leaf_key :: "private_key option"

text \<open>Writing a file succeeds, leaves it as it was, or leaves it broken.\<close>

datatype write_fate = Written | Untouched | Broken

definition write_file :: "write_fate \<Rightarrow> 'a \<Rightarrow> 'a option \<Rightarrow> 'a option" where
  "write_file fate new old = (case fate of Written \<Rightarrow> Some new | Untouched \<Rightarrow> old | Broken \<Rightarrow> None)"

definition load_key_pair :: "certificate option \<Rightarrow> private_key option \<Rightarrow> (certificate \<times> private_key) option" where
  "load_key_pair crt key =
     (case (crt, key) of (Some c, Some k) \<Rightarrow> if ct_key c = k then Some (c, k) else None | _ \<Rightarrow> None)"

record ca_env =
  ce_now :: int
  ce_ten_years :: int
  ce_dirs :: bool
  ce_ca_key :: "nat option"
  ce_leaf_key :: "nat option"
  ce_writes :: "write_fate \<times> write_fate"
  ce_leaf_writes :: "write_fate \<times> write_fate"

datatype ca_error = NoCertDir | NoEntropy | CaUnwritable | LeafUncreated | LeafUnwritable | LeafPanic

definition hour :: int where "hour = 3600"
definition validity :: int where "validity = 825 * 24 * hour"

section \<open>The authority\<close>

definition load_or_create_ca :: "ca_env \<Rightarrow> cert_files \<Rightarrow> cert_files \<times> (ca_error, certificate \<times> private_key) res" where
  "load_or_create_ca en fs =
     (let create = (case ce_ca_key en of
            None \<Rightarrow> (fs, Err NoEntropy)
          | Some n \<Rightarrow>
              (let key = EcKey n;
                   crt = \<lparr>ct_key = key, ct_signer = key, ct_name = ''roxey-ca'', ct_not_before = ce_now en - hour,
                     ct_not_after = ce_ten_years en, ct_ca = True, ct_dns = [], ct_ips = []\<rparr>;
                   fs1 = fs\<lparr>cf_ca := write_file (fst (ce_writes en)) crt (cf_ca fs)\<rparr>
               in if fst (ce_writes en) \<noteq> Written then (fs1, Err CaUnwritable)
                  else
                    let fs2 = fs1\<lparr>cf_ca_key := write_file (snd (ce_writes en)) key (cf_ca_key fs1)\<rparr>
                    in (fs2, if snd (ce_writes en) \<noteq> Written then Err CaUnwritable else Ok (crt, key))))
      in case load_key_pair (cf_ca fs) (cf_ca_key fs) of
           None \<Rightarrow> create
         | Some (crt, key) \<Rightarrow>
             if ce_now en < ct_not_after crt then (case key of EcKey _ \<Rightarrow> (fs, Ok (crt, key)) | OtherKey _ \<Rightarrow> create)
             else create)"

section \<open>The leaf\<close>

definition is_ip :: "string \<Rightarrow> bool" where "is_ip s = is_ipv4 s"
definition dns_names :: "string list \<Rightarrow> string list" where "dns_names hosts = filter (\<lambda>h. \<not> is_ip h) hosts"
definition ip_addrs :: "string list \<Rightarrow> string list" where "ip_addrs hosts = filter is_ip hosts"

definition covers :: "certificate \<Rightarrow> string list \<Rightarrow> bool" where
  "covers leaf hosts = list_all (\<lambda>h. h \<in> set (ct_dns leaf) \<or> h \<in> set (ct_ips leaf)) hosts"

text \<open>The first host is the subject: an empty list indexes out of range. Names must be ASCII.\<close>

definition issue_leaf :: "ca_env \<Rightarrow> certificate \<Rightarrow> private_key \<Rightarrow> string list \<Rightarrow> (ca_error, certificate \<times> private_key) res" where
  "issue_leaf en ca_cert ca_key hosts =
     (case ce_leaf_key en of
        None \<Rightarrow> Err NoEntropy
      | Some n \<Rightarrow>
          (case hosts of
             [] \<Rightarrow> Err LeafPanic
           | h # _ \<Rightarrow>
               if list_ex (list_ex (\<lambda>c. 128 \<le> code_of c)) (dns_names hosts) then Err LeafUncreated
               else Ok (\<lparr>ct_key = EcKey n, ct_signer = ca_key, ct_name = h, ct_not_before = ce_now en - hour,
                 ct_not_after = ce_now en + validity, ct_ca = False, ct_dns = dns_names hosts, ct_ips = ip_addrs hosts\<rparr>, EcKey n)))"

definition ensure_certs :: "ca_env \<Rightarrow> string list \<Rightarrow> cert_files \<Rightarrow> cert_files \<times> (ca_error, certificate) res" where
  "ensure_certs en hosts fs =
     (if \<not> ce_dirs en then (fs, Err NoCertDir)
      else case load_or_create_ca en fs of
        (fs1, Inl e) \<Rightarrow> (fs1, Err e)
      | (fs1, Inr (ca_cert, ca_key)) \<Rightarrow>
          (let sorted = sort hosts;
               issue = (case issue_leaf en ca_cert ca_key sorted of
                 Inl e \<Rightarrow> (fs1, Err e)
               | Inr (leaf, key) \<Rightarrow>
                   (let fs2 = fs1\<lparr>cf_leaf := write_file (fst (ce_leaf_writes en)) leaf (cf_leaf fs1)\<rparr>
                    in if fst (ce_leaf_writes en) \<noteq> Written then (fs2, Err LeafUnwritable)
                       else
                         let fs3 = fs2\<lparr>cf_leaf_key := write_file (snd (ce_leaf_writes en)) key (cf_leaf_key fs2)\<rparr>
                         in if snd (ce_leaf_writes en) \<noteq> Written then (fs3, Err LeafUnwritable)
                            else (fs3, case load_key_pair (cf_leaf fs3) (cf_leaf_key fs3) of None \<Rightarrow> Err LeafUnwritable | Some (c, _) \<Rightarrow> Ok c)))
           in case load_key_pair (cf_leaf fs1) (cf_leaf_key fs1) of
                None \<Rightarrow> issue
              | Some (leaf, _) \<Rightarrow> if covers leaf sorted then (fs1, Ok leaf) else issue))"

section \<open>Trust\<close>

text \<open>Chain verification against the system's roots, without a host name.\<close>

definition valid_at :: "int \<Rightarrow> certificate \<Rightarrow> bool" where
  "valid_at now c \<longleftrightarrow> ct_not_before c \<le> now \<and> now \<le> ct_not_after c"

definition verifies :: "int \<Rightarrow> certificate list \<Rightarrow> certificate \<Rightarrow> bool" where
  "verifies now roots leaf \<longleftrightarrow> valid_at now leaf \<and>
     list_ex (\<lambda>r. r = leaf \<or> valid_at now r \<and> ct_ca r \<and> ct_key r = ct_signer leaf) roots"

definition trusted :: "int \<Rightarrow> certificate list option \<Rightarrow> cert_files \<Rightarrow> bool" where
  "trusted now roots fs =
     (case (cf_leaf fs, roots) of (Some leaf, Some rs) \<Rightarrow> verifies now rs leaf | _ \<Rightarrow> False)"

definition run_trust :: "bool \<Rightarrow> string list \<Rightarrow> string list" where
  "run_trust root cmd = (if root then cmd else [''sudo'', ''-p'', ''roxey needs admin rights to trust its local CA: ''] @ cmd)"

datatype trust_error = UnsupportedOs string | TrustCommandFailed "string list"

text \<open>The commands of \<open>TrustCA\<close> by system, and running them: the first that fails ends it.\<close>

definition trust_commands :: "string \<Rightarrow> bool \<Rightarrow> string \<Rightarrow> (trust_error, string list list) res" where
  "trust_commands os debian caPath =
     (if os = ''darwin'' then
        Ok [[''security'', ''add-trusted-cert'', ''-d'', ''-r'', ''trustRoot'', ''-k'', ''/Library/Keychains/System.keychain'', caPath]]
      else if os = ''linux'' then
        (if debian then Ok [[''cp'', caPath, ''/usr/local/share/ca-certificates/roxey-local-ca.crt''], [''update-ca-certificates'']]
         else Ok [[''cp'', caPath, ''/etc/pki/ca-trust/source/anchors/roxey-local-ca.crt''], [''update-ca-trust'', ''extract'']])
      else Err (UnsupportedOs os))"

fun run_trust_commands :: "bool \<Rightarrow> (string list \<Rightarrow> bool) \<Rightarrow> string list list \<Rightarrow> string list list \<times> (trust_error, unit) res" where
  "run_trust_commands root works [] = ([], Ok ())"
| "run_trust_commands root works (c # cs) =
     (let cmd = run_trust root c in
      if works cmd then (let (ran, r) = run_trust_commands root works cs in (cmd # ran, r))
      else ([cmd], Err (TrustCommandFailed cmd)))"

definition trust_ca_cmd :: "string \<Rightarrow> bool \<Rightarrow> bool \<Rightarrow> (string list \<Rightarrow> bool) \<Rightarrow> string \<Rightarrow> string list list \<times> (trust_error, unit) res" where
  "trust_ca_cmd os debian root works caPath =
     (case trust_commands os debian caPath of Inl e \<Rightarrow> ([], Err e) | Inr cs \<Rightarrow> run_trust_commands root works cs)"

section \<open>What Ensure leaves\<close>

definition ca_ok :: "int \<Rightarrow> cert_files \<Rightarrow> bool" where
  "ca_ok now fs \<longleftrightarrow> (\<exists>c n. cf_ca fs = Some c \<and> cf_ca_key fs = Some (EcKey n) \<and> ct_key c = EcKey n \<and> now < ct_not_after c)"

lemma load_or_create_Ok:
  assumes "load_or_create_ca en fs = (fs', Ok (c, k))" "ce_now en < ce_ten_years en"
  shows "ca_ok (ce_now en) fs'" "cf_ca fs' = Some c" "cf_ca_key fs' = Some k" "ct_key c = k"
    "cf_leaf fs' = cf_leaf fs" "cf_leaf_key fs' = cf_leaf_key fs" "ca_ok (ce_now en) fs \<Longrightarrow> fs' = fs"
  using assms
  by (auto simp: load_or_create_ca_def load_key_pair_def ca_ok_def write_file_def Let_def
      split: option.splits if_splits private_key.splits write_fate.splits) metis+

lemma load_ca_ok: "ca_ok (ce_now en) fs \<Longrightarrow> load_or_create_ca en fs = (fs, Ok (the (cf_ca fs), the (cf_ca_key fs)))"
  by (auto simp: load_or_create_ca_def load_key_pair_def ca_ok_def Let_def)

lemma issue_covers: "issue_leaf en c k hosts = Ok (leaf, key) \<Longrightarrow> covers leaf hosts \<and> ct_key leaf = key \<and> ct_signer leaf = k \<and>
    ct_not_after leaf = ce_now en + validity \<and> ct_not_before leaf = ce_now en - hour"
  by (auto simp: issue_leaf_def covers_def dns_names_def ip_addrs_def list_all_iff split: option.splits list.splits if_splits)

lemma covers_cong: "set hosts = set hosts2 \<Longrightarrow> covers leaf hosts = covers leaf hosts2"
  by (auto simp: covers_def list_all_iff)



text \<open>
  C38: Ensure looks at the names of the leaf only. A leaf that has expired, or that an earlier
  authority signed, is kept by every later run with the same hosts: an expired leaf is trusted on
  no system, and one of an earlier authority is not trusted by trusting the authority on disk.
\<close>

theorem ensure_keeps_stale_leaf:
  assumes ca: "ca_ok (ce_now en) fs" "ce_dirs en"
    and leaf: "load_key_pair (cf_leaf fs) (cf_leaf_key fs) = Some (leaf, k)" "covers leaf hosts"
    and stale: "ct_not_after leaf < ce_now en \<or> ct_signer leaf \<noteq> ct_key (the (cf_ca fs))"
  shows "ensure_certs en hosts fs = (fs, Ok leaf) \<and>
    (if ct_not_after leaf < ce_now en then \<forall>roots. \<not> trusted (ce_now en) roots fs
     else \<not> trusted (ce_now en) (Some [the (cf_ca fs)]) fs \<or> the (cf_ca fs) = leaf)"
proof -
  have "covers leaf (sort hosts)" using leaf(2) covers_cong [of "sort hosts" hosts leaf] by simp
  then have "ensure_certs en hosts fs = (fs, Ok leaf)"
    using load_ca_ok [OF ca(1)] ca(2) leaf(1) by (simp add: ensure_certs_def Let_def)
  moreover have "cf_leaf fs = Some leaf" using leaf(1) by (auto simp: load_key_pair_def split: option.splits if_splits)
  ultimately show ?thesis using stale by (auto simp: trusted_def verifies_def valid_at_def split: option.splits)
qed

definition stale_certs :: cert_files where
  "stale_certs =
     \<lparr>cf_ca = Some \<lparr>ct_key = EcKey 1, ct_signer = EcKey 1, ct_name = ''roxey-ca'', ct_not_before = 0, ct_not_after = 1000, ct_ca = True, ct_dns = [], ct_ips = []\<rparr>,
      cf_ca_key = Some (EcKey 1),
      cf_leaf = Some \<lparr>ct_key = EcKey 2, ct_signer = EcKey 1, ct_name = ''app.dev'', ct_not_before = 0, ct_not_after = 50, ct_ca = False, ct_dns = [''app.dev''], ct_ips = []\<rparr>,
      cf_leaf_key = Some (EcKey 2)\<rparr>"

theorem ensure_keeps_stale_leaf_witness:
  "ensure_certs \<lparr>ce_now = 100, ce_ten_years = 1000, ce_dirs = True, ce_ca_key = None, ce_leaf_key = None,
      ce_writes = (Written, Written), ce_leaf_writes = (Written, Written)\<rparr> [''app.dev''] stale_certs =
     (stale_certs, Ok (the (cf_leaf stale_certs))) \<and> (\<forall>roots. \<not> trusted 100 roots stale_certs)"
  using ensure_keeps_stale_leaf [of "\<lparr>ce_now = 100, ce_ten_years = 1000, ce_dirs = True, ce_ca_key = None, ce_leaf_key = None,
      ce_writes = (Written, Written), ce_leaf_writes = (Written, Written)\<rparr>" stale_certs "the (cf_leaf stale_certs)" "EcKey 2" "[''app.dev'']"]
  by (simp add: stale_certs_def ca_ok_def load_key_pair_def covers_def)

end
