(* ===== verification/CliCommands.thy ===== *)
theory CliCommands
  imports Hosted Service DoctorState LocalCa
begin

text \<open>
  The remaining commands of \<open>cli/main.go\<close>: credentials, listings, logs, the doctor, projects and
  their autostart, the boot service, the one-time setup, the internal entry points, and the
  choice of a command. What a command prints is a value; the state it changes is returned.
\<close>

datatype command_error = CmdCli cli_error | NoKeyGiven | NoLogs string | DoctorFailures nat | RegistryPanic
  | PreviewAutostart | AgentFailed svc_error | DaemonFailed svc_error | NoBinary | RelayBinaryMissing relay_error
  | UnknownSubcommand string | NoTerminal | InstallFailed | HelperNeverUp | NoStateDir | NothingToServe
  | CertsFailed ca_error | CredentialsFailed | WorkerFailed worker_error

definition read_or :: "('k, 'v) gomap state_file \<Rightarrow> ('k, 'v) gomap" where
  "read_or fl = (case read_map fl of Inl _ \<Rightarrow> [] | Inr m \<Rightarrow> m)"

section \<open>Credentials\<close>

definition cmd_auth :: "string \<Rightarrow> string \<Rightarrow> bool \<Rightarrow> string list \<Rightarrow> servers state_file \<Rightarrow> servers state_file \<times> (command_error, string) res" where
  "cmd_auth domain input written args fl =
     (let (tld, rest) = parse_auth_args (default_tld domain) args;
          key = (case rest of k # _ \<Rightarrow> k | [] \<Rightarrow> trim_space input)
      in if key = [] then (fl, Err NoKeyGiven)
         else case set_server written tld (no_server\<lparr>sc_api_key := key\<rparr>) fl of
           (fl', Inl _) \<Rightarrow> (fl', Err (CmdCli StateUnwritable))
         | (fl', Inr _) \<Rightarrow> (fl', Ok (relay_host tld)))"

section \<open>Listings and logs\<close>

datatype list_row = TunnelRow string int bool string string | ServiceRow string int bool int string

definition cmd_list :: "(int \<Rightarrow> bool) \<Rightarrow> tunnels state_file \<Rightarrow> services state_file \<Rightarrow> (command_error, list_row list) res" where
  "cmd_list alive tf sf =
     (case (read_map tf, read_map sf) of
        (Inr tunnels, Inr services) \<Rightarrow>
          Ok (map (\<lambda>(k, i). TunnelRow k (ti_pid i) (alive (ti_pid i)) (ti_target i) (ti_started i)) tunnels @
              map (\<lambda>(k, s). ServiceRow k (si_pid s) (alive (si_pid s)) (si_port s) (si_command s)) services)
      | _ \<Rightarrow> Err (CmdCli StateUnreadable))"

text \<open>Of several services of the name, the last in iteration order gives the log file.\<close>

definition log_file_of :: "string \<Rightarrow> string \<Rightarrow> services \<Rightarrow> string" where
  "log_file_of dir name services =
     (let f = foldl (\<lambda>acc (_, svc). if si_name svc = name then si_log svc else acc) [] services
      in if f = [] then path_join [log_dir dir, sanitize_name name @ ''.log''] else f)"

definition cmd_logs :: "(string \<Rightarrow> bool) \<Rightarrow> string \<Rightarrow> string list \<Rightarrow> services state_file \<Rightarrow> (command_error, string) res" where
  "cmd_logs file_exists dir args sf =
     (case args of
        [] \<Rightarrow> Err (CmdCli (BadUsage Usage))
      | name # _ \<Rightarrow>
          (case read_map sf of
             Inl e \<Rightarrow> Err (CmdCli e)
           | Inr services \<Rightarrow>
               let f = log_file_of dir name services in if file_exists f then Ok f else Err (NoLogs name)))"

section \<open>Autostart names\<close>

text \<open>A registry that does not load is a nil pointer where the code ignores the error.\<close>

definition autostart_names :: "project_registry \<Rightarrow> string list" where
  "autostart_names rg =
     filter (\<lambda>n. case map_of rg n of None \<Rightarrow> False | Some p \<Rightarrow> p_autostart p \<and> \<not> p_preview p) (sorted_names rg)"

definition registry_or_panic :: "project_registry state_file \<Rightarrow> (command_error, project_registry) res" where
  "registry_or_panic fl = (case read_map fl of Inl _ \<Rightarrow> Err RegistryPanic | Inr rg \<Rightarrow> Ok rg)"

section \<open>The doctor\<close>

record doctor_env =
  de_probe :: probe
  de_alive :: "int \<Rightarrow> bool"
  de_os :: string
  de_home :: string
  de_cwd :: string
  de_here :: bool
  de_manifest :: "string \<Rightarrow> manifest option"

definition doctor_relays :: "probe \<Rightarrow> servers state_file \<Rightarrow> diagnostic list \<times> string list" where
  "doctor_relays pr sv =
     (case load_config sv of
        Inr (Some servers) \<Rightarrow>
          (let tlds = sort (map fst servers) in
           (concat (map (\<lambda>tld. if sc_local (saved_server sv tld) then check_local_relay pr tld else check_remote_relay pr tld) tlds), tlds))
      | _ \<Rightarrow> ([], []))"

definition info_of_manifest :: "doctor_env \<Rightarrow> string list \<Rightarrow> servers state_file \<Rightarrow> services state_file \<Rightarrow> string \<Rightarrow> manifest \<Rightarrow> manifest_info" where
  "info_of_manifest en checked sv sf path m =
     (let tld = rs_tld (mf_relay m); routes = concat (map (\<lambda>e. map (\<lambda>r. (me_host e, r)) (me_routes e)) (mf_envs m)) in
      \<lparr>mi_tld = tld, mi_local = rs_local (mf_relay m),
       mi_has_key = (rs_api_key (mf_relay m) \<noteq> [] \<or> sc_api_key (saved_server sv tld) \<noteq> []),
       mi_skip = (tld \<in> set checked),
       mi_owned = foldl (\<lambda>acc (_, svc). if si_manifest svc = path_abs (de_cwd en) path \<and> de_alive en (si_pid svc)
           then gput (si_port svc) (si_name svc) acc else acc) [] (read_or sf),
       mi_runs = map (\<lambda>(h, r). \<lparr>rk_name = h @ rt_path r, rk_cwd = rt_cwd r, rk_command = rt_command r, rk_port = rt_port r\<rparr>) (filter (\<lambda>(_, r). is_run r) routes),
       mi_targets = map (\<lambda>(_, r). rt_target r) (filter (\<lambda>(_, r). \<not> is_run r) routes)\<rparr>)"

datatype doctor_line = DoctorDiagnosis diagnostic | ManifestInvalidLine string

definition line_failed :: "doctor_line \<Rightarrow> bool" where
  "line_failed l = (case l of DoctorDiagnosis d \<Rightarrow> dg_status d = StFail | ManifestInvalidLine _ \<Rightarrow> True)"

definition doctor_manifest :: "doctor_env \<Rightarrow> string list \<Rightarrow> servers state_file \<Rightarrow> services state_file \<Rightarrow> string \<Rightarrow> doctor_line list" where
  "doctor_manifest en checked sv sf path =
     (if path = [] then []
      else case de_manifest en path of
        None \<Rightarrow> [ManifestInvalidLine path]
      | Some m \<Rightarrow> map DoctorDiagnosis (check_manifest (de_probe en) (info_of_manifest en checked sv sf path m)))"

definition doctor_path :: "doctor_env \<Rightarrow> string list \<Rightarrow> project_registry state_file \<Rightarrow> (command_error, string) res" where
  "doctor_path en args pf =
     (let (fl, project) = parse_doctor_args [] [] args in
      if project = [] then Ok fl
      else case read_map pf of
        Inl e \<Rightarrow> Err (CmdCli e)
      | Inr rg \<Rightarrow> (case get_project rg project of None \<Rightarrow> Err (CmdCli (UnknownProject project)) | Some p \<Rightarrow> Ok (path_join [p_path p, ''roxey.yaml''])))"

text \<open>The lines reported, the projects with autostart and whether their unit is there, and the result.\<close>

definition cmd_doctor ::
  "doctor_env \<Rightarrow> string list \<Rightarrow> servers state_file \<Rightarrow> tunnels state_file \<Rightarrow> services state_file \<Rightarrow> project_registry state_file \<Rightarrow> files \<Rightarrow>
     doctor_line list \<times> (string \<times> bool) list \<times> (command_error, unit) res"
where
  "cmd_doctor en args sv tf sf pf units =
     (case doctor_path en args pf of
        Inl e \<Rightarrow> ([], [], Err e)
      | Inr fl \<Rightarrow>
          (let (relays, checked) = doctor_relays (de_probe en) sv;
               fixed = map DoctorDiagnosis (check_state (de_alive en) sv tf sf @ check_helper (de_probe en) @ relays);
               on = (de_os en = ''darwin'' \<or> de_os en = ''linux'')
           in case (if on then registry_or_panic pf else Ok []) of
                Inl e \<Rightarrow> ([], [], Err e)
              | Inr rg \<Rightarrow>
                  (let auto = (if on then map (\<lambda>n. (n, project_agent_installed (de_os en) (de_home en) n units)) (autostart_names rg) else []);
                       fl2 = (if fl = [] \<and> de_here en then ''roxey.yaml'' else fl);
                       ls = fixed @ doctor_manifest en checked sv sf fl2;
                       fails = length (filter line_failed ls)
                   in (ls, auto, if 0 < fails then Err (DoctorFailures fails) else Ok ()))))"

section \<open>The boot service\<close>

record service_env =
  se_os :: string
  se_home :: string
  se_uid :: string
  se_exe :: "string option"
  se_state_dir :: string
  se_machine :: machine
  se_works :: "string list \<Rightarrow> bool"
  se_tmp :: "string option"
  se_written :: bool
  se_health :: "string \<Rightarrow> bool"
  se_daemon :: bool
  se_socket :: bool

text \<open>Agents of several projects: a failure is a warning and the next follows.\<close>

fun install_agents :: "service_env \<Rightarrow> manager \<Rightarrow> string list \<Rightarrow> files \<Rightarrow> files \<times> string list list" where
  "install_agents en m [] fs = (fs, [])"
| "install_agents en m (n # ns) fs =
     (let (fs1, rn1, _) = install_project_agent (se_works en) m (se_os en) (se_home en) (se_uid en) (se_written en) n fs;
          (fs2, rn2) = install_agents en m ns fs1
      in (fs2, rn1 @ rn2))"

fun uninstall_agents :: "service_env \<Rightarrow> string list \<Rightarrow> files \<Rightarrow> files \<times> string list list" where
  "uninstall_agents en [] fs = (fs, [])"
| "uninstall_agents en (n # ns) fs =
     (let (fs1, rn1, _) = uninstall_project_agent (se_works en) (se_os en) (se_home en) (se_uid en) n fs;
          (fs2, rn2) = uninstall_agents en ns fs1
      in (fs2, rn1 @ rn2))"

record service_status =
  ss_daemon :: bool
  ss_socket :: bool
  ss_health :: bool
  ss_tld :: string
  ss_auto :: "string list"

datatype service_output = ServiceDone | ServiceStatus service_status

definition cmd_service ::
  "service_env \<Rightarrow> string list \<Rightarrow> project_registry state_file \<Rightarrow> files \<Rightarrow> files \<times> string list list \<times> (command_error, service_output) res"
where
  "cmd_service en args pf fs =
     (case args of
        [] \<Rightarrow> (fs, [], Err (CmdCli (BadUsage Usage)))
      | a # _ \<Rightarrow>
          (case new_manager (se_exe en) (se_state_dir en) of
             None \<Rightarrow> (fs, [], Err NoBinary)
           | Some m \<Rightarrow>
               if a = ''install'' then
                 (case read_map pf of
                    Inl e \<Rightarrow> (fs, [], Err (CmdCli e))
                  | Inr rg \<Rightarrow>
                      (case ensure_binary (se_machine en) (se_state_dir en) of
                         Inl e \<Rightarrow> (fs, [], Err (RelayBinaryMissing e))
                       | Inr bin \<Rightarrow>
                           (case svc_install_daemon (se_works en) m (se_os en) (se_machine en) (se_state_dir en) bin (se_tmp en) fs of
                              (fs1, rn, Inl e) \<Rightarrow> (fs1, rn, Err (DaemonFailed e))
                            | (fs1, rn, Inr _) \<Rightarrow> (let (fs2, rn2) = install_agents en m (autostart_names rg) fs1 in (fs2, rn @ rn2, Ok ServiceDone)))))
               else if a = ''uninstall'' then
                 (case registry_or_panic pf of
                    Inl e \<Rightarrow> (fs, [], Err e)
                  | Inr rg \<Rightarrow>
                      (let (fs1, rn) = uninstall_agents en (autostart_names rg) fs;
                           (fs2, rn2, r) = uninstall_daemon (se_works en) (se_os en) fs1
                       in (fs2, rn @ rn2, case r of Inl e \<Rightarrow> Err (DaemonFailed e) | Inr _ \<Rightarrow> Ok ServiceDone)))
               else if a = ''status'' then
                 (case registry_or_panic pf of
                    Inl e \<Rightarrow> (fs, [], Err e)
                  | Inr rg \<Rightarrow>
                      (let tld = primary_local_tld rg in
                       (fs, [], Ok (ServiceStatus \<lparr>ss_daemon = se_daemon en, ss_socket = se_socket en, ss_health = se_health en tld,
                          ss_tld = tld, ss_auto = autostart_names rg\<rparr>))))
               else (fs, [], Err (UnknownSubcommand a))))"

section \<open>Projects\<close>

record project_row =
  rw_name :: string
  rw_status :: string
  rw_tag :: string
  rw_path :: string

definition project_rows :: "(int \<Rightarrow> bool) \<Rightarrow> project_registry \<Rightarrow> tunnels state_file \<Rightarrow> services state_file \<Rightarrow> project_row list" where
  "project_rows alive rg tf sf =
     List.map_filter (\<lambda>n. map_option (\<lambda>p. \<lparr>rw_name = n, rw_status = fst (project_status alive p (read_or tf) (read_or sf)),
        rw_tag = (if p_preview p then p_branch p else []), rw_path = p_path p\<rparr>) (map_of rg n)) (sorted_names rg)"

datatype projects_output = AutostartSet string bool | Forgot string | ProjectRows "string list" "project_row list"

definition set_autostart :: "bool \<Rightarrow> string \<Rightarrow> project_registry \<Rightarrow> project_registry" where
  "set_autostart b name rg = (case map_of rg name of None \<Rightarrow> rg | Some p \<Rightarrow> gput name (p\<lparr>p_autostart := b\<rparr>) rg)"

definition cmd_projects ::
  "service_env \<Rightarrow> (int \<Rightarrow> bool) \<Rightarrow> (string \<Rightarrow> bool) \<Rightarrow> bool \<Rightarrow> string list \<Rightarrow> tunnels state_file \<Rightarrow> services state_file \<Rightarrow>
     project_registry state_file \<times> files \<Rightarrow> (project_registry state_file \<times> files) \<times> (command_error, projects_output) res"
where
  "cmd_projects en alive is_dir saved args tf sf st =
     (let (pf, fs) = st in
      case parse_projects_args \<lparr>po_forget = [], po_prune = False, po_autostart = [], po_on = True\<rparr> args of
        Inl e \<Rightarrow> (st, Err (CmdCli (BadUsage e)))
      | Inr po \<Rightarrow>
          (case read_map pf of
             Inl e \<Rightarrow> (st, Err (CmdCli e))
           | Inr rg \<Rightarrow>
               if po_autostart po \<noteq> [] then
                 (let name = po_autostart po in
                  case get_project rg name of
                    None \<Rightarrow> (st, Err (CmdCli (UnknownProject name)))
                  | Some p \<Rightarrow>
                      if p_preview p then (st, Err PreviewAutostart)
                      else if \<not> saved then (st, Err (CmdCli StateUnwritable))
                      else
                        let pf' = Holds (set_autostart (po_on po) name rg) in
                        case new_manager (se_exe en) (se_state_dir en) of
                          None \<Rightarrow> ((pf', fs), Err NoBinary)
                        | Some m \<Rightarrow>
                            (let (fs', _, r) = (if po_on po then install_project_agent (se_works en) m (se_os en) (se_home en) (se_uid en) (se_written en) name fs
                               else uninstall_project_agent (se_works en) (se_os en) (se_home en) (se_uid en) name fs)
                             in ((pf', fs'), case r of Inl e \<Rightarrow> Err (AgentFailed e) | Inr _ \<Rightarrow> Ok (AutostartSet name (po_on po)))))
               else if po_forget po \<noteq> [] then
                 (case forget_project saved (rg, Some rg) (po_forget po) of
                    (_, False) \<Rightarrow> (st, Err (CmdCli (UnknownProject (po_forget po))))
                  | ((rg', _), True) \<Rightarrow> ((if saved then Holds rg' else pf, fs), Ok (Forgot (po_forget po))))
               else
                 (let ((rg', _), gone) = prune_projects is_dir saved (rg, Some rg) in
                  ((if gone \<noteq> [] \<and> saved then Holds rg' else pf, fs),
                   Ok (ProjectRows (if po_prune po then gone else []) (project_rows alive rg' tf sf))))))"

end
