(* ===== verification/CliMain.thy ===== *)
theory CliMain
  imports CliCommands
begin

text \<open>
  The one-time setup, the entry points that run as root, the worker's entry, and \<open>main\<close> of
  \<open>cli/main.go\<close>.
\<close>

section \<open>Setup\<close>

text \<open>The result is the list of hosts set up, empty when no local project is registered.\<close>

datatype setup_error = SetupNoTerminal | SetupInstall | SetupNoHelper

definition cmd_setup :: "local_env \<Rightarrow> string \<Rightarrow> up_world \<Rightarrow> (up_world \<times> (setup_error + up_error, string list) res) option" where
  "cmd_setup le dir w =
     (let here = helper_available le;
          fin = (\<lambda>w1. case up_bind (up_get uw_projects (\<lambda>fl. up_cli (read_map fl))) (\<lambda>rg.
               let hosts = all_local_host_fqdns rg in
               if hosts = [] then up_return []
               else if \<not> le_certs le then up_fail LocalCerts
               else up_bind (apply_via_helper le (primary_local_tld rg) hosts) (\<lambda>_. up_return hosts)) w1 of
             None \<Rightarrow> None
           | Some (w2, Inl e) \<Rightarrow> Some (w2, Err (Inr e))
           | Some (w2, Inr hosts) \<Rightarrow> Some (w2, Ok hosts))
      in if \<not> le_interactive le \<and> \<not> here then Some (w, Err (Inl SetupNoTerminal))
         else if here then fin w
         else case install_daemon le dir w of
           None \<Rightarrow> None
         | Some (w1, Inl e) \<Rightarrow> Some (w1, Err (Inr e))
         | Some (w1, Inr False) \<Rightarrow> Some (w1, Err (Inl SetupInstall))
         | Some (w1, Inr True) \<Rightarrow>
             (case wait_until (fst (le_helper_wait le) + 15) (snd (le_helper_wait le)) of
                None \<Rightarrow> None
              | Some False \<Rightarrow> Some (w1, Err (Inl SetupNoHelper))
              | Some True \<Rightarrow> fin w1))"

section \<open>Entry points run as root\<close>

fun parse_state_dir :: "string \<Rightarrow> string list \<Rightarrow> string" where
  "parse_state_dir dir [] = dir"
| "parse_state_dir dir (a # rest) =
     (if a = ''--state-dir'' \<and> rest \<noteq> [] then parse_state_dir (hd rest) (tl rest) else parse_state_dir dir rest)"

text \<open>What is executed: the program, its arguments and its environment.\<close>

record exec =
  ex_path :: string
  ex_args :: "string list"
  ex_env :: "string list"

record relay_start =
  rs_name :: string
  rs_pass :: string
  rs_saved :: bool
  rs_machine :: machine
  rs_trusted :: bool
  rs_environ :: "string list"

definition service_hosts :: "project_registry \<Rightarrow> string list" where
  "service_hosts rg = dedupe (all_local_host_fqdns rg @ (if primary_local_tld rg = ''localhost'' then [''localhost''] else []))"

text \<open>
  The state it may change is the certificates and the saved servers; a CA that cannot be trusted
  is a warning.
\<close>

definition cmd_service_relay ::
  "relay_start \<Rightarrow> ca_env \<Rightarrow> string list \<Rightarrow> project_registry state_file \<Rightarrow> servers state_file \<times> cert_files \<Rightarrow>
     (servers state_file \<times> cert_files) \<times> (command_error, exec) res"
where
  "cmd_service_relay en ce args pf st =
     (let (sv, certs) = st; dir = parse_state_dir [] args in
      if dir = [] then (st, Err NoStateDir)
      else case read_map pf of
        Inl e \<Rightarrow> (st, Err (CmdCli e))
      | Inr rg \<Rightarrow>
          (let tld = primary_local_tld rg in
           if tld = [] then (st, Err NothingToServe)
           else case ensure_certs ce (service_hosts rg) certs of
             (certs', Inl e) \<Rightarrow> ((sv, certs'), Err (CertsFailed e))
           | (certs', Inr _) \<Rightarrow>
               (case ensure_binary (rs_machine en) dir of
                  Inl e \<Rightarrow> ((sv, certs'), Err (RelayBinaryMissing e))
                | Inr bin \<Rightarrow>
                    (case relay_credentials (rs_name en) (rs_pass en) (rs_saved en) tld sv of
                       (sv', Inl _) \<Rightarrow> ((sv', certs'), Err CredentialsFailed)
                     | (sv', Inr creds) \<Rightarrow>
                         ((sv', certs'), Ok \<lparr>ex_path = bin, ex_args = [bin], ex_env = rs_environ en @ relay_env dir tld creds\<rparr>)))))"

text \<open>\<open>cmdDaemon\<close> up to \<open>RunDaemon\<close>: the state directory and the relay binary it is given.\<close>

definition cmd_daemon :: "string \<Rightarrow> machine \<Rightarrow> string list \<Rightarrow> (command_error, string \<times> string) res" where
  "cmd_daemon os mc args =
     (let (dir, relayBin) = parse_daemon_args [] [] args in
      if dir = [] then Err NoStateDir
      else if relayBin \<noteq> [] then Ok (dir, relayBin)
      else if mc_exists mc (root_binary os ''roxey-relay'') then Ok (dir, root_binary os ''roxey-relay'')
      else case ensure_binary mc dir of Inl e \<Rightarrow> Err (RelayBinaryMissing e) | Inr p \<Rightarrow> Ok (dir, p))"

definition cmd_install_daemon :: "service_env \<Rightarrow> string list \<Rightarrow> files \<Rightarrow> files \<times> string list list \<times> (command_error, unit) res" where
  "cmd_install_daemon en args fs =
     (let (dir, relayBin) = parse_daemon_args [] [] args in
      if dir = [] then (fs, [], Err NoStateDir)
      else case new_manager (se_exe en) dir of
        None \<Rightarrow> (fs, [], Err NoBinary)
      | Some m \<Rightarrow>
          (case svc_install_daemon (se_works en) m (se_os en) (se_machine en) dir relayBin (se_tmp en) fs of
             (fs', rn, Inl e) \<Rightarrow> (fs', rn, Err (DaemonFailed e))
           | (fs', rn, Inr _) \<Rightarrow> (fs', rn, Ok ())))"

definition cmd_run ::
  "servers state_file \<Rightarrow> string list \<Rightarrow> bool \<times> string option \<times> bool \<Rightarrow> hold_event list \<Rightarrow> string list \<Rightarrow> (command_error, unit) res option"
where
  "cmd_run sv es answers events args =
     (case parse_run_args args of
        Inl e \<Rightarrow> Some (Err (CmdCli (BadUsage e)))
      | Inr r \<Rightarrow>
          (case worker_run sv es r answers events of
             None \<Rightarrow> None
           | Some (Inl e) \<Rightarrow> Some (Err (WorkerFailed e))
           | Some (Inr _) \<Rightarrow> Some (Ok ())))"

section \<open>Main\<close>

datatype subcommand = CmdAuth | CmdStart | CmdStop | CmdList | CmdProjects | CmdUp | CmdDown | CmdLogs | CmdDoctor | CmdService
  | CmdSetup | CmdServiceRelay | CmdDaemon | CmdInstallDaemon | CmdRun

definition subcommand_table :: "(string \<times> subcommand) list" where
  "subcommand_table =
     [(''auth'', CmdAuth), (''start'', CmdStart), (''stop'', CmdStop), (''list'', CmdList), (''projects'', CmdProjects), (''up'', CmdUp),
      (''down'', CmdDown), (''logs'', CmdLogs), (''doctor'', CmdDoctor), (''service'', CmdService), (''setup'', CmdSetup),
      (''_service-relay'', CmdServiceRelay), (''_daemon'', CmdDaemon), (''_install-daemon'', CmdInstallDaemon), (''_run'', CmdRun)]"

text \<open>\<open>main\<close>: the command and its arguments (\<open>None\<close>: the usage is printed), and the exit status.\<close>

definition main_command :: "string list \<Rightarrow> (subcommand \<times> string list) option" where
  "main_command args =
     (case args of
        _ # c # rest \<Rightarrow> map_option (\<lambda>s. (s, rest)) (map_of subcommand_table c)
      | _ \<Rightarrow> None)"

definition main_exit :: "string list \<Rightarrow> (subcommand \<Rightarrow> string list \<Rightarrow> ('e, unit) res) \<Rightarrow> nat" where
  "main_exit args exec = (case main_command args of None \<Rightarrow> 1 | Some (s, rest) \<Rightarrow> if is_ok (exec s rest) then 0 else 1)"

end
