(* ===== verification/MainProps.thy ===== *)
theory MainProps
  imports CliMain UpSteps
begin

text \<open>
  The commands around the runs: autostart units and what becomes of them, the command lines roxey
  composes for itself, and the boot relay without projects.
\<close>

section \<open>Unit files\<close>

definition plain_elem :: "string \<Rightarrow> bool" where
  "plain_elem w \<longleftrightarrow> w \<noteq> [] \<and> w \<noteq> ''.'' \<and> w \<noteq> ''..'' \<and> CHR ''/'' \<notin> set w"

lemma clean_elems_snoc: "plain_elem w \<Longrightarrow> clean_elems r (ws @ [w]) = clean_elems r ws @ [w]"
  by (simp add: clean_elems_def plain_elem_def)

lemma path_base_last:
  assumes "plain_elem w"
  shows "path_base w = w" "path_base (d @ CHR ''/'' # w) = w"
proof -
  have "\<not> is_slash (last w)" using assms last_in_set [of w] unfolding plain_elem_def is_slash_def by metis
  then have t: "trim_right is_slash w = w" "trim_right is_slash (d @ CHR ''/'' # w) = d @ CHR ''/'' # w"
    using assms by (simp_all add: trim_right_id plain_elem_def)
  have "cut_last w CHR ''/'' = None" "cut_last (d @ CHR ''/'' # w) CHR ''/'' = Some (d, w)"
    using assms by (simp_all add: cut_last_None cut_last_Some plain_elem_def)
  then show "path_base w = w" "path_base (d @ CHR ''/'' # w) = w" using assms t by (simp_all add: path_base_def plain_elem_def Let_def)
qed

lemma path_base_join: "plain_elem w \<Longrightarrow> path_base (path_join [d, w]) = w"
proof -
  assume w: "plain_elem w"
  have join: "path_base (x @ str_join ''/'' (es @ [w])) = w" if "x = [] \<or> x = ''/''" for x es
    using that path_base_last [OF w] path_base_last(2) [OF w, of "x @ str_join ''/'' es"] path_base_last(2) [OF w, of "[]"]
    by (cases "es = []") (auto simp: str_join_append)
  have clean: "path_base (path_clean s) = w" if "s \<noteq> []" "str_split CHR ''/'' s = ws @ [w]" for s ws
    using that join [of "''/''" "clean_elems True ws"] join [of "[]" "clean_elems False ws"]
    by (auto simp: path_clean_def clean_elems_snoc [OF w] Let_def)
  have "str_split CHR ''/'' w = [] @ [w]" "str_split CHR ''/'' (d @ CHR ''/'' # w) = str_split CHR ''/'' d @ [w]"
    using w by (simp_all add: str_split_word str_split_append_sep plain_elem_def)
  then show ?thesis using clean [of w "[]"] clean [of "d @ CHR ''/'' # w" "str_split CHR ''/'' d"] w by (simp add: path_join_def plain_elem_def)
qed

lemma agent_unit_plain: "CHR ''/'' \<notin> set name \<Longrightarrow> plain_elem (agent_unit os name)"
  by (auto simp: plain_elem_def agent_unit_def project_label_pfx_def)

lemma agent_path_base: "CHR ''/'' \<notin> set name \<Longrightarrow> path_base (agent_path os home name) = agent_unit os name"
  by (simp add: agent_path_def path_base_join agent_unit_plain)

lemma agent_path_inj:
  "CHR ''/'' \<notin> set name \<Longrightarrow> CHR ''/'' \<notin> set name2 \<Longrightarrow> agent_path os home name = agent_path os home name2 \<longleftrightarrow> name = name2"
  using agent_path_base [of name os home] agent_path_base [of name2 os home] by (auto simp: agent_unit_def project_label_pfx_def split: if_splits)

lemma agent_cmds_files: "fst (svc_run works (agent_install_cmds os home uid name) fs) = fs"
  by (simp add: agent_install_cmds_def cmd_effect_def drop_sudo_def Let_def split: prod.splits)

lemma uninstall_agents_other:
  "\<forall>n\<in>set ns. agent_path (se_os en) (se_home en) n \<noteq> path \<Longrightarrow> map_of (fst (uninstall_agents en ns fs)) path = map_of fs path"
proof (induction ns arbitrary: fs)
  case (Cons n ns)
  let ?r = "uninstall_project_agent (se_works en) (se_os en) (se_home en) (se_uid en) n fs"
  have "map_of (fst ?r) path = map_of fs path" using Cons.prems by (auto simp: uninstall_project_agent_def Let_def)
  then show ?case using Cons by (simp add: case_prod_unfold Let_def)
qed simp

section \<open>Autostart\<close>

definition autostart_flag :: "bool \<Rightarrow> string" where
  "autostart_flag b = (if b then ''--autostart'' else ''--autostart-off'')"

lemma parse_autostart:
  "parse_projects_args \<lparr>po_forget = [], po_prune = False, po_autostart = [], po_on = True\<rparr> [autostart_flag b, name] =
     Ok \<lparr>po_forget = [], po_prune = False, po_autostart = name, po_on = b\<rparr>"
  by (simp add: autostart_flag_def has_prefix_def)

lemma projects_autostart:
  assumes "cmd_projects en alive is_dir True [autostart_flag b, name] tf sf (Holds rg, fs) = ((pf', fs'), Ok out)" "name \<noteq> []"
  shows "\<exists>p bin. map_of rg name = Some p \<and> \<not> p_preview p \<and> se_exe en = Some bin \<and> (se_os en = ''darwin'' \<or> se_os en = ''linux'') \<and>
    pf' = Holds (set_autostart b name rg) \<and>
    map_of fs' = (map_of fs)(agent_path (se_os en) (se_home en) name :=
      (if b then Some (agent_text \<lparr>mg_bin = bin, mg_state_dir = se_state_dir en\<rparr> (se_os en) name) else None))"
proof -
  note run = assms(1) [unfolded cmd_projects_def parse_autostart, simplified]
  obtain p where p: "map_of rg name = Some p" "\<not> p_preview p"
    using run assms(2) by (auto simp: read_map_def load_map_def get_project_def split: option.splits if_splits)
  obtain bin where bin: "se_exe en = Some bin"
    using run assms(2) p by (cases "se_exe en") (auto simp: read_map_def load_map_def get_project_def new_manager_def Let_def)
  let ?m = "\<lparr>mg_bin = bin, mg_state_dir = se_state_dir en\<rparr>"
  have "pf' = Holds (set_autostart b name rg) \<and> (se_os en = ''darwin'' \<or> se_os en = ''linux'') \<and>
    map_of fs' = (map_of fs)(agent_path (se_os en) (se_home en) name := (if b then Some (agent_text ?m (se_os en) name) else None))"
    using run assms(2) p bin agent_cmds_files [of "se_works en" "se_os en" "se_home en" "se_uid en" name]
    by (cases b)
      (auto simp: read_map_def load_map_def get_project_def new_manager_def install_project_agent_def uninstall_project_agent_def case_prod_unfold Let_def
        split: if_splits sum.splits)
  then show ?thesis using p bin by blast
qed

lemma autostart_names_iff:
  "n \<in> set (autostart_names rg) \<longleftrightarrow> (\<exists>p. map_of rg n = Some p \<and> p_autostart p \<and> \<not> p_preview p)"
proof (cases "map_of rg n")
  case (Some p)
  then have "n \<in> fst ` set rg" by (force dest: map_of_SomeD)
  then show ?thesis using Some by (simp add: autostart_names_def sorted_names_def)
qed (simp add: autostart_names_def)

text \<open>
  Switching a project's autostart on leaves its unit on disk with the command line that brings
  the project up, and the registry saying so; switching it off removes exactly that unit and the
  mark. Units of other projects, and everything else of the registry, stay as they were.
\<close>

theorem autostart_roundtrip:
  assumes on: "cmd_projects en alive is_dir True [''--autostart'', name] tf sf (Holds rg, fs) = ((pf1, fs1), Ok out1)"
    and off: "cmd_projects en alive is_dir True [''--autostart-off'', name] tf sf (pf1, fs1) = ((pf2, fs2), Ok out2)"
    and name: "name \<noteq> []" "CHR ''/'' \<notin> set name"
  shows "\<exists>p m. map_of rg name = Some p \<and> \<not> p_preview p \<and> mg_bin m = the (se_exe en) \<and>
    map_of (content pf1) = (map_of rg)(name \<mapsto> p\<lparr>p_autostart := True\<rparr>) \<and> name \<in> set (autostart_names (content pf1)) \<and>
    map_of fs1 = (map_of fs)(agent_path (se_os en) (se_home en) name \<mapsto> agent_text m (se_os en) name) \<and>
    project_agent_installed (se_os en) (se_home en) name fs1 \<and>
    map_of (content pf2) = (map_of rg)(name \<mapsto> p\<lparr>p_autostart := False\<rparr>) \<and>
    map_of fs2 = (map_of fs)(agent_path (se_os en) (se_home en) name := None) \<and>
    (\<forall>n. CHR ''/'' \<notin> set n \<and> n \<noteq> name \<longrightarrow>
       project_agent_installed (se_os en) (se_home en) n fs2 = project_agent_installed (se_os en) (se_home en) n fs)"
proof -
  let ?path = "agent_path (se_os en) (se_home en) name"
  note step1 = projects_autostart [where b = True, unfolded autostart_flag_def, simplified, OF on name(1)]
  obtain p bin where p: "map_of rg name = Some p" "\<not> p_preview p" "se_exe en = Some bin" "se_os en = ''darwin'' \<or> se_os en = ''linux''"
    and pf1: "pf1 = Holds (set_autostart True name rg)"
    and fs1: "map_of fs1 = (map_of fs)(?path \<mapsto> agent_text \<lparr>mg_bin = bin, mg_state_dir = se_state_dir en\<rparr> (se_os en) name)"
    using step1 by auto
  note step2 = projects_autostart [where b = False, unfolded autostart_flag_def, simplified, OF off [unfolded pf1] name(1)]
  have pf2: "pf2 = Holds (set_autostart False name (set_autostart True name rg))" and fs2: "map_of fs2 = (map_of fs)(?path := None)"
    using step2 fs1 by auto
  have p1: "map_of (set_autostart True name rg) = (map_of rg)(name \<mapsto> p\<lparr>p_autostart := True\<rparr>)" using p by (simp add: set_autostart_def)
  have auto: "name \<in> set (autostart_names (set_autostart True name rg))" using p(2) by (simp add: autostart_names_iff p1)
  have others: "project_agent_installed (se_os en) (se_home en) n fs2 = project_agent_installed (se_os en) (se_home en) n fs"
    if "CHR ''/'' \<notin> set n" "n \<noteq> name" for n
    using that agent_path_inj [OF that(1) name(2)] by (auto simp: project_agent_installed_def fs2)
  show ?thesis
    using p auto others fs1 fs2
    by (intro exI [of _ p] exI [of _ "\<lparr>mg_bin = bin, mg_state_dir = se_state_dir en\<rparr>"])
      (auto simp: pf1 pf2 p1 content_def set_autostart_def project_agent_installed_def)
qed

definition demo_service :: service_env where
  "demo_service = \<lparr>se_os = ''linux'', se_home = ''/h'', se_uid = ''501'', se_exe = Some ''/bin/roxey'', se_state_dir = ''/h/.roxey'',
     se_machine = \<lparr>mc_override = [], mc_exists = (\<lambda>_. True), mc_binary = True, mc_os = ''linux'', mc_arch = ''amd64'', mc_release = None,
       mc_archive = (\<lambda>_. None), mc_dirs = True, mc_copied = True, mc_renamed = True, mc_chmod = True\<rparr>,
     se_works = (\<lambda>_. True), se_tmp = Some ''/tmp/x'', se_written = True, se_health = (\<lambda>_. True), se_daemon = True, se_socket = True\<rparr>"

definition app_registry :: project_registry where
  "app_registry = [(''app'', new_project ''t'' ''app'' ''/w/app'' ''dev'' True [''app''] [] False)]"

lemma demo_autostart:
  "\<exists>pf1 fs1 out1. cmd_projects demo_service (\<lambda>_. False) (\<lambda>_. True) True [''--autostart'', ''app''] Missing Missing (Holds app_registry, []) = ((pf1, fs1), Ok out1)"
  "\<exists>pf2 fs2 out2. cmd_projects demo_service (\<lambda>_. False) (\<lambda>_. True) True [''--autostart-off'', ''app''] Missing Missing
     (Holds (set_autostart True ''app'' app_registry), fs) = ((pf2, fs2), Ok out2)"
proof -
  have p: "map_of app_registry ''app'' = Some (new_project ''t'' ''app'' ''/w/app'' ''dev'' True [''app''] [] False)" by (simp add: app_registry_def)
  have w: "svc_run (\<lambda>_. True) (agent_install_cmds ''linux'' h u n) fs = (fs, [[''systemctl'', ''--user'', ''daemon-reload''], [''systemctl'', ''--user'', ''enable'', ''--now'', agent_unit ''linux'' n]], Ok ())" for h u n fs
    by (simp add: agent_install_cmds_def cmd_effect_def drop_sudo_def Let_def)
  have on: "parse_projects_args \<lparr>po_forget = [], po_prune = False, po_autostart = [], po_on = True\<rparr> [''--autostart'', ''app''] =
      Ok \<lparr>po_forget = [], po_prune = False, po_autostart = ''app'', po_on = True\<rparr>"
    and off: "parse_projects_args \<lparr>po_forget = [], po_prune = False, po_autostart = [], po_on = True\<rparr> [''--autostart-off'', ''app''] =
      Ok \<lparr>po_forget = [], po_prune = False, po_autostart = ''app'', po_on = False\<rparr>"
    using parse_autostart [of True "''app''"] parse_autostart [of False "''app''"] by (simp_all add: autostart_flag_def)
  show "\<exists>pf1 fs1 out1. cmd_projects demo_service (\<lambda>_. False) (\<lambda>_. True) True [''--autostart'', ''app''] Missing Missing (Holds app_registry, []) = ((pf1, fs1), Ok out1)"
    by (simp add: cmd_projects_def on read_map_def load_map_def get_project_def p new_project_def new_manager_def demo_service_def install_project_agent_def w Let_def)
  show "\<exists>pf2 fs2 out2. cmd_projects demo_service (\<lambda>_. False) (\<lambda>_. True) True [''--autostart-off'', ''app''] Missing Missing
     (Holds (set_autostart True ''app'' app_registry), fs) = ((pf2, fs2), Ok out2)"
    by (simp add: cmd_projects_def off read_map_def load_map_def get_project_def p new_project_def new_manager_def demo_service_def uninstall_project_agent_def
        set_autostart_def Let_def)
qed

theorem autostart_roundtrip_witness:
  "\<exists>pf1 fs1 out1 pf2 fs2 out2. cmd_projects demo_service (\<lambda>_. False) (\<lambda>_. True) True [''--autostart'', ''app''] Missing Missing (Holds app_registry, []) = ((pf1, fs1), Ok out1) \<and>
     cmd_projects demo_service (\<lambda>_. False) (\<lambda>_. True) True [''--autostart-off'', ''app''] Missing Missing (pf1, fs1) = ((pf2, fs2), Ok out2) \<and>
     project_agent_installed ''linux'' ''/h'' ''app'' fs1 \<and> map_of fs2 = Map.empty"
proof -
  obtain pf1 fs1 out1 where on: "cmd_projects demo_service (\<lambda>_. False) (\<lambda>_. True) True [''--autostart'', ''app''] Missing Missing (Holds app_registry, []) = ((pf1, fs1), Ok out1)"
    using demo_autostart(1) by blast
  have "pf1 = Holds (set_autostart True ''app'' app_registry)"
    using projects_autostart [where b = True, unfolded autostart_flag_def, simplified, OF on] by auto
  then obtain pf2 fs2 out2 where off: "cmd_projects demo_service (\<lambda>_. False) (\<lambda>_. True) True [''--autostart-off'', ''app''] Missing Missing (pf1, fs1) = ((pf2, fs2), Ok out2)"
    using demo_autostart(2) by blast
  have s: "se_os demo_service = ''linux''" "se_home demo_service = ''/h''" by (simp_all add: demo_service_def)
  have "project_agent_installed ''linux'' ''/h'' ''app'' fs1 \<and> map_of fs2 = (map_of [])(agent_path ''linux'' ''/h'' ''app'' := None)"
    using autostart_roundtrip [OF on off, unfolded s] by auto
  then show ?thesis using on off by auto
qed

section \<open>Autostart forgotten\<close>

definition cmd_words :: "svc_cmd \<Rightarrow> string list" where
  "cmd_words c = (case c of Must ws \<Rightarrow> ws | Try ws \<Rightarrow> ws)"

definition spares :: "string \<Rightarrow> string list \<Rightarrow> bool" where
  "spares path ws \<longleftrightarrow> (\<forall>fs. map_of (cmd_effect ws fs) path = map_of fs path)"

lemma svc_run_spares: "\<forall>c\<in>set cs. spares path (cmd_words c) \<Longrightarrow> map_of (fst (svc_run works cs fs)) path = map_of fs path"
  by (induction works cs fs rule: svc_run.induct) (auto simp: spares_def cmd_words_def case_prod_unfold Let_def)

lemma map_of_filter_key: "map_of (filter (\<lambda>(k, _). P k) fs) k = (if P k then map_of fs k else None)"
  by (induction fs) auto

lemma spares_sudo:
  "spares path [''sudo'', ''systemctl'', ''disable'', x, y]" "spares path [''launchctl'', x, y, z]" "spares path [''sudo'', ''systemctl'', x]"
  "path \<noteq> q \<Longrightarrow> spares path [''sudo'', ''rm'', ''-f'', q]"
  "path \<noteq> q \<Longrightarrow> \<not> has_prefix path (q @ ''/'') \<Longrightarrow> spares path [''sudo'', ''rm'', ''-rf'', q]"
  by (simp_all add: spares_def cmd_effect_def drop_sudo_def map_of_filter_key Let_def)

lemma agent_path_not_daemon:
  assumes "CHR ''/'' \<notin> set name"
  shows "agent_path os home name \<noteq> darwin_plist_path darwin_daemon_label" "agent_path os home name \<noteq> darwin_plist_path legacy_darwin_label"
    "agent_path os home name \<noteq> linux_unit_path linux_daemon_unit" "agent_path os home name \<noteq> linux_unit_path legacy_linux_unit"
proof -
  have b: "path_base (darwin_plist_path darwin_daemon_label) = ''com.four43labs.roxey-daemon.plist''"
    "path_base (darwin_plist_path legacy_darwin_label) = ''com.four43labs.roxey-relay.plist''"
    "path_base (linux_unit_path linux_daemon_unit) = ''roxey-daemon.service''" "path_base (linux_unit_path legacy_linux_unit) = ''roxey-relay.service''"
    by code_simp+
  have "agent_unit os name \<noteq> ''com.four43labs.roxey-daemon.plist''" "agent_unit os name \<noteq> ''com.four43labs.roxey-relay.plist''"
    "agent_unit os name \<noteq> ''roxey-daemon.service''" "agent_unit os name \<noteq> ''roxey-relay.service''"
    by (simp_all add: agent_unit_def project_label_pfx_def)
  then show "agent_path os home name \<noteq> darwin_plist_path darwin_daemon_label" "agent_path os home name \<noteq> darwin_plist_path legacy_darwin_label"
    "agent_path os home name \<noteq> linux_unit_path linux_daemon_unit" "agent_path os home name \<noteq> linux_unit_path legacy_linux_unit"
    using agent_path_base [OF assms, of os home] b by metis+
qed

lemma uninstall_spares_agent:
  assumes "CHR ''/'' \<notin> set name" "agent_path os home name \<noteq> root_dir os" "\<not> has_prefix (agent_path os home name) (root_dir os @ ''/'')"
  shows "map_of (fst (uninstall_daemon works os fs)) (agent_path os home name) = map_of fs (agent_path os home name)"
proof -
  have "\<forall>c\<in>set cs. spares (agent_path os home name) (cmd_words c)" if "uninstall_cmds os = Some cs" for cs
    using that assms(2,3) agent_path_not_daemon [OF assms(1), of os home]
    by (auto simp: uninstall_cmds_def cmd_words_def spares_sudo split: if_splits)
  then show ?thesis by (auto simp: uninstall_daemon_def svc_run_spares split: option.splits)
qed

text \<open>
  C39: what autostart is for undoes it. Once a project's autostart is on, any \<open>roxey up\<close> of the
  project, the one its own unit runs at login included, registers it again without the mark: the
  project is no longer listed as starting, and \<open>roxey service uninstall\<close> leaves its unit behind.
\<close>

theorem up_forgets_autostart:
  assumes on: "cmd_projects en alive is_dir True [''--autostart'', name] tf sf (Holds rg, fs) = ((pf1, fs1), Ok out1)"
    and dir: "path_base (path_clean (mf_dir m)) = name" "\<forall>p. map_of rg name = Some p \<longrightarrow> same_dir (p_path p) (path_clean (mf_dir m))"
    and up: "rg2 = registered ue m branch False (content pf1)"
    and names: "name \<noteq> []" "CHR ''/'' \<notin> set name" "\<forall>n\<in>fst ` set rg2. CHR ''/'' \<notin> set n"
    and place: "agent_path (se_os en) (se_home en) name \<noteq> root_dir (se_os en)"
      "\<not> has_prefix (agent_path (se_os en) (se_home en) name) (root_dir (se_os en) @ ''/'')"
    and uninstall: "cmd_service en [''uninstall''] (Holds rg2) fs1 = (fs2, rn, Ok out2)"
  shows "name \<in> set (autostart_names (content pf1)) \<and> name \<notin> set (autostart_names rg2) \<and>
    project_agent_installed (se_os en) (se_home en) name fs2"
proof -
  let ?path = "agent_path (se_os en) (se_home en) name"
  note step = projects_autostart [where b = True, unfolded autostart_flag_def, simplified, OF on names(1)]
  obtain p bin where p: "map_of rg name = Some p" "\<not> p_preview p" "se_exe en = Some bin" "se_os en = ''darwin'' \<or> se_os en = ''linux''"
    and pf1: "pf1 = Holds (set_autostart True name rg)" and fs1: "map_of fs1 ?path \<noteq> None" using step by auto
  have c1: "map_of (content pf1) = (map_of rg)(name \<mapsto> p\<lparr>p_autostart := True\<rparr>)" using p by (simp add: pf1 content_def set_autostart_def)
  have "pick_name (content pf1) (path_clean (mf_dir m)) name 0 = candidate name 0"
    using dir(2) p by (intro pick_name_first) (simp_all add: name_free_def candidate_def c1)
  then have "map_of rg2 name = Some (new_project (ue_now ue) name (path_clean (mf_dir m)) (rs_tld (mf_relay m)) (rs_local (mf_relay m)) (map me_host (mf_envs m)) branch False)"
    by (simp add: up registered_def register_project_def dir(1) candidate_def Let_def)
  then have gone: "name \<notin> set (autostart_names rg2)" by (simp add: autostart_names_iff new_project_def)
  have "\<forall>n\<in>set (autostart_names rg2). agent_path (se_os en) (se_home en) n \<noteq> ?path"
  proof
    fix n assume n: "n \<in> set (autostart_names rg2)"
    then have "CHR ''/'' \<notin> set n" using names(3) by (force simp: autostart_names_iff dest: map_of_SomeD)
    then show "agent_path (se_os en) (se_home en) n \<noteq> ?path" using n gone by (auto simp: agent_path_inj names(2))
  qed
  then have kept: "map_of (fst (uninstall_agents en (autostart_names rg2) fs1)) ?path = map_of fs1 ?path"
    by (rule uninstall_agents_other)
  have "map_of fs2 ?path = map_of fs1 ?path"
    using uninstall p(3) kept uninstall_spares_agent [OF names(2) place, of "se_works en"]
    by (auto simp: cmd_service_def new_manager_def registry_or_panic_def read_map_def load_map_def case_prod_unfold Let_def)
  then show ?thesis using gone p fs1 by (auto simp: project_agent_installed_def autostart_names_iff c1)
qed

definition app_manifest :: manifest where
  "app_manifest = \<lparr>mf_relay = \<lparr>rs_tld = ''dev'', rs_api_key = [], rs_local = True\<rparr>, mf_envs = [\<lparr>me_host = ''app'', me_protect = [], me_routes = []\<rparr>],
     mf_dir = ''/w/app'', mf_host_map = [(''app'', ''app'')], mf_assigned = []\<rparr>"

theorem up_forgets_autostart_witness:
  "\<forall>ue. \<exists>pf1 fs1 out1 fs2 rn out2.
     cmd_projects demo_service (\<lambda>_. False) (\<lambda>_. True) True [''--autostart'', ''app''] Missing Missing (Holds app_registry, []) = ((pf1, fs1), Ok out1) \<and>
     cmd_service demo_service [''uninstall''] (Holds (registered ue app_manifest [] False (content pf1))) fs1 = (fs2, rn, Ok out2) \<and>
     project_agent_installed ''linux'' ''/h'' ''app'' fs2"
proof
  fix ue
  obtain pf1 fs1 out1 where on: "cmd_projects demo_service (\<lambda>_. False) (\<lambda>_. True) True [''--autostart'', ''app''] Missing Missing (Holds app_registry, []) = ((pf1, fs1), Ok out1)"
    using demo_autostart(1) by blast
  have pf1: "content pf1 = gput ''app'' (new_project ''t'' ''app'' ''/w/app'' ''dev'' True [''app''] [] False\<lparr>p_autostart := True\<rparr>) app_registry"
    using projects_autostart [where b = True, unfolded autostart_flag_def, simplified, OF on]
    by (auto simp: content_def set_autostart_def app_registry_def)
  let ?rg2 = "registered ue app_manifest [] False (content pf1)"
  have d: "path_clean ''/w/app'' = ''/w/app''" "path_base ''/w/app'' = ''app''" "agent_path ''linux'' ''/h'' ''app'' = ''/h/.config/systemd/user/roxey-project-app.service''"
    by code_simp+
  have pick: "pick_name (content pf1) ''/w/app'' ''app'' 0 = candidate ''app'' 0"
    by (rule pick_name_first) (simp_all add: name_free_def candidate_def pf1 new_project_def same_dir_def)
  have names: "\<forall>n\<in>fst ` set ?rg2. CHR ''/'' \<notin> set n"
    by (simp add: registered_def register_project_def app_manifest_def d pick candidate_def Let_def) (auto simp: pf1 app_registry_def)
  have "\<exists>fs2 rn out2. cmd_service demo_service [''uninstall''] (Holds ?rg2) fs1 = (fs2, rn, Ok out2)"
    by (simp add: cmd_service_def demo_service_def new_manager_def registry_or_panic_def read_map_def load_map_def case_prod_unfold uninstall_daemon_def uninstall_cmds_def Let_def)
  then obtain fs2 rn out2 where off: "cmd_service demo_service [''uninstall''] (Holds ?rg2) fs1 = (fs2, rn, Ok out2)" by blast
  have s: "se_os demo_service = ''linux''" "se_home demo_service = ''/h''" by (simp_all add: demo_service_def)
  have "project_agent_installed ''linux'' ''/h'' ''app'' fs2"
    using up_forgets_autostart [OF on _ _ refl _ _ names _ _ off, unfolded s d]
    by (simp add: app_manifest_def d app_registry_def new_project_def same_dir_def root_dir_def)
  then show "\<exists>pf1 fs1 out1 fs2 rn out2.
     cmd_projects demo_service (\<lambda>_. False) (\<lambda>_. True) True [''--autostart'', ''app''] Missing Missing (Holds app_registry, []) = ((pf1, fs1), Ok out1) \<and>
     cmd_service demo_service [''uninstall''] (Holds (registered ue app_manifest [] False (content pf1))) fs1 = (fs2, rn, Ok out2) \<and>
     project_agent_installed ''linux'' ''/h'' ''app'' fs2" using on off by blast
qed

section \<open>Roxey calling itself\<close>

text \<open>
  The command lines roxey composes for itself are understood by its own \<open>main\<close> as meant: the
  worker gets the tunnel it was started for, a login unit brings up its project in the background,
  and the elevated installer gets the state directory and the relay binary of the caller.
\<close>

theorem own_command_lines:
  "main_command (exe # run_args r) = Some (CmdRun, tl (run_args r)) \<and> parse_run_args (tl (run_args r)) = Ok r \<and>
   (\<exists>rest. main_command (exe # agent_args name) = Some (CmdUp, rest) \<and>
      parse_up_options rest = Ok (no_up_options\<lparr>uo_detach := True, uo_project := name\<rparr>)) \<and>
   (case ensure_binary (le_machine le) dir of
      Inl _ \<Rightarrow> yields (install_daemon le dir) w w False
    | Inr bin \<Rightarrow> \<exists>cmd rest. yields (install_daemon le dir) w (w\<lparr>uw_acts := uw_acts w @ [InstallHelper cmd]\<rparr>) (le_installs le) \<and>
        main_command cmd = Some (CmdInstallDaemon, rest) \<and> parse_daemon_args [] [] rest = (dir, bin)) \<and>
   main_command [root_binary os ''roxey'', ''_daemon'', ''--state-dir'', dir] = Some (CmdDaemon, [''--state-dir'', dir]) \<and>
   parse_daemon_args [] [] [''--state-dir'', dir] = (dir, [])"
proof -
  have t: "map_of subcommand_table ''_run'' = Some CmdRun" "map_of subcommand_table ''up'' = Some CmdUp"
    "map_of subcommand_table ''_install-daemon'' = Some CmdInstallDaemon" "map_of subcommand_table ''_daemon'' = Some CmdDaemon"
    by (simp_all add: subcommand_table_def)
  have up: "parse_up_options [''-d'', ''--project'', name] = Ok (no_up_options\<lparr>uo_detach := True, uo_project := name\<rparr>)"
    by (simp add: parse_up_options_def no_up_options_def has_prefix_def)
  show ?thesis
    by (auto simp: main_command_def run_args_def agent_args_def t up parse_run_args_def install_daemon_def has_prefix_def split: sum.splits)
qed

section \<open>The boot relay\<close>

text \<open>
  The boot-time relay entry means to report that there is nothing to serve when no local
  project is registered. It never does: the primary TLD is \<open>dev\<close> then, and issuing a certificate
  for no host indexes an empty list, which is a panic, unless some certificate is on disk already.
\<close>

theorem service_relay_without_projects:
  assumes dir: "parse_state_dir [] args \<noteq> []" and rg: "read_map pf = Ok rg" "\<forall>p\<in>snd ` set rg. \<not> p_local p"
    and certs: "ce_dirs ce" "load_or_create_ca ce fs = (fs1, Ok (c, k))" "ce_leaf_key ce \<noteq> None"
  shows "snd (cmd_service_relay en ce args pf (sv, fs)) \<noteq> Err NothingToServe \<and>
    (if load_key_pair (cf_leaf fs1) (cf_leaf_key fs1) = None
     then cmd_service_relay en ce args pf (sv, fs) = ((sv, fs1), Err (CertsFailed LeafPanic))
     else \<exists>certs. ensure_certs ce (service_hosts rg) fs = (fs1, Ok certs))"
proof -
  have tld: "primary_local_tld rg = default_local_tld" unfolding primary_local_tld_def using rg(2) by (rule primary_loop_remote)
  have hosts: "set (all_local_host_fqdns rg) = {}" using rg(2) unfolding all_local_exact(3) by (auto simp: local_names_def)
  have none: "service_hosts rg = []" using hosts by (simp add: service_hosts_def tld default_local_tld_def dedupe_def)
  obtain n where n: "ce_leaf_key ce = Some n" using certs(3) by auto
  have "ensure_certs ce [] fs = (fs1, case load_key_pair (cf_leaf fs1) (cf_leaf_key fs1) of None \<Rightarrow> Err LeafPanic | Some (leaf, _) \<Rightarrow> Ok leaf)"
    using certs n by (auto simp: ensure_certs_def issue_leaf_def covers_def Let_def split: option.splits)
  then show ?thesis
    using dir rg(1) none by (auto simp: cmd_service_relay_def tld default_local_tld_def Let_def split: option.splits prod.splits sum.splits)
qed

definition fresh_ca :: ca_env where
  "fresh_ca = \<lparr>ce_now = 100, ce_ten_years = 1000, ce_dirs = True, ce_ca_key = Some 1, ce_leaf_key = Some 2,
     ce_writes = (Written, Written), ce_leaf_writes = (Written, Written)\<rparr>"

theorem service_relay_without_projects_witness:
  "\<forall>en sv. snd (cmd_service_relay en fresh_ca [''--state-dir'', ''/s''] Missing
     (sv, \<lparr>cf_ca = None, cf_ca_key = None, cf_leaf = None, cf_leaf_key = None\<rparr>)) = Err (CertsFailed LeafPanic)"
proof (intro allI)
  fix en and sv :: "servers state_file"
  let ?fs = "\<lparr>cf_ca = None, cf_ca_key = None, cf_leaf = None, cf_leaf_key = None\<rparr>"
  have d: "parse_state_dir [] [''--state-dir'', ''/s''] \<noteq> []" by simp
  have c: "\<exists>fs1 c k. load_or_create_ca fresh_ca ?fs = (fs1, Ok (c, k)) \<and> load_key_pair (cf_leaf fs1) (cf_leaf_key fs1) = None"
    by (simp add: load_or_create_ca_def load_key_pair_def fresh_ca_def write_file_def Let_def)
  then obtain fs1 c k where fs1: "load_or_create_ca fresh_ca ?fs = (fs1, Ok (c, k))" "load_key_pair (cf_leaf fs1) (cf_leaf_key fs1) = None" by blast
  have "read_map (Missing :: project_registry state_file) = Ok []" by (simp add: read_map_def load_map_def)
  then show "snd (cmd_service_relay en fresh_ca [''--state-dir'', ''/s''] Missing (sv, ?fs)) = Err (CertsFailed LeafPanic)"
    using service_relay_without_projects [OF d _ _ _ fs1(1), of Missing "[]" en sv] fs1(2) by (simp add: fresh_ca_def)
qed

end
