(* ===== verification/HostsFile.thy ===== *)
theory HostsFile
  imports Helper
begin

text \<open>
  How \<open>writeHosts\<close> of \<open>cli/internal/localrelay/hosts.go\<close> replaces \<open>/etc/hosts\<close>: as root through a
  temporary file of the same directory that is renamed over it, otherwise by \<open>sudo cp\<close> from a
  temporary file. The operations on the file system are kept apart, so that the process can be
  stopped between them, or in the middle of writing.
\<close>

section \<open>The file system\<close>

record hosts_fs =
  fs_hosts :: string
  fs_temps :: "(string, string) gomap"

datatype fs_op =
    CreateFile string | AppendFile string string | ChmodFile string | CloseFile string
  | RenameToHosts string | RemoveFile string | TruncateHosts | AppendHosts string

definition temp_text :: "hosts_fs \<Rightarrow> string \<Rightarrow> string" where
  "temp_text s n = (case map_of (fs_temps s) n of None \<Rightarrow> [] | Some t \<Rightarrow> t)"

fun fs_apply :: "fs_op \<Rightarrow> hosts_fs \<Rightarrow> hosts_fs" where
  "fs_apply (CreateFile n) s = s\<lparr>fs_temps := gput n [] (fs_temps s)\<rparr>"
| "fs_apply (AppendFile n d) s = s\<lparr>fs_temps := gput n (temp_text s n @ d) (fs_temps s)\<rparr>"
| "fs_apply (RenameToHosts n) s = s\<lparr>fs_hosts := temp_text s n, fs_temps := gdel n (fs_temps s)\<rparr>"
| "fs_apply (RemoveFile n) s = s\<lparr>fs_temps := gdel n (fs_temps s)\<rparr>"
| "fs_apply TruncateHosts s = s\<lparr>fs_hosts := []\<rparr>"
| "fs_apply (AppendHosts d) s = s\<lparr>fs_hosts := fs_hosts s @ d\<rparr>"
| "fs_apply (ChmodFile n) s = s"
| "fs_apply (CloseFile n) s = s"

definition fs_run :: "fs_op list \<Rightarrow> hosts_fs \<Rightarrow> hosts_fs" where
  "fs_run ops s = fold fs_apply ops s"

text \<open>The states in which a stop of the machine can leave the files: after any operation, or within a write.\<close>

inductive stopped :: "fs_op list \<Rightarrow> hosts_fs \<Rightarrow> hosts_fs \<Rightarrow> bool" where
  Between: "stopped ops s s"
| Later: "stopped ops (fs_apply op s) s' \<Longrightarrow> stopped (op # ops) s s'"
| TornTemp: "stopped (AppendFile n d # ops) s (fs_apply (AppendFile n (take j d)) s)"
| TornHosts: "stopped (AppendHosts d # ops) s (fs_apply (AppendHosts (take j d)) s)"

inductive_simps stopped_Nil: "stopped [] s s'"

section \<open>Writing the file\<close>

text \<open>What the calls return: the name of the temporary file, how much was written if the write fails, and the other results.\<close>

record write_env =
  we_temp :: "string option"
  we_written :: "nat option"
  we_chmod :: bool
  we_close :: bool
  we_replace :: bool

text \<open>The operations done, and whether the call returns without an error. Removing the temporary file is deferred.\<close>

definition write_hosts_root :: "write_env \<Rightarrow> string \<Rightarrow> fs_op list \<times> bool" where
  "write_hosts_root en content =
     (case we_temp en of
        None \<Rightarrow> ([], False)
      | Some n \<Rightarrow>
          (case we_written en of
             Some k \<Rightarrow> ([CreateFile n, AppendFile n (take k content), CloseFile n, RemoveFile n], False)
           | None \<Rightarrow>
               let ops = [CreateFile n, AppendFile n content] in
               if \<not> we_chmod en then (ops @ [CloseFile n, RemoveFile n], False)
               else if \<not> we_close en then (ops @ [ChmodFile n, CloseFile n, RemoveFile n], False)
               else if \<not> we_replace en then (ops @ [ChmodFile n, CloseFile n, RemoveFile n], False)
               else (ops @ [ChmodFile n, CloseFile n, RenameToHosts n, RemoveFile n], True)))"

text \<open>\<open>cp\<close> opens the target for writing, which empties it, and copies; its exit status may come at any time.\<close>

definition write_hosts_sudo :: "write_env \<Rightarrow> nat option \<Rightarrow> string \<Rightarrow> fs_op list \<times> bool" where
  "write_hosts_sudo en copied content =
     (case we_temp en of
        None \<Rightarrow> ([], False)
      | Some n \<Rightarrow>
          (case we_written en of
             Some k \<Rightarrow> ([CreateFile n, AppendFile n (take k content), CloseFile n, RemoveFile n], False)
           | None \<Rightarrow>
               let ops = [CreateFile n, AppendFile n content, CloseFile n] in
               if \<not> we_close en then (ops @ [RemoveFile n], False)
               else if \<not> we_replace en then
                 (ops @ (case copied of None \<Rightarrow> [] | Some k \<Rightarrow> [TruncateHosts, AppendHosts (take k content)]) @ [RemoveFile n], False)
               else (ops @ [TruncateHosts, AppendHosts content, RemoveFile n], True)))"

definition write_hosts_file :: "bool \<Rightarrow> write_env \<Rightarrow> nat option \<Rightarrow> string \<Rightarrow> string \<Rightarrow> fs_op list \<times> bool" where
  "write_hosts_file root en copied file newBlock =
     (case write_hosts file newBlock of
        None \<Rightarrow> ([], True)
      | Some content \<Rightarrow> if root then write_hosts_root en content else write_hosts_sudo en copied content)"

section \<open>No half-written file\<close>

lemma stopped_Cons:
  "stopped (op # ops) s s' \<longleftrightarrow> s' = s \<or> stopped ops (fs_apply op s) s' \<or>
     (\<exists>n d j. op = AppendFile n d \<and> s' = fs_apply (AppendFile n (take j d)) s) \<or> (\<exists>d j. op = AppendHosts d \<and> s' = fs_apply (AppendHosts (take j d)) s)"
  by (subst stopped.simps) (auto simp del: fs_apply.simps)

text \<open>
  C22: a privileged write of the hosts file is atomic: wherever the machine stops it, in the middle
  of writing too and whatever calls fail, the file is the old one or the whole new one; if it
  returns without an error the file is the new one, with an error the old one, and it leaves no
  temporary file of its own.
\<close>

theorem hosts_write_atomic:
  assumes fresh: "\<forall>n. we_temp en = Some n \<longrightarrow> map_of (fs_temps s) n = None"
  shows "(\<forall>s'. stopped (fst (write_hosts_file True en copied (fs_hosts s) newBlock)) s s' \<longrightarrow>
            fs_hosts s' = fs_hosts s \<or> fs_hosts s' = merge_hosts_block (fs_hosts s) newBlock) \<and>
    (let s' = fs_run (fst (write_hosts_file True en copied (fs_hosts s) newBlock)) s in
     fs_hosts s' = (if snd (write_hosts_file True en copied (fs_hosts s) newBlock) then merge_hosts_block (fs_hosts s) newBlock else fs_hosts s) \<and>
     map_of (fs_temps s') = map_of (fs_temps s))"
proof -
  let ?new = "merge_hosts_block (fs_hosts s) newBlock"
  have w: "write_hosts_file True en copied (fs_hosts s) newBlock = (if ?new = fs_hosts s then ([], True) else write_hosts_root en ?new)"
    by (simp add: write_hosts_file_def write_hosts_def Let_def)
  have stop: "fs_hosts s' = fs_hosts s \<or> fs_hosts s' = ?new" if "stopped (fst (write_hosts_root en ?new)) s s'" for s'
    using that by (auto simp: write_hosts_root_def Let_def stopped_Cons stopped_Nil temp_text_def split: option.splits if_splits)
  have result: "fs_hosts (fs_run (fst (write_hosts_root en ?new)) s) = (if snd (write_hosts_root en ?new) then ?new else fs_hosts s)"
    by (auto simp: write_hosts_root_def Let_def fs_run_def temp_text_def split: option.splits)
  have temps: "map_of (fs_temps (fs_run (fst (write_hosts_root en ?new)) s)) = map_of (fs_temps s)"
    using fresh by (auto simp: write_hosts_root_def Let_def fs_run_def fun_upd_idem split: option.splits)
  show ?thesis
  proof (cases "?new = fs_hosts s")
    case True
    then show ?thesis by (simp add: w stopped_Nil fs_run_def)
  next
    case False
    then show ?thesis using stop result temps by (simp add: w Let_def)
  qed
qed

theorem hosts_write_atomic_witness:
  "stopped (fst (write_hosts_file True \<lparr>we_temp = Some ''t'', we_written = None, we_chmod = True, we_close = True, we_replace = True\<rparr> None ''h'' (render_block [''app.dev''])))
      \<lparr>fs_hosts = ''h'', fs_temps = []\<rparr> \<lparr>fs_hosts = ''h'', fs_temps = [(''t'', [])]\<rparr> \<and>
   fs_hosts (fs_run (fst (write_hosts_file True \<lparr>we_temp = Some ''t'', we_written = None, we_chmod = True, we_close = True, we_replace = True\<rparr> None ''h'' (render_block [''app.dev''])))
      \<lparr>fs_hosts = ''h'', fs_temps = []\<rparr>) = merge_hosts_block ''h'' (render_block [''app.dev''])"
proof -
  let ?en = "\<lparr>we_temp = Some ''t'', we_written = None, we_chmod = True, we_close = True, we_replace = True\<rparr>"
  let ?s = "\<lparr>fs_hosts = ''h'', fs_temps = []\<rparr>"
  have new: "merge_hosts_block ''h'' (render_block [''app.dev'']) \<noteq> ''h''" by code_simp
  then have ok: "snd (write_hosts_file True ?en None (fs_hosts ?s) (render_block [''app.dev'']))"
    by (simp add: write_hosts_file_def write_hosts_def write_hosts_root_def Let_def)
  have "\<forall>n. we_temp ?en = Some n \<longrightarrow> map_of (fs_temps ?s) n = None" by simp
  note hosts_write_atomic [OF this, of None "render_block [''app.dev'']"]
  then have "fs_hosts (fs_run (fst (write_hosts_file True ?en None (fs_hosts ?s) (render_block [''app.dev'']))) ?s) = merge_hosts_block (fs_hosts ?s) (render_block [''app.dev''])"
    using ok by (simp add: Let_def)
  moreover have "stopped (fst (write_hosts_file True ?en None ''h'' (render_block [''app.dev'']))) ?s \<lparr>fs_hosts = ''h'', fs_temps = [(''t'', [])]\<rparr>"
    using new by (simp add: write_hosts_file_def write_hosts_def write_hosts_root_def Let_def stopped_Cons)
  ultimately show ?thesis by simp
qed

text \<open>The helper's view of the write, which only knows whether it succeeds, is this one.\<close>

lemma write_managed_refines:
  assumes "hosts_readable os" "hosts_writable os = snd (write_hosts_file True en copied (fs_hosts s) block)" "write_hosts (fs_hosts s) block \<noteq> None"
  shows "write_managed_block os (fs_hosts s) block =
    (if snd (write_hosts_file True en copied (fs_hosts s) block)
     then Some (fs_hosts (fs_run (fst (write_hosts_file True en copied (fs_hosts s) block)) s)) else None)"
proof -
  obtain content where c: "write_hosts (fs_hosts s) block = Some content" using assms(3) by blast
  have "fs_hosts (fs_run (fst (write_hosts_root en content)) s) = content" if "snd (write_hosts_root en content)"
    using that by (auto simp: write_hosts_root_def Let_def fs_run_def temp_text_def split: option.splits if_splits)
  then show ?thesis using assms(1,2) c by (auto simp: write_managed_block_def write_hosts_file_def)
qed

text \<open>Without privileges the copy is not atomic: stopped at the wrong moment it leaves an empty hosts file.\<close>

lemma hosts_copy_torn:
  assumes "write_hosts (fs_hosts s) newBlock = Some content" "we_temp en = Some n" "we_written en = None" "we_close en" "we_replace en"
  shows "\<exists>s'. stopped (fst (write_hosts_file False en None (fs_hosts s) newBlock)) s s' \<and> fs_hosts s' = []"
proof -
  let ?s' = "fs_run [CreateFile n, AppendFile n content, CloseFile n, TruncateHosts] s"
  have "stopped (fst (write_hosts_file False en None (fs_hosts s) newBlock)) s ?s'"
    using assms by (auto simp: write_hosts_file_def write_hosts_sudo_def Let_def stopped_Cons fs_run_def)
  moreover have "fs_hosts ?s' = []" by (simp add: fs_run_def)
  ultimately show ?thesis by blast
qed

end
