(* ===== verification/Foreground.thy ===== *)
theory Foreground
  imports Runner
begin

text \<open>
  Services in the foreground: \<open>SpawnForeground\<close> of \<open>cli/runner/runner.go\<close> with its pipes and the
  readers of the child's output, and what the processes it starts look like to \<open>KillGroup\<close>.
\<close>

section \<open>Output\<close>

text \<open>
  \<open>bufio.Scanner\<close> with \<open>ScanLines\<close>: the lines of the output without their line ends, an empty last
  line left out; a line that does not fit the buffer ends the scan. The second component says
  whether the scan gave up.
\<close>

definition max_line :: nat where "max_line = 1024 * 1024"

definition drop_cr :: "string \<Rightarrow> string" where
  "drop_cr l = trim_suffix l [CHR 0x0D]"

definition scan_output :: "nat \<Rightarrow> string \<Rightarrow> string list \<times> bool" where
  "scan_output limit out =
     (let ls = str_split CHR 0x0A out;
          pending = (if last ls = [] then butlast ls else ls);
          fitting = takeWhile (\<lambda>l. length l < limit) pending
      in (map drop_cr fitting, length fitting < length pending))"

section \<open>Starting\<close>

datatype fd = OutReader | OutWriter | ErrReader | ErrWriter

record foreground_env =
  fe_out_pipe :: bool
  fe_err_pipe :: bool
  fe_environ :: "string list"
  fe_pid :: "int option"
  fe_now :: int
  fe_rounds :: "wait_round list"
  fe_drains :: bool

text \<open>
  The process id, the descriptors that are left open for good, whether the group was killed and
  the error. In \<open>fe_rounds\<close> the exit of the child is what \<open>done\<close> tells: both readers are at the
  end of their pipes. \<open>fe_drains\<close> says whether they get there once the group has been killed; the
  call does not return otherwise.
\<close>

definition spawn_foreground :: "foreground_env \<Rightarrow> spawn_options \<Rightarrow> (int \<times> fd list \<times> bool \<times> spawn_error option) option" where
  "spawn_foreground en opts =
     (if \<not> fe_out_pipe en \<or> \<not> fe_err_pipe en then Some (0, [], False, Some PipeFailed)
      else case build_cmd (fe_environ en) opts of
        Inl e \<Rightarrow> Some (0, [], False, Some (BadCommand e))
      | Inr cmd \<Rightarrow>
          (case fe_pid en of
             None \<Rightarrow> Some (0, [OutReader, OutWriter, ErrReader, ErrWriter], False, Some StartFailed)
           | Some pid \<Rightarrow>
               (case wait_port_or_exit (so_port opts) (fe_now en + ready_timeout_s) (fe_rounds en) of
                  None \<Rightarrow> None
                | Some (Inl e) \<Rightarrow> if fe_drains en then Some (pid, [], True, Some (NotReady e)) else None
                | Some (Inr _) \<Rightarrow> Some (pid, [], False, None))))"

text \<open>Only a process that cannot be started costs descriptors: the four ends of its pipes.\<close>

lemma start_failure_leaks:
  "fe_out_pipe en \<Longrightarrow> fe_err_pipe en \<Longrightarrow> fe_pid en = None \<Longrightarrow> is_ok (build_cmd (fe_environ en) opts) \<Longrightarrow>
     spawn_foreground en opts = Some (0, [OutReader, OutWriter, ErrReader, ErrWriter], False, Some StartFailed)"
  by (auto simp: spawn_foreground_def split: sum.splits)

lemma foreground_leaks_only_then:
  "spawn_foreground en opts = Some (pid, fds, killed, err) \<Longrightarrow> fds \<noteq> [] \<Longrightarrow> err = Some StartFailed"
  by (auto simp: spawn_foreground_def split: if_splits sum.splits option.splits)

section \<open>The two ways of starting a service agree\<close>

definition same_world :: "foreground_env \<Rightarrow> spawn_env \<Rightarrow> bool" where
  "same_world fe se \<longleftrightarrow> fe_environ fe = se_environ se \<and> fe_pid fe = se_pid se \<and> fe_now fe = se_now se \<and> fe_rounds fe = se_rounds se"

lemma spawn_modes:
  assumes "same_world fe se" "se_log_ok se" "fe_out_pipe fe" "fe_err_pipe fe" "fe_drains fe"
  shows "map_option (\<lambda>(pid, _, killed, err). (pid, killed, err)) (spawn_foreground fe opts) = spawn se opts"
  using assms by (auto simp: spawn_foreground_def spawn_def same_world_def split: sum.splits option.splits)

text \<open>Every line of the output is passed on when all of them fit.\<close>

lemma scan_fitting:
  assumes "\<forall>l\<in>set ls. CHR 0x0A \<notin> set l \<and> length l < limit"
  shows "scan_output limit (concat (map (\<lambda>l. l @ [CHR 0x0A]) ls)) = (map drop_cr ls, False)"
proof -
  have split: "str_split CHR 0x0A (concat (map (\<lambda>l. l @ [CHR 0x0A]) ls)) = ls @ [[]]"
    using assms by (induction ls) (simp_all add: str_split_append_sep str_split_word)
  have "takeWhile (\<lambda>l. length l < limit) ls = ls" using assms by (simp add: takeWhile_eq_all_conv)
  note all = this
  show ?thesis by (simp add: scan_output_def split Let_def) (simp only: all length_map less_irrefl simp_thms)
qed

lemma scan_gives_up:
  assumes "\<forall>l\<in>set ls. CHR 0x0A \<notin> set l \<and> length l < limit" "CHR 0x0A \<notin> set long" "limit \<le> length long"
  shows "scan_output limit (concat (map (\<lambda>l. l @ [CHR 0x0A]) ls) @ long @ CHR 0x0A # rest) = (map drop_cr ls, True)"
proof -
  have split: "str_split CHR 0x0A (concat (map (\<lambda>l. l @ [CHR 0x0A]) ls) @ t) = ls @ str_split CHR 0x0A t" for t
    using assms(1) by (induction ls) (simp_all add: str_split_append_sep str_split_word)
  have tail: "str_split CHR 0x0A (long @ CHR 0x0A # rest) = long # str_split CHR 0x0A rest" using assms(2) by (simp add: str_split_append_sep str_split_word)
  have "takeWhile (\<lambda>l. length l < limit) (ls @ long # us) = ls" for us using assms by (simp add: takeWhile_append2)
  moreover have "butlast (ls @ long # us) = ls @ long # butlast us" if "us \<noteq> []" for us using that by (simp add: butlast_append)
  ultimately show ?thesis by (simp add: scan_output_def split tail Let_def str_split_ne)
qed

section \<open>Ending a child\<close>

text \<open>
  What the polls of \<open>KillGroup\<close> see: \<open>kill(pid, 0)\<close> succeeds until the process is gone, and an exited
  child is gone only once its parent has waited for it. \<open>Spawn\<close> waits for its child,
  \<open>SpawnForeground\<close> does not.
\<close>

definition child_polls :: "bool \<Rightarrow> int \<Rightarrow> int list \<Rightarrow> (int \<times> bool) list" where
  "child_polls reaped exit_time ts = map (\<lambda>t. (t, \<not> (reaped \<and> exit_time \<le> t))) ts"

lemma kill_poll_zombie:
  "\<exists>t\<in>set ts. deadline \<le> t \<Longrightarrow> kill_poll deadline (child_polls False exit_time ts) = Some [SigKill]"
  by (induction ts) (auto simp: child_polls_def)

lemma kill_poll_reaped:
  "sorted (ts @ [t]) \<Longrightarrow> t < deadline \<Longrightarrow> exit_time \<le> t \<Longrightarrow> kill_poll deadline (child_polls True exit_time (ts @ t # us)) = Some []"
  by (induction ts) (auto simp: child_polls_def)

text \<open>
  How a service ends depends on who started it. A child that \<open>Spawn\<close> waits for and that exits
  within the five seconds gets a single SIGTERM; a child of \<open>SpawnForeground\<close> stays a zombie of
  the running command, so that however soon it exits, the wait lasts the full five seconds and
  ends with a SIGKILL for its group.
\<close>

theorem foreground_child_killed:
  assumes "0 < pid" "sorted (ts @ [t])" "exit_time \<le> t" "t < now + 5" "\<exists>u\<in>set us. now + 5 \<le> u"
  shows "kill_group pid now (child_polls True exit_time (ts @ t # us)) = Some [(- pid, SigTerm)] \<and>
    kill_group pid now (child_polls False exit_time (ts @ t # us)) = Some [(- pid, SigTerm), (- pid, SigKill)]"
proof -
  have "\<exists>u\<in>set (ts @ t # us). now + 5 \<le> u" using assms(5) by auto
  then show ?thesis using kill_poll_reaped [OF assms(2,4,3)] kill_poll_zombie assms(1) by (simp add: kill_group_def)
qed

theorem foreground_child_killed_witness:
  "kill_group 7 0 (child_polls False 1 [1, 5]) = Some [(- 7, SigTerm), (- 7, SigKill)]"
  using foreground_child_killed [of 7 "[]" 1 1 0 "[5]"] by simp

end
