(* ===== verification/Bridge.thy ===== *)
theory Bridge
  imports Prelude
begin

text \<open>
  \<open>handleStream\<close> and \<open>pipe\<close> of \<open>cli/tunnel/tunnel.go\<close>: a stream of the relay and a connection to
  the local service, joined by two copying goroutines. What each side still sends is part of the
  state; a side may also break off.
\<close>

section \<open>The joined connections\<close>

text \<open>
  \<open>br_stream_in\<close> and \<open>br_local_in\<close>: what the stream and the service will still send before they
  end their sides; \<open>br_stream_out\<close> and \<open>br_local_out\<close>: what has been written to them.
\<close>

record bridge =
  br_stream_in :: string
  br_local_out :: string
  br_local_in :: string
  br_stream_out :: string
  br_stream_open :: bool
  br_local_open :: bool
  br_broken :: bool
  br_up_done :: bool
  br_down_done :: bool
  br_returned :: bool

definition bridge_start :: "string \<Rightarrow> string \<Rightarrow> bridge" where
  "bridge_start request response =
     \<lparr>br_stream_in = request, br_local_out = [], br_local_in = response, br_stream_out = [], br_stream_open = True, br_local_open = True,
      br_broken = False, br_up_done = False, br_down_done = False, br_returned = False\<rparr>"

text \<open>
  The goroutines copy in pieces of any size. One ends when its source has ended or either
  connection is closed or broken, and then closes its target; \<open>pipe\<close> returns when one of them has
  ended, and \<open>handleStream\<close> closes both connections.
\<close>

inductive bridge_step :: "bridge \<Rightarrow> bridge \<Rightarrow> bool" where
  CopyToLocal: "\<not> br_down_done s \<Longrightarrow> br_stream_open s \<Longrightarrow> br_local_open s \<Longrightarrow>
     bridge_step s (s\<lparr>br_stream_in := drop n (br_stream_in s), br_local_out := br_local_out s @ take n (br_stream_in s)\<rparr>)"
| CopyToStream: "\<not> br_up_done s \<Longrightarrow> br_stream_open s \<Longrightarrow> br_local_open s \<Longrightarrow>
     bridge_step s (s\<lparr>br_local_in := drop n (br_local_in s), br_stream_out := br_stream_out s @ take n (br_local_in s)\<rparr>)"
| EndToLocal: "\<not> br_down_done s \<Longrightarrow> br_stream_in s = [] \<or> \<not> br_stream_open s \<or> \<not> br_local_open s \<or> br_broken s \<Longrightarrow>
     bridge_step s (s\<lparr>br_down_done := True, br_local_open := False\<rparr>)"
| EndToStream: "\<not> br_up_done s \<Longrightarrow> br_local_in s = [] \<or> \<not> br_stream_open s \<or> \<not> br_local_open s \<or> br_broken s \<Longrightarrow>
     bridge_step s (s\<lparr>br_up_done := True, br_stream_open := False\<rparr>)"
| Break: "bridge_step s (s\<lparr>br_broken := True\<rparr>)"
| Return: "br_up_done s \<or> br_down_done s \<Longrightarrow> bridge_step s (s\<lparr>br_returned := True, br_stream_open := False, br_local_open := False\<rparr>)"

inductive_cases bridge_stepE: "bridge_step s s'"

definition bridge_inv :: "string \<Rightarrow> string \<Rightarrow> bridge \<Rightarrow> bool" where
  "bridge_inv request response s \<longleftrightarrow>
     br_local_out s @ br_stream_in s = request \<and> br_stream_out s @ br_local_in s = response \<and>
     (\<not> br_stream_open s \<or> \<not> br_local_open s \<or> br_returned s \<longrightarrow> br_stream_in s = [] \<or> br_local_in s = [] \<or> br_broken s) \<and>
     (br_returned s \<longrightarrow> \<not> br_stream_open s \<and> \<not> br_local_open s) \<and> (br_up_done s \<or> br_down_done s \<longrightarrow> \<not> br_stream_open s \<or> \<not> br_local_open s)"

lemma bridge_inv_start: "bridge_inv request response (bridge_start request response)"
  by (simp add: bridge_inv_def bridge_start_def)

lemma bridge_inv_step: "bridge_step s s' \<Longrightarrow> bridge_inv request response s \<Longrightarrow> bridge_inv request response s'"
  by (erule bridge_stepE) (auto simp: bridge_inv_def)

interpretation bridge_runs: invariant_system "\<lambda>s. s = bridge_start request response" bridge_step "bridge_inv request response" for request response
  by unfold_locales (auto simp: bridge_inv_start intro: bridge_inv_step)

text \<open>
  C29: a bridged connection never reorders, repeats or invents a byte: at any time what each side
  has received is a beginning of what the other side sent; when the bridge returns, both
  connections are closed and, unless one broke off, one of the two directions is complete.
  The other direction may be cut short: its bytes that were still to come are dropped.
\<close>

theorem bridge_delivers:
  assumes "bridge_step\<^sup>*\<^sup>* (bridge_start request response) s"
  shows "(\<exists>rest. request = br_local_out s @ rest) \<and> (\<exists>rest. response = br_stream_out s @ rest) \<and>
    (br_returned s \<longrightarrow> \<not> br_stream_open s \<and> \<not> br_local_open s \<and>
       (br_broken s \<or> br_local_out s = request \<or> br_stream_out s = response))"
  using bridge_runs.inv_reachable [OF refl assms] by (auto simp: bridge_inv_def)

text \<open>Ending one's side of a connection after the request, as clients may, loses the response.\<close>

lemma half_close_step:
  "bridge_step\<^sup>*\<^sup>* (bridge_start request response) ((bridge_start request response)\<lparr>br_stream_in := [], br_local_out := request,
     br_down_done := True, br_local_open := False, br_returned := True, br_stream_open := False\<rparr>)"
proof -
  let ?s0 = "bridge_start request response"
  let ?s1 = "?s0\<lparr>br_stream_in := [], br_local_out := request\<rparr>"
  let ?s2 = "?s1\<lparr>br_down_done := True, br_local_open := False\<rparr>"
  have "bridge_step ?s0 ?s1" using bridge_step.CopyToLocal [of ?s0 "length request"] by (simp add: bridge_start_def)
  moreover have "bridge_step ?s1 ?s2" using bridge_step.EndToLocal [of ?s1] by (simp add: bridge_start_def)
  moreover have "bridge_step ?s2 (?s2\<lparr>br_returned := True, br_stream_open := False, br_local_open := False\<rparr>)"
    using bridge_step.Return [of ?s2] by (simp add: bridge_start_def)
  ultimately have "bridge_step\<^sup>*\<^sup>* ?s0 (?s2\<lparr>br_returned := True, br_stream_open := False, br_local_open := False\<rparr>)" by simp
  then show ?thesis by (simp add: bridge_start_def)
qed

theorem bridge_delivers_witness:
  "\<exists>s. bridge_step\<^sup>*\<^sup>* (bridge_start ''ping'' ''pong'') s \<and> br_returned s \<and> br_stream_out s = [] \<and> br_local_out s = ''ping''"
proof -
  let ?s = "(bridge_start ''ping'' ''pong'')\<lparr>br_stream_in := [], br_local_out := ''ping'',
     br_down_done := True, br_local_open := False, br_returned := True, br_stream_open := False\<rparr>"
  have r: "bridge_step\<^sup>*\<^sup>* (bridge_start ''ping'' ''pong'') ?s" by (rule half_close_step)
  have "br_returned ?s" "\<not> br_broken ?s" "br_stream_out ?s \<noteq> ''pong''" by (simp_all add: bridge_start_def)
  then have "br_local_out ?s = ''ping''" using bridge_delivers [OF r] by blast
  then show ?thesis using r by (intro exI [of _ ?s]) (simp add: bridge_start_def)
qed

end
